(* ===== verification/Prelude.thy ===== *)
theory Prelude
  imports Main "HOL-Library.Word" "HOL-Library.Char_ord" "HOL-Library.List_Lexorder"
begin

text \<open>
  Shared vocabulary of the development: the byte strings and machine integers of the
  C++ sources, the character classes of the "C" locale that the sources call through
  \<open><cctype>\<close> and \<open>operator>>\<close>, the clock, fixed-size output buffers, and the generic
  list lemmas that the component theories use.

  Numbers that can be large are \<^typ>\<open>int\<close> rather than \<^typ>\<open>nat\<close> where the code evaluates them, so
  that the definitions compute in binary.  A \<open>std::string\<close> is a \<^typ>\<open>string\<close>: a list of 8-bit characters, NUL included, so
  \<open>size()\<close> is \<^const>\<open>length\<close>.  Every \<open>u64\<close>, \<open>std::size_t\<close> or counter whose width matters
  is a 64-bit word; a signed \<open>long long\<close> clock value is an \<^typ>\<open>int\<close>.
\<close>

named_theorems wire_simps "facts about which characters a wire field can hold"

type_synonym u64 = "64 word"

text \<open>The readings of the system clock that one operation makes, in the order it makes them.\<close>

type_synonym clock = "nat \<Rightarrow> int"

abbreviation NUL :: char where "NUL \<equiv> CHR 0x00"
abbreviation TAB :: char where "TAB \<equiv> CHR 0x09"
abbreviation NL :: char where "NL \<equiv> CHR 0x0A"

section \<open>Character classes\<close>

text \<open>\<open>std::isspace\<close>, \<open>std::isdigit\<close> and \<open>std::isxdigit\<close> on an unsigned char.\<close>

definition is_space :: "char \<Rightarrow> bool" where
  "is_space c = (let n = of_char c :: int in n = 32 \<or> (9 \<le> n \<and> n \<le> 13))"

definition is_digit :: "char \<Rightarrow> bool" where
  "is_digit c = (let n = of_char c :: int in 48 \<le> n \<and> n \<le> 57)"

definition is_xdigit :: "char \<Rightarrow> bool" where
  "is_xdigit c = (let n = of_char c :: int in
     (48 \<le> n \<and> n \<le> 57) \<or> (65 \<le> n \<and> n \<le> 70) \<or> (97 \<le> n \<and> n \<le> 102))"

definition is_upper_xdigit :: "char \<Rightarrow> bool" where
  "is_upper_xdigit c = (let n = of_char c :: int in 65 \<le> n \<and> n \<le> 70)"

lemma of_char_bounds [simp]: "0 \<le> (of_char c :: int)" "of_char c < (256 :: int)"
proof -
  have "(of_char c :: int) = int (of_char c)"
    by (simp add: of_nat_of_char)
  then show "0 \<le> (of_char c :: int)" "of_char c < (256 :: int)"
    using nat_of_char_less_256 [of c] by linarith+
qed

lemma is_digit_imp_xdigit: "is_digit c \<Longrightarrow> is_xdigit c"
  by (simp add: is_digit_def is_xdigit_def Let_def)

lemma xdigit_not_space: "is_xdigit c \<Longrightarrow> \<not> is_space c"
  by (auto simp: is_xdigit_def is_space_def Let_def)

lemma digit_not_space: "is_digit c \<Longrightarrow> \<not> is_space c"
  by (simp add: is_digit_imp_xdigit xdigit_not_space)

text \<open>The separators of the wire formats are not hexadecimal digits.\<close>

lemma separators_not_xdigit [simp]:
  "\<not> is_xdigit (CHR ''.'')" "\<not> is_xdigit (CHR '','')" "\<not> is_xdigit (CHR ''/'')"
  "\<not> is_xdigit (CHR ''|'')" "\<not> is_xdigit (CHR ''$'')" "\<not> is_xdigit (CHR '':'')"
  "\<not> is_xdigit (CHR '' '')" "\<not> is_xdigit TAB" "\<not> is_xdigit NL" "\<not> is_xdigit (CHR ''-'')"
  by (simp_all add: is_xdigit_def)

lemma separators_not_digit [simp]:
  "\<not> is_digit (CHR ''.'')" "\<not> is_digit (CHR '','')" "\<not> is_digit (CHR ''/'')"
  "\<not> is_digit (CHR ''|'')" "\<not> is_digit (CHR ''$'')" "\<not> is_digit (CHR '':'')"
  "\<not> is_digit (CHR '' '')" "\<not> is_digit TAB" "\<not> is_digit NL" "\<not> is_digit (CHR ''-'')"
  by (simp_all add: is_digit_def)

lemma separators_not_space [simp]:
  "\<not> is_space (CHR ''.'')" "\<not> is_space (CHR '','')" "\<not> is_space (CHR ''/'')"
  "\<not> is_space (CHR ''|'')" "\<not> is_space (CHR ''$'')" "\<not> is_space (CHR '':'')"
  "\<not> is_space (CHR ''-'')"
  by (simp_all add: is_space_def)

lemma spaces_are_space [simp]: "is_space (CHR '' '')" "is_space TAB" "is_space NL"
  by (simp_all add: is_space_def)

section \<open>Machine words\<close>

lemma uint_pos: "uint (w :: u64) \<noteq> 0 \<Longrightarrow> 1 \<le> uint w"
  using uint_ge_0 [of w] by linarith

section \<open>Fixed-size buffers and C strings\<close>

text \<open>
  \<open>std::string buffer(n, 0)\<close> handed to a library that writes \<open>data\<close> into it: the result has
  exactly \<open>n\<close> bytes whatever the library wrote.
\<close>

definition into_buffer :: "nat \<Rightarrow> string \<Rightarrow> string" where
  "into_buffer n data = take n data @ replicate (n - length data) NUL"

lemma length_into_buffer [simp]: "length (into_buffer n data) = n"
  by (simp add: into_buffer_def)

lemma into_buffer_exact [simp]: "length data = n \<Longrightarrow> into_buffer n data = data"
  by (simp add: into_buffer_def)

text \<open>What a C function sees of \<open>s.c_str()\<close>: the bytes before the first NUL.\<close>

definition c_str :: "string \<Rightarrow> string" where
  "c_str s = takeWhile (\<lambda>c. c \<noteq> NUL) s"

lemma c_str_no_nul [simp]: "NUL \<notin> set s \<Longrightarrow> c_str s = s"
  by (induction s) (auto simp: c_str_def)

text \<open>\<open>s.rfind(prefix, 0) == 0\<close>.\<close>

definition starts_with :: "string \<Rightarrow> string \<Rightarrow> bool" where
  "starts_with s prefix = (take (length prefix) s = prefix)"

lemma starts_with_append [simp]: "starts_with (p @ s) p"
  by (simp add: starts_with_def)

lemma starts_with_simps [simp]:
  "starts_with s []" "starts_with (c # s) (d # p) \<longleftrightarrow> c = d \<and> starts_with s p" "\<not> starts_with [] (d # p)"
  by (auto simp: starts_with_def)

lemma starts_with_iff: "starts_with s p \<longleftrightarrow> (\<exists>t. s = p @ t)"
  by (metis append_eq_conv_conj append_take_drop_id starts_with_def)

section \<open>List lemmas\<close>

lemma takeWhile_upto: "d \<notin> set p \<Longrightarrow> takeWhile (\<lambda>c. c \<noteq> d) (p @ d # s) = p"
  by (induction p) auto

lemma dropWhile_upto: "d \<notin> set p \<Longrightarrow> dropWhile (\<lambda>c. c \<noteq> d) (p @ d # s) = d # s"
  by (induction p) auto

lemma not_mem_takeWhile_neq: "d \<notin> set (takeWhile (\<lambda>c. c \<noteq> d) s)"
  by (auto dest: set_takeWhileD)

lemma not_mem_dropWhile_Nil: "d \<notin> set s \<Longrightarrow> dropWhile (\<lambda>c. c \<noteq> d) s = []"
  by (induction s) auto

lemma not_mem_takeWhile_all: "d \<notin> set s \<Longrightarrow> takeWhile (\<lambda>c. c \<noteq> d) s = s"
  by (induction s) auto

lemma dropWhile_head: "dropWhile P s = x # r \<Longrightarrow> \<not> P x"
  by (metis dropWhile_eq_Cons_conv)

end
