(* ===== verification/Encoding.thy ===== *)
theory Encoding
  imports Prelude
begin

text \<open>
  \<open>common/encoding.cpp\<close>: hexadecimal text, strict decimal parsing, splitting and joining,
  and the two standard-library conversions the sources lean on, \<open>std::to_string\<close> and
  \<open>operator>> (istream, string)\<close>.  A function with a \<open>bool\<close> result and an out-parameter that is
  untouched on failure returns an option.  The theory ends with the round-trip contract of a
  wire format, the locales \<open>codec\<close> and \<open>field_codec\<close>, and their first interpretations.
\<close>

section \<open>Hexadecimal\<close>

unbundle bit_operations_syntax

definition hex_digits :: string where
  "hex_digits = ''0123456789abcdef''"

definition toHex :: "string \<Rightarrow> string" where
  "toHex bytes = concat (map (\<lambda>c. let byte = of_char c :: int in
     [hex_digits ! nat (drop_bit 4 byte), hex_digits ! nat (byte AND 15)]) bytes)"

text \<open>The value \<open>std::from_chars\<close> gives one digit in base 16 (upper or lower case).\<close>

definition hex_value :: "char \<Rightarrow> int" where
  "hex_value c = (let n = of_char c in
     if n \<le> 57 then n - 48 else if n \<le> 70 then n - 55 else n - 87)"

text \<open>The loop of \<open>fromHex\<close>: two characters at a time.  The length is even there, so the
  clause for one left-over character is never reached.\<close>

fun hex_pairs :: "string \<Rightarrow> string option" where
  "hex_pairs [] = Some []"
| "hex_pairs [c] = None"
| "hex_pairs (c # d # rest) =
     (if \<not> is_xdigit c \<or> \<not> is_xdigit d then None
      else map_option (\<lambda>decoded. char_of (16 * hex_value c + hex_value d) # decoded) (hex_pairs rest))"

definition fromHex :: "string \<Rightarrow> string option" where
  "fromHex hex = (if length hex mod 2 \<noteq> 0 then None else hex_pairs hex)"

definition isHex :: "string \<Rightarrow> nat \<Rightarrow> bool" where
  "isHex s len = (length s = len \<and> list_all is_xdigit s)"

definition isSha1Hex :: "string \<Rightarrow> bool" where
  "isSha1Hex s = isHex s 40"

lemma hex_digit_nat:
  "n < 16 \<Longrightarrow> is_xdigit (hex_digits ! n) \<and> \<not> is_upper_xdigit (hex_digits ! n) \<and> hex_value (hex_digits ! n) = int n"
proof -
  assume "n < 16"
  then have "n \<in> set [0..<16]" by simp
  moreover have "list_all (\<lambda>n. is_xdigit (hex_digits ! n) \<and> \<not> is_upper_xdigit (hex_digits ! n)
      \<and> hex_value (hex_digits ! n) = int n) [0..<16]"
    by code_simp
  ultimately show ?thesis by (simp only: list_all_iff) blast
qed

lemma hex_digit_lower:
  assumes "0 \<le> i" "i < 16"
  shows "is_xdigit (hex_digits ! nat i)" "\<not> is_upper_xdigit (hex_digits ! nat i)"
    "hex_value (hex_digits ! nat i) = i"
  using hex_digit_nat [of "nat i"] assms by simp_all

lemma byte_nibbles:
  fixes c :: char
  shows "0 \<le> drop_bit 4 (of_char c :: int)" "drop_bit 4 (of_char c :: int) < 16"
    and "0 \<le> (of_char c :: int) AND 15" "(of_char c :: int) AND 15 < 16"
    and "16 * drop_bit 4 (of_char c) + ((of_char c :: int) AND 15) = of_char c"
proof -
  have mask: "(of_char c :: int) AND 15 = of_char c mod 16"
    using take_bit_eq_mask [of 4 "of_char c :: int"] by (simp add: take_bit_eq_mod mask_eq_exp_minus_1)
  show "0 \<le> drop_bit 4 (of_char c :: int)" by simp
  have "(of_char c :: int) div 16 < 16"
    using of_char_bounds(2) [of c] by linarith
  then show "drop_bit 4 (of_char c :: int) < 16"
    by (simp add: drop_bit_eq_div)
  show "0 \<le> (of_char c :: int) AND 15" "(of_char c :: int) AND 15 < 16"
    by (simp_all add: mask)
  show "16 * drop_bit 4 (of_char c) + ((of_char c :: int) AND 15) = of_char c"
    by (simp add: mask drop_bit_eq_div)
qed

lemma toHex_Nil [simp]: "toHex [] = []"
  by (simp add: toHex_def)

lemma toHex_Cons: "toHex (c # s) =
  hex_digits ! nat (drop_bit 4 (of_char c :: int)) # hex_digits ! nat ((of_char c :: int) AND 15) # toHex s"
  by (simp add: toHex_def Let_def)

lemma length_toHex [simp]: "length (toHex s) = 2 * length s"
  by (induction s) (simp_all add: toHex_Cons)

lemma toHex_eq_Nil [simp]: "toHex s = [] \<longleftrightarrow> s = []"
  by (cases s) (simp_all add: toHex_Cons)

lemma toHex_chars: "c \<in> set (toHex s) \<Longrightarrow> is_xdigit c \<and> \<not> is_upper_xdigit c"
  by (induction s) (auto simp: toHex_Cons hex_digit_lower byte_nibbles)

lemma hex_pairs_toHex: "hex_pairs (toHex s) = Some s"
  by (induction s) (simp_all add: toHex_Cons hex_digit_lower byte_nibbles)

lemma fromHex_toHex: "fromHex (toHex s) = Some s"
  by (simp add: fromHex_def hex_pairs_toHex)

lemma hex_pairs_defined: "even (length s) \<Longrightarrow> hex_pairs s = None \<longleftrightarrow> \<not> list_all is_xdigit s"
  by (induction s rule: hex_pairs.induct) auto

lemma length_hex_pairs: "hex_pairs s = Some bs \<Longrightarrow> length s = 2 * length bs"
  by (induction s arbitrary: bs rule: hex_pairs.induct) (auto split: if_splits)

lemma fromHex_None_iff: "fromHex s = None \<longleftrightarrow> odd (length s) \<or> \<not> list_all is_xdigit s"
  by (auto simp: fromHex_def hex_pairs_defined even_iff_mod_2_eq_zero)

lemma length_fromHex: "fromHex s = Some bs \<Longrightarrow> length s = 2 * length bs"
  by (auto simp: fromHex_def length_hex_pairs split: if_splits)

lemma fromHex_xdigits: "fromHex s = Some bs \<Longrightarrow> c \<in> set s \<Longrightarrow> is_xdigit c"
  using fromHex_None_iff [of s] by (auto simp: list_all_iff)

section \<open>Decimal\<close>

definition digit_value :: "char \<Rightarrow> int" where
  "digit_value c = of_char c - 48"

definition dec_value :: "string \<Rightarrow> int" where
  "dec_value s = foldl (\<lambda>v c. 10 * v + digit_value c) 0 s"

datatype errc = Errc_ok | Invalid_argument | Result_out_of_range

text \<open>
  \<open>std::from_chars (first, last, value)\<close> for an unsigned 64-bit \<open>value\<close>: the longest prefix of
  decimal digits; where it stopped, the error and the value (the initial 0 on an error).
\<close>

definition from_chars_u64 :: "string \<Rightarrow> string \<times> errc \<times> u64" where
  "from_chars_u64 s =
     (let digits = takeWhile is_digit s; rest = dropWhile is_digit s in
      if digits = [] then (s, Invalid_argument, 0)
      else if dec_value digits \<ge> 2 ^ 64 then (rest, Result_out_of_range, 0)
      else (rest, Errc_ok, word_of_int (dec_value digits)))"

definition parseU64 :: "string \<Rightarrow> u64 option" where
  "parseU64 s =
     (let (stop, error, parsed) = from_chars_u64 s in
      if s = [] \<or> error \<noteq> Errc_ok \<or> stop \<noteq> [] then None else Some parsed)"

definition digit_char :: "int \<Rightarrow> char" where
  "digit_char n = char_of (48 + n)"

function to_dec :: "int \<Rightarrow> string" where
  "to_dec n = (if n < 10 then [digit_char n] else to_dec (n div 10) @ [digit_char (n mod 10)])"
  by pat_completeness auto
termination
  by (relation "measure nat") auto

declare to_dec.simps [simp del]

text \<open>\<open>std::to_string\<close> of an unsigned and of a signed 64-bit integer.\<close>

definition to_string_u64 :: "u64 \<Rightarrow> string" where
  "to_string_u64 w = to_dec (uint w)"

definition to_string_int :: "int \<Rightarrow> string" where
  "to_string_int i = (if i < 0 then CHR ''-'' # to_dec (- i) else to_dec i)"

lemma digit_char_props: "0 \<le> n \<Longrightarrow> n < 10 \<Longrightarrow> is_digit (digit_char n) \<and> digit_value (digit_char n) = n"
  by (simp add: is_digit_def digit_char_def digit_value_def)

lemma to_dec_digits: "0 \<le> n \<Longrightarrow> c \<in> set (to_dec n) \<Longrightarrow> is_digit c"
proof (induction n rule: to_dec.induct)
  case (1 n)
  then show ?case
    by (cases "n < 10") (auto simp: to_dec.simps [of n] digit_char_props)
qed

lemma to_dec_nonempty [simp]: "to_dec n \<noteq> []"
  by (subst to_dec.simps) simp

lemma dec_value_snoc: "dec_value (s @ [c]) = 10 * dec_value s + digit_value c"
  by (simp add: dec_value_def)

lemma dec_value_to_dec: "0 \<le> n \<Longrightarrow> dec_value (to_dec n) = n"
proof (induction n rule: to_dec.induct)
  case (1 n)
  then show ?case
    by (cases "n < 10")
      (simp_all add: to_dec.simps [of n] digit_char_props dec_value_snoc,
       simp add: dec_value_def digit_char_props)
qed

lemma parseU64_iff:
  "parseU64 s = Some v \<longleftrightarrow>
     s \<noteq> [] \<and> list_all is_digit s \<and> dec_value s < 2 ^ 64 \<and> v = word_of_int (dec_value s)"
proof (cases "list_all is_digit s")
  case True
  then have all: "dropWhile is_digit s = []" "takeWhile is_digit s = s"
    by (simp_all add: list_all_iff dropWhile_eq_Nil_conv takeWhile_eq_all_conv)
  show ?thesis
    using True by (auto simp only: parseU64_def from_chars_u64_def all Let_def split: if_splits)
next
  case False
  then have "dropWhile is_digit s \<noteq> []"
    by (simp add: list_all_iff dropWhile_eq_Nil_conv)
  with False show ?thesis
    by (auto simp: parseU64_def from_chars_u64_def Let_def split: if_splits)
qed

lemma parseU64_digits: "parseU64 s = Some v \<Longrightarrow> c \<in> set s \<Longrightarrow> is_digit c"
  by (auto simp: parseU64_iff list_all_iff)

lemma parseU64_to_dec: "0 \<le> n \<Longrightarrow> n < 2 ^ 64 \<Longrightarrow> parseU64 (to_dec n) = Some (word_of_int n)"
  by (auto simp: parseU64_iff dec_value_to_dec list_all_iff dest: to_dec_digits)

lemma parseU64_to_string: "parseU64 (to_string_u64 w) = Some w"
  using unsigned_less [of w, where ?'a = int] by (simp add: to_string_u64_def parseU64_to_dec)

lemma parseU64_to_string_int:
  "0 \<le> i \<Longrightarrow> i < 2 ^ 64 \<Longrightarrow> parseU64 (to_string_int i) = Some (word_of_int i)"
  by (simp add: to_string_int_def parseU64_to_dec)

lemma to_string_u64_chars: "c \<in> set (to_string_u64 w) \<Longrightarrow> is_digit c"
  unfolding to_string_u64_def by (erule to_dec_digits [rotated]) simp

lemma to_string_u64_nonempty [simp]: "to_string_u64 w \<noteq> []"
  by (simp add: to_string_u64_def)

lemma to_string_int_chars: "0 \<le> i \<Longrightarrow> c \<in> set (to_string_int i) \<Longrightarrow> is_digit c"
  by (rule to_dec_digits [of i]) (simp_all add: to_string_int_def)

lemma to_string_int_nonempty [simp]: "to_string_int i \<noteq> []"
  by (simp add: to_string_int_def)

section \<open>Splitting and joining\<close>

text \<open>The argument is the suffix of the text from \<open>begin\<close> on; each turn of the source's loop
  pushes the part before the next delimiter.\<close>

function split :: "string \<Rightarrow> char \<Rightarrow> string list" where
  "split s d =
     (case dropWhile (\<lambda>c. c \<noteq> d) s of
        [] \<Rightarrow> [takeWhile (\<lambda>c. c \<noteq> d) s]
      | _ # rest \<Rightarrow> takeWhile (\<lambda>c. c \<noteq> d) s # split rest d)"
  by pat_completeness auto
termination
proof (relation "measure (length \<circ> fst)")
  fix s :: string and d x and rest
  assume "dropWhile (\<lambda>c. c \<noteq> d) s = x # rest"
  then have "Suc (length rest) \<le> length s"
    by (metis length_Cons length_dropWhile_le)
  then show "((rest, d), (s, d)) \<in> measure (length \<circ> fst)"
    by simp
qed simp

declare split.simps [simp del]

fun join :: "string list \<Rightarrow> char \<Rightarrow> string" where
  "join [] d = []"
| "join [p] d = p"
| "join (p # q # ps) d = p @ d # join (q # ps) d"

lemma split_no_delim: "d \<notin> set s \<Longrightarrow> split s d = [s]"
  by (simp add: split.simps not_mem_dropWhile_Nil not_mem_takeWhile_all)

lemma split_at_delim: "d \<notin> set p \<Longrightarrow> split (p @ d # s) d = p # split s d"
  by (subst split.simps) (simp add: takeWhile_upto dropWhile_upto)

lemma split_nonempty [simp]: "split s d \<noteq> []"
  by (subst split.simps) (simp split: list.splits)

lemma split_parts: "p \<in> set (split s d) \<Longrightarrow> d \<notin> set p"
proof (induction s d rule: split.induct)
  case (1 s d)
  then show ?case
    by (subst (asm) (2) split.simps) (auto simp: not_mem_takeWhile_neq split: list.splits)
qed

lemma split_parts_subset: "p \<in> set (split s d) \<Longrightarrow> set p \<subseteq> set s"
proof (induction s d rule: split.induct)
  case (1 s d)
  have drop: "set rest \<subseteq> set s" if "dropWhile (\<lambda>c. c \<noteq> d) s = x # rest" for x rest
    using that by (metis set_dropWhileD set_subset_Cons subset_code(1))
  from 1 show ?case
    by (subst (asm) (2) split.simps) (auto split: list.splits dest: set_takeWhileD drop [THEN subsetD])
qed

lemma join_Cons: "ps \<noteq> [] \<Longrightarrow> join (p # ps) d = p @ d # join ps d"
  by (cases ps) simp_all

lemma join_split: "join (split s d) d = s"
proof (induction s d rule: split.induct)
  case (1 s d)
  show ?case
  proof (cases "dropWhile (\<lambda>c. c \<noteq> d) s")
    case Nil
    then show ?thesis
      by (metis append_Nil2 join.simps(2) list.simps(4) split.simps takeWhile_dropWhile_id)
  next
    case (Cons x rest)
    then have "x = d" using dropWhile_head by fastforce
    with 1 Cons show ?thesis
      by (subst split.simps) (simp add: join_Cons, metis takeWhile_dropWhile_id)
  qed
qed

lemma split_join: "ps \<noteq> [] \<Longrightarrow> (\<And>p. p \<in> set ps \<Longrightarrow> d \<notin> set p) \<Longrightarrow> split (join ps d) d = ps"
  by (induction ps d rule: join.induct) (auto simp: split_no_delim split_at_delim)

lemma split_append: "split (a @ d # b) d = split a d @ split b d"
proof -
  have "split (join ps d @ d # b) d = ps @ split b d" if "ps \<noteq> []" "\<And>p. p \<in> set ps \<Longrightarrow> d \<notin> set p" for ps
    using that by (induction ps d rule: join.induct) (auto simp: split_at_delim)
  from this [of "split a d"] show ?thesis
    using split_parts [of _ a d] by (simp add: join_split)
qed

text \<open>Two texts of the same number of fields each, joined, come apart in one way only.\<close>

lemma split_append_inject:
  assumes "a @ d # b = a' @ d # b'" "length (split a d) = length (split a' d)"
  shows "a = a' \<and> b = b'"
proof -
  have "split a d @ split b d = split a' d @ split b' d"
    using assms(1) by (metis split_append)
  then have "split a d = split a' d" "split b d = split b' d"
    using assms(2) by simp_all
  then show ?thesis by (metis join_split)
qed

section \<open>Words of a stream\<close>

text \<open>\<open>for (std::string word; input >> word;) words.push_back(word);\<close> as the sources read a
  line or a file: the maximal runs of non-space characters.  The first argument is the word
  being read.\<close>

fun words_from :: "string \<Rightarrow> string \<Rightarrow> string list" where
  "words_from cur [] = (if cur = [] then [] else [cur])"
| "words_from cur (c # s) =
     (if is_space c then (if cur = [] then words_from [] s else cur # words_from [] s)
      else words_from (cur @ [c]) s)"

definition words_of :: "string \<Rightarrow> string list" where
  "words_of s = words_from [] s"

lemma words_from_append: "list_all (\<lambda>c. \<not> is_space c) w \<Longrightarrow> words_from cur (w @ s) = words_from (cur @ w) s"
  by (induction w arbitrary: cur) auto

lemma words_of_single: "w \<noteq> [] \<Longrightarrow> list_all (\<lambda>c. \<not> is_space c) w \<Longrightarrow> words_of w = [w]"
  using words_from_append [of w "[]" "[]"] by (simp add: words_of_def)

lemma words_of_word:
  "w \<noteq> [] \<Longrightarrow> list_all (\<lambda>c. \<not> is_space c) w \<Longrightarrow> is_space d \<Longrightarrow> words_of (w @ d # s) = w # words_of s"
  by (simp add: words_of_def words_from_append)

lemma words_of_join:
  "is_space d \<Longrightarrow> list_all (\<lambda>w. w \<noteq> [] \<and> list_all (\<lambda>c. \<not> is_space c) w) ws \<Longrightarrow> words_of (join ws d) = ws"
  by (induction ws d rule: join.induct) (auto simp: words_of_word words_of_single, simp add: words_of_def)

lemma words_from_words:
  "list_all (\<lambda>c. \<not> is_space c) cur \<Longrightarrow> w \<in> set (words_from cur s) \<Longrightarrow>
     w \<noteq> [] \<and> list_all (\<lambda>c. \<not> is_space c) w"
  by (induction cur s rule: words_from.induct) (auto split: if_splits)

lemma words_of_words: "w \<in> set (words_of s) \<Longrightarrow> w \<noteq> [] \<and> list_all (\<lambda>c. \<not> is_space c) w"
  by (rule words_from_words [of "[]" w s]) (simp_all add: words_of_def)

lemma words_from_subset: "w \<in> set (words_from cur s) \<Longrightarrow> set w \<subseteq> set cur \<union> set s"
  by (induction cur s rule: words_from.induct) (auto split: if_splits)

lemma words_of_subset: "w \<in> set (words_of s) \<Longrightarrow> set w \<subseteq> set s"
  using words_from_subset [of w "[]" s] by (simp add: words_of_def)

section \<open>The contract of a wire format\<close>

locale codec =
  fixes enc :: "'a \<Rightarrow> string" and dec :: "string \<Rightarrow> 'a option" and valid :: "'a \<Rightarrow> bool"
  assumes dec_enc: "valid x \<Longrightarrow> dec (enc x) = Some x"
begin

lemma enc_inj: "valid x \<Longrightarrow> valid y \<Longrightarrow> enc x = enc y \<longleftrightarrow> x = y"
  by (metis dec_enc option.inject)

lemma map_dec_enc: "list_all valid xs \<Longrightarrow> map (dec \<circ> enc) xs = map Some xs"
  by (induction xs) (simp_all add: dec_enc)

end

text \<open>A format whose texts can stand in a list separated by \<open>delim\<close>.\<close>

locale field_codec = codec +
  fixes delim :: char
  assumes enc_free: "valid x \<Longrightarrow> delim \<notin> set (enc x)"
begin

lemma split_join_enc:
  assumes "xs \<noteq> []" "list_all valid xs"
  shows "split (join (map enc xs) delim) delim = map enc xs"
  using assms by (intro split_join) (auto simp: list_all_iff enc_free)

lemma decode_list:
  assumes "xs \<noteq> []" "list_all valid xs"
  shows "List.map_filter dec (split (join (map enc xs) delim) delim) = xs"
proof -
  have "List.map_filter dec (map enc xs) = xs"
    using assms(2) by (induction xs) (simp_all add: dec_enc List.map_filter_simps)
  with assms show ?thesis by (simp add: split_join_enc)
qed

end

text \<open>Hex text can be a field of each of the program's formats.\<close>

abbreviation any_value :: "'a \<Rightarrow> bool" where "any_value x \<equiv> True"

interpretation hex_dot: field_codec toHex fromHex any_value "CHR ''.''"
  by unfold_locales (auto simp: fromHex_toHex dest: toHex_chars)

interpretation hex_bar: field_codec toHex fromHex any_value "CHR ''|''"
  by unfold_locales (auto simp: fromHex_toHex dest: toHex_chars)

interpretation u64_text: field_codec to_string_u64 parseU64 any_value "TAB"
  by unfold_locales (auto simp: parseU64_to_string dest: to_string_u64_chars)

end
