(* ===== verification/Crypto.thy ===== *)
theory Crypto
  imports Encoding
begin

text \<open>
  \<open>common/crypto/crypto.cpp\<close>: the wrappers over OpenSSL.  OpenSSL (and the C library's
  \<open>inet_pton\<close>) is not code of the repository: it is the parameter record \<open>platform\<close>, one field
  per chain of library calls, \<^const>\<open>None\<close> when a call in the chain fails.  What the wrappers add
  is modelled: the size checks, the fixed-size output buffers, the empty-string error results.
  Every call of the random generator is an argument of the operation that makes it.
  The facts about OpenSSL that some properties need are the predicates of the last section.
\<close>

section \<open>The libraries below the program\<close>

record platform =
  pf_inet_pton :: "string \<Rightarrow> bool"
  pf_sha1 :: "string \<Rightarrow> string"
  pf_sha256 :: "string \<Rightarrow> string option"
  pf_hmac_sha256 :: "string \<Rightarrow> string \<Rightarrow> string option"
  pf_pbkdf2 :: "string \<Rightarrow> string \<Rightarrow> int \<Rightarrow> nat \<Rightarrow> string option"
  pf_memcmp :: "string \<Rightarrow> string \<Rightarrow> nat \<Rightarrow> int"
  pf_gcm_seal :: "string \<Rightarrow> string \<Rightarrow> string \<Rightarrow> string \<Rightarrow> (string \<times> string) option"
  pf_gcm_open :: "string \<Rightarrow> string \<Rightarrow> string \<Rightarrow> string \<Rightarrow> string \<Rightarrow> string option"
  pf_ed25519_sign :: "string \<Rightarrow> string \<Rightarrow> string option"
  pf_ed25519_verify :: "string \<Rightarrow> string \<Rightarrow> string \<Rightarrow> bool"
  pf_x25519 :: "string \<Rightarrow> string \<Rightarrow> string option"

text \<open>One call of \<open>RAND_bytes\<close>: the bytes it writes, or a failure.\<close>

type_synonym entropy = "(nat \<Rightarrow> char) option"

text \<open>One key generation: the raw (private, public) pair OpenSSL reports, or a failure.\<close>

type_synonym keygen = "(string \<times> string) option"

definition NONCE_SIZE :: nat where "NONCE_SIZE = 12"
definition TAG_SIZE :: nat where "TAG_SIZE = 16"
definition INT_MAX :: int where "INT_MAX = 2147483647"

definition fitsInt :: "nat \<Rightarrow> bool" where
  "fitsInt n = (int n \<le> INT_MAX)"

lemma fitsInt_small [simp]: "n \<le> 65536 \<Longrightarrow> fitsInt n"
  by (simp add: fitsInt_def INT_MAX_def)

section \<open>Random bytes, erasure, comparison, digests\<close>

definition randomBytes :: "nat \<Rightarrow> entropy \<Rightarrow> string" where
  "randomBytes n r =
     (if \<not> fitsInt n then []
      else case r of None \<Rightarrow> [] | Some bytes \<Rightarrow> map bytes [0..<n])"

definition secureErase :: "string \<Rightarrow> string" where
  "secureErase secret = []"

definition constantTimeEqual :: "platform \<Rightarrow> string \<Rightarrow> string \<Rightarrow> bool" where
  "constantTimeEqual P left right =
     (length left = length right \<and> pf_memcmp P left right (length left) = 0)"

definition sha256 :: "platform \<Rightarrow> string \<Rightarrow> string" where
  "sha256 P data = (case pf_sha256 P data of None \<Rightarrow> [] | Some d \<Rightarrow> into_buffer 32 d)"

definition hmacSha256 :: "platform \<Rightarrow> string \<Rightarrow> string \<Rightarrow> string" where
  "hmacSha256 P key data =
     (if \<not> fitsInt (length key) then []
      else case pf_hmac_sha256 P key data of
             None \<Rightarrow> []
           | Some d \<Rightarrow> if length d \<noteq> 32 then [] else into_buffer 32 d)"

definition pbkdf2Sha256 :: "platform \<Rightarrow> string \<Rightarrow> string \<Rightarrow> int \<Rightarrow> nat \<Rightarrow> string" where
  "pbkdf2Sha256 P password salt iterations len =
     (if iterations = 0 \<or> iterations > INT_MAX \<or> len = 0 \<or> \<not> fitsInt len \<or>
         \<not> fitsInt (length password) \<or> \<not> fitsInt (length salt) then []
      else case pf_pbkdf2 P password salt iterations len of
             None \<Rightarrow> []
           | Some d \<Rightarrow> into_buffer len d)"

text \<open>The streaming SHA-1 context holds the bytes absorbed so far.\<close>

type_synonym sha1_context = string

definition sha1_init :: sha1_context where
  "sha1_init = []"

definition sha1_update :: "sha1_context \<Rightarrow> string \<Rightarrow> sha1_context" where
  "sha1_update context data = context @ data"

definition sha1_hexDigest :: "platform \<Rightarrow> sha1_context \<Rightarrow> string" where
  "sha1_hexDigest P context = toHex (into_buffer 20 (pf_sha1 P context))"

definition sha1Hex :: "platform \<Rightarrow> string \<Rightarrow> string" where
  "sha1Hex P data = sha1_hexDigest P (sha1_update sha1_init data)"

lemma length_randomBytes: "length (randomBytes n r) = n \<or> randomBytes n r = []"
  by (cases r) (simp_all add: randomBytes_def)

lemma randomBytes_Some [simp]: "n \<le> 65536 \<Longrightarrow> length (randomBytes n (Some f)) = n"
  by (simp add: randomBytes_def)

lemma length_sha256: "sha256 P d \<noteq> [] \<Longrightarrow> length (sha256 P d) = 32"
  by (simp add: sha256_def split: option.splits)

lemma length_hmacSha256: "hmacSha256 P k d \<noteq> [] \<Longrightarrow> length (hmacSha256 P k d) = 32"
  by (auto simp: hmacSha256_def split: option.splits if_splits)

lemma length_pbkdf2Sha256:
  "pbkdf2Sha256 P pw s i n \<noteq> [] \<Longrightarrow> length (pbkdf2Sha256 P pw s i n) = n"
  by (simp add: pbkdf2Sha256_def split: option.splits if_splits)

lemma sha1Hex_stream: "sha1_hexDigest P (sha1_update (sha1_update c a) b) = sha1_hexDigest P (sha1_update c (a @ b))"
  by (simp add: sha1_update_def)

lemma length_sha1_hexDigest [simp]: "length (sha1_hexDigest P c) = 40"
  by (simp add: sha1_hexDigest_def)

lemma sha1_hexDigest_chars: "c \<in> set (sha1_hexDigest P x) \<Longrightarrow> is_xdigit c \<and> \<not> is_upper_xdigit c"
  unfolding sha1_hexDigest_def by (rule toHex_chars)

lemma isSha1Hex_sha1 [simp]: "isSha1Hex (sha1_hexDigest P c)" "isSha1Hex (sha1Hex P d)"
  by (auto simp: isSha1Hex_def isHex_def list_all_iff sha1Hex_def dest: sha1_hexDigest_chars)

lemma sha1Hex_lower: "c \<in> set (sha1Hex P d) \<Longrightarrow> \<not> is_upper_xdigit c"
  unfolding sha1Hex_def using sha1_hexDigest_chars by blast

section \<open>AES-256-GCM\<close>

record AesGcmMessage =
  gm_nonce :: string
  gm_ciphertext :: string
  gm_tag :: string

definition encrypt :: "platform \<Rightarrow> entropy \<Rightarrow> string \<Rightarrow> string \<Rightarrow> string \<Rightarrow> AesGcmMessage option" where
  "encrypt P r key aad plain =
     (if length key \<noteq> 32 \<or> \<not> fitsInt (length aad) \<or> \<not> fitsInt (length plain) then None
      else let nonce = randomBytes NONCE_SIZE r in
        if length nonce \<noteq> NONCE_SIZE then None
        else case pf_gcm_seal P key nonce aad plain of
               None \<Rightarrow> None
             | Some (c, t) \<Rightarrow> Some \<lparr>gm_nonce = nonce, gm_ciphertext = into_buffer (length plain) c,
                                   gm_tag = into_buffer TAG_SIZE t\<rparr>)"

definition decrypt :: "platform \<Rightarrow> string \<Rightarrow> string \<Rightarrow> AesGcmMessage \<Rightarrow> string option" where
  "decrypt P key aad message =
     (if length key \<noteq> 32 \<or> length (gm_nonce message) \<noteq> NONCE_SIZE \<or>
         length (gm_tag message) \<noteq> TAG_SIZE \<or> \<not> fitsInt (length aad) \<or>
         \<not> fitsInt (length (gm_ciphertext message)) then None
      else case pf_gcm_open P key (gm_nonce message) aad (gm_ciphertext message) (gm_tag message) of
             None \<Rightarrow> None
           | Some d \<Rightarrow> Some (into_buffer (length (gm_ciphertext message)) d))"

section \<open>Key pairs, Ed25519, X25519\<close>

record KeyPair =
  kp_private :: string
  kp_public :: string

definition generateKeyPair :: "keygen \<Rightarrow> KeyPair option" where
  "generateKeyPair raw =
     (case raw of
        None \<Rightarrow> None
      | Some (priv, pub) \<Rightarrow>
          if length priv \<noteq> 32 \<or> length pub \<noteq> 32 then None
          else Some \<lparr>kp_private = into_buffer 32 priv, kp_public = into_buffer 32 pub\<rparr>)"

definition ed25519Sign :: "platform \<Rightarrow> string \<Rightarrow> string \<Rightarrow> string" where
  "ed25519Sign P privateKey message =
     (if length privateKey \<noteq> 32 then []
      else case pf_ed25519_sign P privateKey message of
             None \<Rightarrow> []
           | Some s \<Rightarrow> if length s \<noteq> 64 then [] else into_buffer 64 s)"

definition ed25519Verify :: "platform \<Rightarrow> string \<Rightarrow> string \<Rightarrow> string \<Rightarrow> bool" where
  "ed25519Verify P publicKey message signature =
     (if length publicKey \<noteq> 32 \<or> length signature \<noteq> 64 then False
      else pf_ed25519_verify P publicKey message signature)"

definition x25519SharedSecret :: "platform \<Rightarrow> string \<Rightarrow> string \<Rightarrow> string" where
  "x25519SharedSecret P privateKey peerPublicKey =
     (if length privateKey \<noteq> 32 \<or> length peerPublicKey \<noteq> 32 then []
      else case pf_x25519 P privateKey peerPublicKey of
             None \<Rightarrow> []
           | Some s \<Rightarrow> if length s \<noteq> 32 then [] else into_buffer 32 s)"

lemma generateKeyPair_lengths:
  "generateKeyPair raw = Some k \<Longrightarrow> length (kp_private k) = 32 \<and> length (kp_public k) = 32"
  by (auto simp: generateKeyPair_def split: option.splits prod.splits if_splits)

lemma length_ed25519Sign: "ed25519Sign P k m \<noteq> [] \<Longrightarrow> length (ed25519Sign P k m) = 64"
  by (auto simp: ed25519Sign_def split: option.splits if_splits)

lemma encrypt_SomeD:
  "encrypt P r key aad plain = Some m \<Longrightarrow>
     length key = 32 \<and> fitsInt (length aad) \<and> fitsInt (length plain) \<and>
     length (gm_nonce m) = 12 \<and> length (gm_tag m) = 16 \<and> length (gm_ciphertext m) = length plain"
  by (auto simp: encrypt_def Let_def NONCE_SIZE_def TAG_SIZE_def split: option.splits prod.splits if_splits)

lemma decrypt_SomeD:
  "decrypt P key aad m = Some plain \<Longrightarrow>
     length key = 32 \<and> length (gm_nonce m) = 12 \<and> length (gm_tag m) = 16 \<and>
     length plain = length (gm_ciphertext m)"
  by (auto simp: decrypt_def NONCE_SIZE_def TAG_SIZE_def split: option.splits if_splits)

section \<open>What the properties assume of OpenSSL\<close>

text \<open>Opening what was sealed, under the same key, nonce and additional data, gives the plaintext
  back; sealing keeps the length and makes a 16-byte tag.\<close>

definition gcm_correct :: "platform \<Rightarrow> bool" where
  "gcm_correct P \<longleftrightarrow> (\<forall>k n a p c t. pf_gcm_seal P k n a p = Some (c, t) \<longrightarrow>
     length c = length p \<and> length t = 16 \<and> pf_gcm_open P k n a c t = Some p)"

text \<open>The tag is checked: only what sealing produces opens.\<close>

definition gcm_authentic :: "platform \<Rightarrow> bool" where
  "gcm_authentic P \<longleftrightarrow> (\<forall>k n a p c t. pf_gcm_open P k n a c t = Some p \<longrightarrow>
     pf_gcm_seal P k n a p = Some (c, t))"

text \<open>Sealing and HMAC do not fail on inputs of the right size.\<close>

definition gcm_total :: "platform \<Rightarrow> bool" where
  "gcm_total P \<longleftrightarrow> (\<forall>k n a p. length k = 32 \<longrightarrow> length n = 12 \<longrightarrow> pf_gcm_seal P k n a p \<noteq> None)"

definition hmac_total :: "platform \<Rightarrow> bool" where
  "hmac_total P \<longleftrightarrow> (\<forall>k d. \<exists>m. pf_hmac_sha256 P k d = Some m \<and> length m = 32)"

text \<open>\<open>CRYPTO_memcmp\<close> answers 0 exactly on equal bytes.\<close>

definition memcmp_correct :: "platform \<Rightarrow> bool" where
  "memcmp_correct P \<longleftrightarrow> (\<forall>a b. length a = length b \<longrightarrow> (pf_memcmp P a b (length a) = 0 \<longleftrightarrow> a = b))"

text \<open>\<open>inet_pton (AF_INET, ...)\<close> accepts dotted-decimal text only.\<close>

definition inet_dotted :: "platform \<Rightarrow> bool" where
  "inet_dotted P \<longleftrightarrow> (\<forall>s. pf_inet_pton P s \<longrightarrow> list_all (\<lambda>c. is_digit c \<or> c = CHR ''.'') s)"

lemma decrypt_encrypt:
  assumes "gcm_correct P" "encrypt P r key aad plain = Some m"
  shows "decrypt P key aad m = Some plain"
  using assms encrypt_SomeD [OF assms(2)]
  by (fastforce simp: encrypt_def decrypt_def gcm_correct_def NONCE_SIZE_def TAG_SIZE_def Let_def
      split: option.splits prod.splits if_splits)

text \<open>What opens was sealed, to exactly this ciphertext and tag.\<close>

lemma decrypt_sealed:
  assumes "gcm_correct P" "gcm_authentic P" "decrypt P key aad m = Some plain"
  shows "pf_gcm_seal P key (gm_nonce m) aad plain = Some (gm_ciphertext m, gm_tag m)"
proof -
  obtain d where d: "pf_gcm_open P key (gm_nonce m) aad (gm_ciphertext m) (gm_tag m) = Some d"
      "plain = into_buffer (length (gm_ciphertext m)) d"
    using assms(3) by (auto simp: decrypt_def split: if_splits option.splits)
  then have "pf_gcm_seal P key (gm_nonce m) aad d = Some (gm_ciphertext m, gm_tag m)"
    using assms(2) unfolding gcm_authentic_def by blast
  moreover from this have "length (gm_ciphertext m) = length d"
    using assms(1) unfolding gcm_correct_def by blast
  ultimately show ?thesis
    using d(2) by simp
qed

lemma encrypt_total:
  assumes "gcm_total P" "length key = 32" "fitsInt (length aad)" "fitsInt (length plain)"
  shows "\<exists>m. encrypt P (Some f) key aad plain = Some m"
proof -
  have "length (randomBytes 12 (Some f)) = 12" by simp
  with assms obtain ct where "pf_gcm_seal P key (randomBytes 12 (Some f)) aad plain = Some ct"
    unfolding gcm_total_def by blast
  with assms show ?thesis
    by (cases ct) (simp add: encrypt_def NONCE_SIZE_def)
qed

lemma hmac_length: "hmac_total P \<Longrightarrow> fitsInt (length key) \<Longrightarrow> length (hmacSha256 P key d) = 32"
  by (auto simp: hmacSha256_def hmac_total_def split: option.splits)
    (metis option.inject option.distinct(1))+

lemma constantTimeEqual_iff: "memcmp_correct P \<Longrightarrow> constantTimeEqual P a b \<longleftrightarrow> a = b"
  by (auto simp: constantTimeEqual_def memcmp_correct_def)

section \<open>A concrete platform\<close>

text \<open>
  A small platform that satisfies every assumption above, used only to evaluate the model at
  concrete inputs: no field is meant to be secure.
\<close>

definition toy_mac :: "nat \<Rightarrow> string list \<Rightarrow> string" where
  "toy_mac n parts = into_buffer n
     (concat (map (\<lambda>p. take 3 p @ drop (length p - 3) p) parts) @ concat (rev parts))"

definition toy_platform :: platform where
  "toy_platform = \<lparr>
     pf_inet_pton = (\<lambda>s. s \<noteq> [] \<and> list_all (\<lambda>c. is_digit c \<or> c = CHR ''.'') s),
     pf_sha1 = (\<lambda>d. toy_mac 20 [d]),
     pf_sha256 = (\<lambda>d. Some (toy_mac 32 [d])),
     pf_hmac_sha256 = (\<lambda>k d. Some (toy_mac 32 [d, k])),
     pf_pbkdf2 = (\<lambda>pw salt i n. Some (toy_mac n [salt, pw])),
     pf_memcmp = (\<lambda>a b n. if take n a = take n b then 0 else 1),
     pf_gcm_seal = (\<lambda>k n a p. Some (p, toy_mac 16 [k, n, a, p])),
     pf_gcm_open = (\<lambda>k n a c t. if t = toy_mac 16 [k, n, a, c] then Some c else None),
     pf_ed25519_sign = (\<lambda>k m. Some (toy_mac 64 [m, k])),
     pf_ed25519_verify = (\<lambda>k m s. s = toy_mac 64 [m, k]),
     pf_x25519 = (\<lambda>k q. Some (toy_mac 32 (if k \<le> q then [k, q] else [q, k])))\<rparr>"

lemma length_toy_mac [simp]: "length (toy_mac n ps) = n"
  by (simp add: toy_mac_def)

lemma toy_laws [simp]:
  "gcm_correct toy_platform" "gcm_authentic toy_platform" "gcm_total toy_platform"
  "hmac_total toy_platform" "memcmp_correct toy_platform" "inet_dotted toy_platform"
  by (auto simp: gcm_correct_def gcm_authentic_def gcm_total_def hmac_total_def memcmp_correct_def
      inet_dotted_def toy_platform_def split: if_splits)

end
