(* ===== verification/Endpoint.thy ===== *)
theory Endpoint
  imports Crypto
begin

text \<open>
  The \<open>Endpoint\<close> of \<open>common/net/net.hpp\<close> and \<open>net.cpp\<close>: an IPv4 address and port, its parser and
  printer.  \<open>inet_pton\<close> reads the address as a C string, up to its first NUL byte; whether it
  accepts it is the platform's \<^const>\<open>pf_inet_pton\<close>.
\<close>

record Endpoint =
  ep_ip :: string
  ep_port :: int

definition toAddress :: "platform \<Rightarrow> Endpoint \<Rightarrow> bool" where
  "toAddress P e =
     (if ep_port e \<le> 0 \<or> ep_port e > 65535 then False else pf_inet_pton P (c_str (ep_ip e)))"

definition Endpoint_parse :: "platform \<Rightarrow> string \<Rightarrow> Endpoint option" where
  "Endpoint_parse P s =
     (let ip = takeWhile (\<lambda>c. c \<noteq> CHR '':'') s; rest = dropWhile (\<lambda>c. c \<noteq> CHR '':'') s in
      if rest = [] \<or> ip = [] \<or> CHR '':'' \<in> set (tl rest) then None
      else case parseU64 (tl rest) of
             None \<Rightarrow> None
           | Some port \<Rightarrow>
               if port = 0 \<or> port > 65535 then None
               else let e = \<lparr>ep_ip = ip, ep_port = uint port\<rparr> in
                 if \<not> toAddress P e then None else Some e)"

definition Endpoint_toString :: "Endpoint \<Rightarrow> string" where
  "Endpoint_toString e = ep_ip e @ '':'' @ to_string_int (ep_port e)"

text \<open>What a parsed endpoint satisfies.\<close>

definition endpoint_ok :: "platform \<Rightarrow> Endpoint \<Rightarrow> bool" where
  "endpoint_ok P e = (ep_ip e \<noteq> [] \<and> CHR '':'' \<notin> set (ep_ip e) \<and>
     1 \<le> ep_port e \<and> ep_port e \<le> 65535 \<and> pf_inet_pton P (c_str (ep_ip e)))"

lemma Endpoint_parse_ok: "Endpoint_parse P s = Some e \<Longrightarrow> endpoint_ok P e"
  by (auto simp: Endpoint_parse_def endpoint_ok_def toAddress_def Let_def
      intro: uint_pos split: if_splits option.splits dest: set_takeWhileD)

lemma Endpoint_parse_ip: "Endpoint_parse P s = Some e \<Longrightarrow> set (ep_ip e) \<subseteq> set s"
  by (auto simp: Endpoint_parse_def Let_def split: if_splits option.splits dest: set_takeWhileD)

lemma Endpoint_parse_toString:
  assumes "endpoint_ok P e"
  shows "Endpoint_parse P (Endpoint_toString e) = Some e"
proof -
  let ?p = "to_string_int (ep_port e)"
  have ip: "takeWhile (\<lambda>c. c \<noteq> CHR '':'') (Endpoint_toString e) = ep_ip e"
           "dropWhile (\<lambda>c. c \<noteq> CHR '':'') (Endpoint_toString e) = CHR '':'' # ?p"
    using assms by (auto simp: Endpoint_toString_def endpoint_ok_def takeWhile_upto dropWhile_upto)
  have port: "parseU64 ?p = Some (word_of_int (ep_port e))" "CHR '':'' \<notin> set ?p"
    using assms by (auto simp: endpoint_ok_def parseU64_to_string_int dest: to_string_int_chars [rotated])
  have "uint (word_of_int (ep_port e) :: u64) = ep_port e"
    using assms by (simp add: endpoint_ok_def uint_word_of_int)
  with assms ip port show ?thesis
    by (cases e)
      (auto simp: Endpoint_parse_def endpoint_ok_def toAddress_def Let_def word_less_alt word_eq_iff_unsigned [of _ 0] )
qed

lemma Endpoint_toString_chars:
  "endpoint_ok P e \<Longrightarrow> c \<in> set (Endpoint_toString e) \<Longrightarrow> c \<in> set (ep_ip e) \<or> is_digit c \<or> c = CHR '':''"
  by (auto simp: Endpoint_toString_def endpoint_ok_def dest: to_string_int_chars [rotated])

text \<open>A NUL-free address accepted by \<open>inet_pton\<close> is dotted decimal.\<close>

lemma endpoint_ip_dotted:
  "inet_dotted P \<Longrightarrow> endpoint_ok P e \<Longrightarrow> NUL \<notin> set (ep_ip e) \<Longrightarrow> c \<in> set (ep_ip e) \<Longrightarrow> is_digit c \<or> c = CHR ''.''"
  by (auto simp: inet_dotted_def endpoint_ok_def list_all_iff)

end
