(* ===== verification/Peer_Ticket.thy ===== *)
theory Peer_Ticket
  imports Endpoint
begin

text \<open>
  \<open>common/peer_ticket.hpp\<close> and \<open>.cpp\<close>: the ticket the tracker issues, its text form, the request
  key derived from it, and the \<open>SeederAccess\<close> triple that the tracker sends to a downloader.
\<close>

section \<open>PeerTicket\<close>

definition LIFETIME_SECONDS :: int where "LIFETIME_SECONDS = 300"

record PeerTicket =
  tk_user :: string
  tk_group :: string
  tk_file :: string
  tk_expires :: int

definition PeerTicket_encode :: "PeerTicket \<Rightarrow> string" where
  "PeerTicket_encode t = toHex (tk_user t) @ ''.'' @ toHex (tk_group t) @ ''.'' @
     toHex (tk_file t) @ ''.'' @ to_string_int (tk_expires t)"

definition PeerTicket_decode :: "string \<Rightarrow> PeerTicket option" where
  "PeerTicket_decode s =
     (case split s CHR ''.'' of
        [f0, f1, f2, f3] \<Rightarrow>
          (case (fromHex f0, fromHex f1, fromHex f2) of
             (Some user, Some grp, Some file) \<Rightarrow>
               if user = [] \<or> grp = [] \<or> file = [] then None
               else (case parseU64 f3 of
                       None \<Rightarrow> None
                     | Some expires \<Rightarrow>
                         if expires > push_bit 62 1 then None
                         else Some \<lparr>tk_user = user, tk_group = grp, tk_file = file,
                                    tk_expires = sint expires\<rparr>)
           | _ \<Rightarrow> None)
      | _ \<Rightarrow> None)"

definition expired :: "PeerTicket \<Rightarrow> int \<Rightarrow> bool" where
  "expired t now = (now \<ge> tk_expires t)"

definition PeerTicket_key :: "platform \<Rightarrow> PeerTicket \<Rightarrow> string \<Rightarrow> string" where
  "PeerTicket_key P t peerKey =
     hmacSha256 P peerKey (''torrent-peer-ticket-v1|'' @ PeerTicket_encode t)"

text \<open>The tickets that can be read back: no empty field, an expiry in \<open>0 .. 2^62\<close>.\<close>

definition ticket_ok :: "PeerTicket \<Rightarrow> bool" where
  "ticket_ok t = (tk_user t \<noteq> [] \<and> tk_group t \<noteq> [] \<and> tk_file t \<noteq> [] \<and>
     0 \<le> tk_expires t \<and> tk_expires t \<le> 2 ^ 62)"

lemma PeerTicket_encode_join:
  "PeerTicket_encode t = join [toHex (tk_user t), toHex (tk_group t), toHex (tk_file t),
     to_string_int (tk_expires t)] CHR ''.''"
  by (simp add: PeerTicket_encode_def)

lemma ticket_fields:
  "0 \<le> tk_expires t \<Longrightarrow> split (PeerTicket_encode t) CHR ''.'' =
     [toHex (tk_user t), toHex (tk_group t), toHex (tk_file t), to_string_int (tk_expires t)]"
  unfolding PeerTicket_encode_join
  by (intro split_join) (auto dest: toHex_chars to_string_int_chars [rotated])

lemma uint_expiry: "0 \<le> i \<Longrightarrow> i \<le> 2 ^ 62 \<Longrightarrow> uint (word_of_int i :: u64) = i"
  by (simp add: uint_word_of_int)

lemma expiry_bound: "(v :: u64) \<le> 4611686018427387904 \<longleftrightarrow> uint v \<le> 2 ^ 62"
  by (simp add: word_le_def)

lemma sint_expiry: "(v :: u64) \<le> 4611686018427387904 \<Longrightarrow> sint v = uint v"
  using order_trans [OF _ uint_ge_0 [of v], of "- (2 ^ 63)"]
  by (simp add: expiry_bound sint_uint signed_take_bit_int_eq_self)

lemma decode_encode_ticket:
  assumes "ticket_ok t"
  shows "PeerTicket_decode (PeerTicket_encode t) = Some t"
proof -
  let ?w = "word_of_int (tk_expires t) :: u64"
  have "uint ?w = tk_expires t"
    using assms by (intro uint_expiry) (simp_all add: ticket_ok_def)
  with assms have "?w \<le> 4611686018427387904" "sint ?w = tk_expires t"
    by (simp_all add: ticket_ok_def expiry_bound sint_expiry)
  moreover have "parseU64 (to_string_int (tk_expires t)) = Some ?w"
    using assms by (intro parseU64_to_string_int) (simp_all add: ticket_ok_def)
  ultimately show ?thesis
    using assms by (cases t) (simp add: PeerTicket_decode_def ticket_fields ticket_ok_def fromHex_toHex)
qed

lemma decode_ticket_ok: "PeerTicket_decode s = Some t \<Longrightarrow> ticket_ok t"
  by (auto simp: PeerTicket_decode_def ticket_ok_def not_less sint_expiry expiry_bound
      split: list.splits option.splits if_splits)

lemma decode_ticket_split:
  assumes "PeerTicket_decode s = Some t"
  shows "\<exists>f0 f1 f2 f3. split s CHR ''.'' = [f0, f1, f2, f3] \<and> fromHex f0 = Some (tk_user t) \<and>
    fromHex f1 = Some (tk_group t) \<and> fromHex f2 = Some (tk_file t) \<and> list_all is_digit f3"
  using assms by (auto simp: PeerTicket_decode_def parseU64_iff split: list.splits option.splits if_splits)

text \<open>A ticket text holds hex digits and dots only, so it fits every enclosing format.\<close>

lemma ticket_chars:
  assumes "PeerTicket_decode s = Some t" "c \<in> set s"
  shows "is_xdigit c \<or> c = CHR ''.''"
proof -
  obtain f0 f1 f2 f3 where f: "split s CHR ''.'' = [f0, f1, f2, f3]"
    "fromHex f0 = Some (tk_user t)" "fromHex f1 = Some (tk_group t)"
    "fromHex f2 = Some (tk_file t)" "list_all is_digit f3"
    using decode_ticket_split [OF assms(1)] by blast
  have "s = join [f0, f1, f2, f3] CHR ''.''"
    using join_split [of s "CHR ''.''"] f(1) by simp
  with assms(2) have "c \<in> set f0 \<or> c \<in> set f1 \<or> c \<in> set f2 \<or> c \<in> set f3 \<or> c = CHR ''.''"
    by auto
  with f show ?thesis
    by (auto simp: list_all_iff is_digit_imp_xdigit dest: fromHex_xdigits)
qed

lemma encode_ticket_chars:
  "ticket_ok t \<Longrightarrow> c \<in> set (PeerTicket_encode t) \<Longrightarrow> is_xdigit c \<or> c = CHR ''.''"
  by (rule ticket_chars [OF decode_encode_ticket])

lemma length_ticket_key:
  "PeerTicket_key P t k \<noteq> [] \<Longrightarrow> length (PeerTicket_key P t k) = 32"
  by (simp add: PeerTicket_key_def length_hmacSha256)

interpretation ticket_bar: field_codec PeerTicket_encode PeerTicket_decode ticket_ok "CHR ''|''"
  by unfold_locales (auto simp: decode_encode_ticket dest: encode_ticket_chars)

section \<open>SeederAccess\<close>

record SeederAccess =
  sa_endpoint :: Endpoint
  sa_ticket :: string
  sa_key :: string

definition SeederAccess_encode :: "SeederAccess \<Rightarrow> string" where
  "SeederAccess_encode a =
     Endpoint_toString (sa_endpoint a) @ ''/'' @ sa_ticket a @ ''/'' @ toHex (sa_key a)"

definition SeederAccess_decode :: "platform \<Rightarrow> string \<Rightarrow> SeederAccess option" where
  "SeederAccess_decode P s =
     (case split s CHR ''/'' of
        [f0, f1, f2] \<Rightarrow>
          (case (Endpoint_parse P f0, PeerTicket_decode f1, fromHex f2) of
             (Some endpoint, Some _, Some key) \<Rightarrow>
               if length key \<noteq> 32 then None
               else Some \<lparr>sa_endpoint = endpoint, sa_ticket = f1, sa_key = key\<rparr>
           | _ \<Rightarrow> None)
      | _ \<Rightarrow> None)"

definition SeederAccess_expires :: "SeederAccess \<Rightarrow> int" where
  "SeederAccess_expires a =
     (case PeerTicket_decode (sa_ticket a) of None \<Rightarrow> 0 | Some t \<Rightarrow> tk_expires t)"

definition access_ok :: "platform \<Rightarrow> SeederAccess \<Rightarrow> bool" where
  "access_ok P a = (endpoint_ok P (sa_endpoint a) \<and> PeerTicket_decode (sa_ticket a) \<noteq> None \<and>
     length (sa_key a) = 32)"

text \<open>An access whose address text is plain: nothing in it can be taken for a separator.\<close>

definition access_plain :: "platform \<Rightarrow> SeederAccess \<Rightarrow> bool" where
  "access_plain P a = (access_ok P a \<and>
     list_all (\<lambda>c. is_digit c \<or> c = CHR ''.'') (ep_ip (sa_endpoint a)))"

lemma decode_access_ok: "SeederAccess_decode P s = Some a \<Longrightarrow> access_ok P a"
  by (auto simp: SeederAccess_decode_def access_ok_def Endpoint_parse_ok
      split: list.splits option.splits if_splits)

lemma SeederAccess_encode_join:
  "SeederAccess_encode a = join [Endpoint_toString (sa_endpoint a), sa_ticket a, toHex (sa_key a)] CHR ''/''"
  by (simp add: SeederAccess_encode_def)

lemma plain_field_chars:
  assumes "access_plain P a" "c \<in> set (SeederAccess_encode a)"
  shows "is_xdigit c \<or> c = CHR ''.'' \<or> c = CHR '':'' \<or> c = CHR ''/''"
proof -
  obtain t where t: "PeerTicket_decode (sa_ticket a) = Some t"
    using assms(1) by (auto simp: access_plain_def access_ok_def)
  have "is_xdigit c \<or> c = CHR ''.'' \<or> c = CHR '':''" if "c \<in> set (Endpoint_toString (sa_endpoint a))"
    using Endpoint_toString_chars [OF _ that, of P] assms(1)
    by (auto simp: access_plain_def access_ok_def list_all_iff intro: is_digit_imp_xdigit)
  with assms show ?thesis
    by (auto simp: SeederAccess_encode_def dest: ticket_chars [OF t] toHex_chars)
qed

lemma decode_encode_access:
  assumes "access_ok P a" "CHR ''/'' \<notin> set (ep_ip (sa_endpoint a))"
  shows "SeederAccess_decode P (SeederAccess_encode a) = Some a"
proof -
  obtain t where t: "PeerTicket_decode (sa_ticket a) = Some t"
    using assms(1) by (auto simp: access_ok_def)
  have "split (SeederAccess_encode a) CHR ''/'' =
      [Endpoint_toString (sa_endpoint a), sa_ticket a, toHex (sa_key a)]"
    unfolding SeederAccess_encode_join using assms
    by (intro split_join)
      (auto simp: access_ok_def dest: ticket_chars [OF t] toHex_chars Endpoint_toString_chars)
  with assms t show ?thesis
    by (simp add: SeederAccess_decode_def access_ok_def Endpoint_parse_toString fromHex_toHex)
qed

interpretation access_list: field_codec SeederAccess_encode "SeederAccess_decode P" "access_plain P" "CHR '',''"
  for P
proof unfold_locales
  fix a
  assume plain: "access_plain P a"
  then have "CHR ''/'' \<notin> set (ep_ip (sa_endpoint a))"
    by (auto simp: access_plain_def list_all_iff)
  with plain show "SeederAccess_decode P (SeederAccess_encode a) = Some a"
    by (simp add: decode_encode_access access_plain_def)
  show "CHR '','' \<notin> set (SeederAccess_encode a)"
    by (auto dest: plain_field_chars [OF plain])
qed

end
