(* ===== verification/Freshness.thy ===== *)
theory Freshness
  imports Encoding
begin

text \<open>
  \<open>common/net/freshness.hpp\<close>: the five-minute window for timestamps.  The code reads the clock
  twice, so both readings are arguments; the comparison with the future bound is unsigned and
  the age is computed on signed 64-bit values.
\<close>

definition WINDOW_SECONDS :: int where "WINDOW_SECONDS = 300"

definition isFreshTimestamp :: "int \<Rightarrow> int \<Rightarrow> string \<Rightarrow> bool" where
  "isFreshTimestamp now1 now2 s =
     (case parseU64 s of
        None \<Rightarrow> False
      | Some v \<Rightarrow>
          if v > word_of_int (now1 + WINDOW_SECONDS) then False
          else now2 - sint v \<le> WINDOW_SECONDS)"

lemma sint_small: "uint (v :: u64) < 2 ^ 63 \<Longrightarrow> sint v = uint v"
  using order_trans [OF _ uint_ge_0 [of v], of "- (2 ^ 63)"]
  by (simp add: sint_uint signed_take_bit_int_eq_self)

lemma uint_of_clock: "0 \<le> i \<Longrightarrow> i < 2 ^ 63 \<Longrightarrow> uint (word_of_int i :: u64) = i"
  by (simp add: uint_word_of_int)

lemma fresh_iff:
  assumes "0 \<le> now1" "now1 + 300 < 2 ^ 63"
  shows "isFreshTimestamp now1 now2 s \<longleftrightarrow>
    (\<exists>v. parseU64 s = Some v \<and> uint v \<le> now1 + 300 \<and> now2 - uint v \<le> 300)"
proof -
  have le: "v \<le> word_of_int now1 + 300 \<longleftrightarrow> uint v \<le> now1 + 300" for v :: u64
    using assms uint_of_clock [of "now1 + 300"] by (simp add: word_le_def)
  have "sint v = uint v" if "uint v \<le> now1 + 300" for v :: u64
    using that assms by (intro sint_small) simp
  then show ?thesis
    by (auto simp: isFreshTimestamp_def WINDOW_SECONDS_def le not_less split: option.splits)
qed

text \<open>A clock value written by a machine whose clock is within the window is fresh.\<close>

lemma fresh_own_clock:
  assumes "0 \<le> t" "0 \<le> now1" "now1 + 300 < 2 ^ 63" "t \<le> now1 + 300" "now2 \<le> t + 300"
  shows "isFreshTimestamp now1 now2 (to_string_int t)"
proof -
  have "parseU64 (to_string_int t) = Some (word_of_int t)"
    using assms by (intro parseU64_to_string_int) simp_all
  moreover have "uint (word_of_int t :: u64) = t"
    using assms by (intro uint_of_clock) simp_all
  ultimately show ?thesis
    using assms by (simp add: fresh_iff)
qed

end
