(* ===== verification/Frames.thy ===== *)
theory Frames
  imports Encoding
begin

text \<open>
  The framing of \<open>common/net/net.cpp\<close>: \<open>sendAll\<close>, \<open>receiveAll\<close>, \<open>sendFrame\<close>, \<open>receiveFrame\<close>.  A
  socket is what the kernel answers to the next \<open>send\<close> or \<open>recv\<close> calls, a script of events: a
  count of bytes moved (0 is an orderly shutdown), an interrupted call, or an error; a script
  that has run out is a call that timed out.  The kernel never moves more bytes than asked, or
  than have arrived.  A proof about every script is a proof about every way the network can
  cut a message up.
\<close>

datatype io_event = Io_count nat | Io_eintr | Io_fail

definition MAX_FRAME :: int where "MAX_FRAME = 16 * 1024 * 1024"

text \<open>\<open>(ok, bytes put on the wire, rest of the script)\<close>.\<close>

fun sendAll :: "io_event list \<Rightarrow> string \<Rightarrow> bool \<times> string \<times> io_event list" where
  "sendAll evs [] = (True, [], evs)"
| "sendAll [] data = (False, [], [])"
| "sendAll (Io_eintr # evs) data = sendAll evs data"
| "sendAll (Io_fail # evs) data = (False, [], evs)"
| "sendAll (Io_count n # evs) data =
     (if n = 0 then (False, [], evs)
      else let (ok, sent, evs') = sendAll evs (drop n data) in (ok, take n data @ sent, evs'))"

text \<open>\<open>(the bytes read if all arrived, rest of the incoming bytes, rest of the script)\<close>.\<close>

fun receiveAll :: "io_event list \<Rightarrow> string \<Rightarrow> nat \<Rightarrow> string option \<times> string \<times> io_event list" where
  "receiveAll evs input 0 = (Some [], input, evs)"
| "receiveAll [] input (Suc len) = (None, input, [])"
| "receiveAll (Io_eintr # evs) input (Suc len) = receiveAll evs input (Suc len)"
| "receiveAll (Io_fail # evs) input (Suc len) = (None, input, evs)"
| "receiveAll (Io_count n # evs) input (Suc len) =
     (let count = min n (min (Suc len) (length input)) in
      if count = 0 then (None, input, evs)
      else let (got, rest, evs') = receiveAll evs (drop count input) (Suc len - count) in
        (map_option ((@) (take count input)) got, rest, evs'))"

text \<open>\<open>htonl\<close> and \<open>ntohl\<close> on the four bytes of a length.\<close>

definition be32 :: "int \<Rightarrow> string" where
  "be32 n = [char_of (n div 16777216), char_of (n div 65536), char_of (n div 256), char_of n]"

definition be32_value :: "string \<Rightarrow> int" where
  "be32_value s = foldl (\<lambda>v c. 256 * v + of_char c) 0 s"

definition sendFrame :: "io_event list \<Rightarrow> string \<Rightarrow> bool \<times> string \<times> io_event list" where
  "sendFrame evs payload =
     (if int (length payload) > MAX_FRAME then (False, [], evs)
      else let (ok1, sent1, evs1) = sendAll evs (be32 (int (length payload))) in
        if \<not> ok1 then (False, sent1, evs1)
        else let (ok2, sent2, evs2) = sendAll evs1 payload in (ok2, sent1 @ sent2, evs2))"

definition receiveFrame :: "io_event list \<Rightarrow> string \<Rightarrow> string option \<times> string \<times> io_event list" where
  "receiveFrame evs input =
     (case receiveAll evs input 4 of
        (None, rest, evs1) \<Rightarrow> (None, rest, evs1)
      | (Some prefix, rest, evs1) \<Rightarrow>
          let len = be32_value prefix in
          if len > MAX_FRAME then (None, rest, evs1) else receiveAll evs1 rest (nat len))"

section \<open>The loops\<close>

lemma length_be32 [simp]: "length (be32 n) = 4"
  by (simp add: be32_def)

lemma be32_value_be32:
  assumes n: "0 \<le> n" "n < 4294967296"
  shows "be32_value (be32 n) = n"
proof -
  define a b c where "a = n div 256" and "b = a div 256" and "c = b div 256"
  then have divs: "n div 65536 = b" "n div 16777216 = c"
    by (simp_all flip: zdiv_zmult2_eq)
  have "0 \<le> c" "c < 256"
    unfolding divs(2) [symmetric] using n by linarith+
  have "be32_value (be32 n) = ((c mod 256 * 256 + b mod 256) * 256 + a mod 256) * 256 + n mod 256"
    by (simp add: be32_value_def be32_def divs algebra_simps flip: a_def)
  also have "\<dots> = n"
    using \<open>0 \<le> c\<close> \<open>c < 256\<close> unfolding c_def b_def a_def by simp
  finally show ?thesis .
qed

lemma sendAll_sent: "sendAll evs data = (ok, sent, evs') \<Longrightarrow> \<exists>rest. data = sent @ rest \<and> (ok \<longleftrightarrow> rest = [])"
proof (induction evs data arbitrary: ok sent evs' rule: sendAll.induct)
  case (5 n evs c data)
  show ?case
  proof (cases "n = 0")
    case False
    obtain ok1 sent1 evs1 where step: "sendAll evs (drop n (c # data)) = (ok1, sent1, evs1)"
      by (cases "sendAll evs (drop n (c # data))")
    from "5.IH" [OF False step] obtain rest
      where "drop n (c # data) = sent1 @ rest" "ok1 \<longleftrightarrow> rest = []" by blast
    moreover from this have "c # data = (take n (c # data) @ sent1) @ rest"
      by (metis append_assoc append_take_drop_id)
    moreover have "ok = ok1" "sent = take n (c # data) @ sent1"
      using "5.prems" False step by (auto simp: Let_def)
    ultimately show ?thesis by blast
  qed (use "5.prems" in auto)
qed auto

lemma sendFrame_wire:
  "sendFrame evs payload = (True, sent, evs') \<Longrightarrow>
     int (length payload) \<le> MAX_FRAME \<and> sent = be32 (int (length payload)) @ payload"
  by (auto simp: sendFrame_def Let_def split: if_splits prod.splits dest!: sendAll_sent)

lemma receiveAll_Some:
  "receiveAll evs input len = (Some got, rest, evs') \<Longrightarrow> length got = len \<and> input = got @ rest"
proof (induction evs input len arbitrary: got rest evs' rule: receiveAll.induct)
  case (5 n evs input len)
  define count where "count = min n (min (Suc len) (length input))"
  with "5.prems" have pos: "count \<noteq> 0" and le: "count \<le> Suc len" "count \<le> length input"
    by (auto simp: Let_def split: if_splits)
  obtain got1 rest1 evs1 where step: "receiveAll evs (drop count input) (Suc len - count) = (got1, rest1, evs1)"
    by (cases "receiveAll evs (drop count input) (Suc len - count)")
  with "5.prems" pos obtain g where g: "got1 = Some g" "got = take count input @ g" "rest = rest1"
    by (auto simp: Let_def simp flip: count_def)
  from "5.IH" [OF count_def pos] step g have "length g = Suc len - count" "drop count input = g @ rest1"
    by auto
  with g le show ?case
    by simp (metis append_take_drop_id)
qed auto

lemma receiveAll_rest: "receiveAll evs input len = (got, rest, evs') \<Longrightarrow> \<exists>p. input = p @ rest"
proof (induction evs input len arbitrary: got rest evs' rule: receiveAll.induct)
  case (5 n evs input len)
  define count where "count = min n (min (Suc len) (length input))"
  show ?case
  proof (cases "count = 0")
    case True
    with "5.prems" show ?thesis by (auto simp: Let_def simp flip: count_def)
  next
    case False
    obtain got1 rest1 evs1 where step: "receiveAll evs (drop count input) (Suc len - count) = (got1, rest1, evs1)"
      by (cases "receiveAll evs (drop count input) (Suc len - count)")
    with "5.prems" False have "rest = rest1"
      by (auto simp: Let_def simp flip: count_def)
    with "5.IH" [OF count_def False] step obtain p where "drop count input = p @ rest"
      by auto
    then have "input = (take count input @ p) @ rest"
      by (metis append_assoc append_take_drop_id)
    then show ?thesis by blast
  qed
qed auto

text \<open>A script that never fails and moves enough bytes: the network delivers, in any portions.\<close>

fun delivers :: "io_event list \<Rightarrow> nat \<Rightarrow> bool" where
  "delivers evs 0 = True"
| "delivers [] (Suc n) = False"
| "delivers (Io_eintr # evs) (Suc n) = delivers evs (Suc n)"
| "delivers (Io_fail # evs) (Suc n) = False"
| "delivers (Io_count k # evs) (Suc n) = (k \<noteq> 0 \<and> delivers evs (Suc n - min k (Suc n)))"

lemma receiveAll_delivers:
  "delivers evs len \<Longrightarrow> len \<le> length input \<Longrightarrow>
     \<exists>evs'. receiveAll evs input len = (Some (take len input), drop len input, evs')"
proof (induction evs len arbitrary: input rule: delivers.induct)
  case (5 k evs n)
  define count where "count = min k (min (Suc n) (length input))"
  from "5.prems" have count: "count = min k (Suc n)" "count \<noteq> 0" "count \<le> Suc n"
    by (auto simp: count_def)
  with "5.prems" have "delivers evs (Suc n - count)" "Suc n - count \<le> length (drop count input)"
    by auto
  with "5.IH" count(1) obtain evs' where
    "receiveAll evs (drop count input) (Suc n - count) =
       (Some (take (Suc n - count) (drop count input)), drop (Suc n - count) (drop count input), evs')"
    by fastforce
  moreover have "take count input @ take (Suc n - count) (drop count input) = take (Suc n) input"
    using count(3) by (metis le_add_diff_inverse take_add)
  moreover have "drop (Suc n - count) (drop count input) = drop (Suc n) input"
    using count(3) by simp
  ultimately show ?case
    using count(2) by (simp add: Let_def flip: count_def)
qed auto

text \<open>Sending in any portions and receiving in any other portions moves the frame unchanged.\<close>

lemma receiveFrame_sent:
  assumes "sendFrame evs payload = (True, wire, evs1)"
    and "receiveFrame evs2 (wire @ more) = (Some got, rest, evs3)"
  shows "got = payload \<and> rest = more"
proof -
  have wire: "wire = be32 (int (length payload)) @ payload" "int (length payload) \<le> MAX_FRAME"
    using sendFrame_wire [OF assms(1)] by simp_all
  from assms(2) obtain prefix rest1 evs' where
    first: "receiveAll evs2 (wire @ more) 4 = (Some prefix, rest1, evs')"
    and body: "receiveAll evs' rest1 (nat (be32_value prefix)) = (Some got, rest, evs3)"
    by (auto simp: receiveFrame_def Let_def split: prod.splits option.splits if_splits)
  from receiveAll_Some [OF first] wire have "prefix = be32 (int (length payload))" "rest1 = payload @ more"
    by auto
  moreover have "be32_value (be32 (int (length payload))) = int (length payload)"
    using wire(2) by (intro be32_value_be32) (simp_all add: MAX_FRAME_def)
  ultimately show ?thesis
    using receiveAll_Some [OF body] by simp
qed

lemma receiveFrame_delivered:
  assumes "int (length payload) \<le> MAX_FRAME" "delivers evs 4"
    and "\<And>evs'. receiveAll evs (be32 (int (length payload)) @ payload @ more) 4 =
        (Some (be32 (int (length payload))), payload @ more, evs') \<Longrightarrow> delivers evs' (length payload)"
  shows "\<exists>evs'. receiveFrame evs (be32 (int (length payload)) @ payload @ more) = (Some payload, more, evs')"
proof -
  let ?input = "be32 (int (length payload)) @ payload @ more"
  obtain evs1 where first: "receiveAll evs ?input 4 = (Some (be32 (int (length payload))), payload @ more, evs1)"
    using receiveAll_delivers [OF assms(2), of ?input] by auto
  moreover from receiveAll_delivers [OF assms(3) [OF first], of "payload @ more"] obtain evs2 where
    "receiveAll evs1 (payload @ more) (length payload) = (Some payload, more, evs2)"
    by auto
  moreover have "be32_value (be32 (int (length payload))) = int (length payload)"
    using assms(1) by (intro be32_value_be32) (simp_all add: MAX_FRAME_def)
  ultimately show ?thesis
    using assms(1) by (simp add: receiveFrame_def)
qed

text \<open>No frame makes the receiver hold more than \<open>MAX_FRAME\<close> bytes.\<close>

lemma receiveFrame_bound: "receiveFrame evs input = (Some got, rest, evs') \<Longrightarrow> int (length got) \<le> MAX_FRAME"
  by (auto simp: receiveFrame_def Let_def MAX_FRAME_def split: prod.splits option.splits if_splits dest!: receiveAll_Some)

section \<open>A socket\<close>

text \<open>
  A connected socket: the kernel's answers to its next \<open>send\<close> and \<open>recv\<close> calls, the bytes that will
  arrive, and the bytes written so far.  What arrives is whatever the network delivers: nothing
  below assumes who sent it.
\<close>

record Socket =
  so_sends :: "io_event list"
  so_recvs :: "io_event list"
  so_in :: string
  so_out :: string

definition Socket_sendFrame :: "Socket \<Rightarrow> string \<Rightarrow> bool \<times> Socket" where
  "Socket_sendFrame s payload =
     (let (ok, sent, evs) = sendFrame (so_sends s) payload in
      (ok, s\<lparr>so_sends := evs, so_out := so_out s @ sent\<rparr>))"

definition Socket_receiveFrame :: "Socket \<Rightarrow> string option \<times> Socket" where
  "Socket_receiveFrame s =
     (let (got, rest, evs) = receiveFrame (so_recvs s) (so_in s) in
      (got, s\<lparr>so_recvs := evs, so_in := rest\<rparr>))"

definition frame_bytes :: "string \<Rightarrow> string" where
  "frame_bytes payload = be32 (int (length payload)) @ payload"

lemma Socket_sendFrame_True:
  "Socket_sendFrame s payload = (True, s') \<Longrightarrow>
     so_out s' = so_out s @ frame_bytes payload \<and> so_in s' = so_in s \<and> so_recvs s' = so_recvs s \<and>
     int (length payload) \<le> MAX_FRAME"
  by (auto simp: Socket_sendFrame_def frame_bytes_def split: prod.splits dest: sendFrame_wire)

lemma Socket_receiveFrame_keeps [simp]:
  "Socket_receiveFrame s = (got, s') \<Longrightarrow> so_out s' = so_out s"
  by (auto simp: Socket_receiveFrame_def split: prod.splits)

lemma Socket_receiveFrame_sent:
  assumes "so_in s = frame_bytes payload @ rest" "int (length payload) \<le> MAX_FRAME"
    and "Socket_receiveFrame s = (Some got, s')"
  shows "got = payload \<and> so_in s' = rest"
proof -
  let ?n = "length payload"
  have "sendFrame [Io_count 4, Io_count ?n] payload = (True, frame_bytes payload, []) \<or>
        sendFrame [Io_count 4] payload = (True, frame_bytes payload, [])"
    using assms(2) by (cases payload) (simp_all add: sendFrame_def frame_bytes_def be32_def)
  with assms(1,3) receiveFrame_sent show ?thesis
    by (fastforce simp: Socket_receiveFrame_def split: prod.splits)
qed

text \<open>A frame that was not sent whole is not received.\<close>

lemma Socket_sendFrame_False:
  assumes "Socket_sendFrame s payload = (False, s')"
  shows "\<exists>w x. so_out s' = so_out s @ w \<and> so_in s' = so_in s \<and>
    (w = [] \<or> frame_bytes payload = w @ x \<and> x \<noteq> [] \<and> int (length payload) \<le> MAX_FRAME)"
proof -
  obtain sent evs where "sendFrame (so_sends s) payload = (False, sent, evs)"
      "so_out s' = so_out s @ sent" "so_in s' = so_in s"
    using assms by (auto simp: Socket_sendFrame_def split: prod.splits)
  moreover from this(1) have "sent = [] \<or> (\<exists>x. frame_bytes payload = sent @ x \<and> x \<noteq> [] \<and> int (length payload) \<le> MAX_FRAME)"
    by (auto simp: sendFrame_def frame_bytes_def Let_def split: if_splits prod.splits dest!: sendAll_sent)
  ultimately show ?thesis by blast
qed

lemma Socket_receiveFrame_Some:
  assumes "Socket_receiveFrame s = (Some got, s')"
  shows "\<exists>pre. length pre = 4 \<and> so_in s = pre @ got @ so_in s' \<and> int (length got) = max 0 (be32_value pre)"
proof -
  obtain pre rest evs evs' where "receiveAll (so_recvs s) (so_in s) 4 = (Some pre, rest, evs)"
      "receiveAll evs rest (nat (be32_value pre)) = (Some got, so_in s', evs')"
    using assms by (auto simp: Socket_receiveFrame_def receiveFrame_def Let_def split: prod.splits option.splits if_splits)
  from receiveAll_Some [OF this(1)] receiveAll_Some [OF this(2)] show ?thesis
    by (intro exI [of _ pre]) simp
qed

lemma Socket_receiveFrame_part:
  assumes "frame_bytes payload = so_in s @ x" "int (length payload) \<le> MAX_FRAME" "Socket_receiveFrame s = (Some got, s')"
  shows "x = []"
proof -
  obtain pre where pre: "length pre = 4" "so_in s = pre @ got @ so_in s'" "int (length got) = max 0 (be32_value pre)"
    using Socket_receiveFrame_Some [OF assms(3)] by blast
  have "be32 (int (length payload)) @ payload = pre @ got @ so_in s' @ x"
    using assms(1) pre(2) by (simp add: frame_bytes_def)
  then have "be32 (int (length payload)) = pre" "payload = got @ so_in s' @ x"
    using pre(1) append_eq_append_conv [of "be32 (int (length payload))" pre payload "got @ so_in s' @ x"]
    by (metis length_be32)+
  moreover have "be32_value (be32 (int (length payload))) = int (length payload)"
    using assms(2) by (intro be32_value_be32) (simp_all add: MAX_FRAME_def)
  ultimately have "length got = length payload"
    using pre(3) by (metis max.absorb2 of_nat_0_le_iff of_nat_eq_iff)
  with \<open>payload = got @ so_in s' @ x\<close> show ?thesis
    by (metis append_is_Nil_conv append_self_conv length_0_conv length_append add_cancel_right_right)
qed

lemma Socket_receiveFrame_empty: "so_in s = [] \<Longrightarrow> Socket_receiveFrame s \<noteq> (Some got, s')"
  using Socket_receiveFrame_Some [of s got s'] by auto

end
