(* ===== verification/Peer_Protocol.thy ===== *)
theory Peer_Protocol
  imports Peer_Ticket Freshness Frames
begin

text \<open>
  \<open>client/peer/peer_protocol.cpp\<close>: the encrypted request a downloader sends to a seeder and the
  encrypted reply, both bound to the ticket, the reply also to the request's nonce.
\<close>

definition REQUEST :: string where "REQUEST = ''21''"
definition REPLY :: string where "REPLY = ''30''"
definition ERROR :: string where "ERROR = ''60''"
definition DENIED :: string where "DENIED = ERROR @ ''|denied''"
definition UNAVAILABLE :: string where "UNAVAILABLE = ERROR @ ''|unavailable''"

definition requestAad :: "string \<Rightarrow> string" where
  "requestAad ticket = REQUEST @ ''|'' @ ticket"

definition replyAad :: "string \<Rightarrow> string \<Rightarrow> string" where
  "replyAad aad hexRequestNonce = REPLY @ ''|'' @ aad @ ''|'' @ hexRequestNonce"

definition peer_encode :: "string \<Rightarrow> AesGcmMessage \<Rightarrow> string" where
  "peer_encode prefix message =
     prefix @ ''|'' @ toHex (gm_nonce message) @ ''|'' @ toHex (gm_ciphertext message) @ ''|'' @ toHex (gm_tag message)"

definition peer_decode :: "string list \<Rightarrow> nat \<Rightarrow> AesGcmMessage option" where
  "peer_decode parts first =
     (if length parts < first + 3 then None
      else case (fromHex (parts ! first), fromHex (parts ! (first + 1)), fromHex (parts ! (first + 2))) of
        (Some nonce, Some ciphertext, Some tag) \<Rightarrow>
          Some \<lparr>gm_nonce = nonce, gm_ciphertext = ciphertext, gm_tag = tag\<rparr>
      | _ \<Rightarrow> None)"

definition requestPlain :: "string \<Rightarrow> u64 \<Rightarrow> int \<Rightarrow> string" where
  "requestPlain operation piece now = operation @ [NL] @ to_string_u64 piece @ [NL] @ to_string_int now"

definition makeRequest ::
  "platform \<Rightarrow> entropy \<Rightarrow> int \<Rightarrow> string \<Rightarrow> string \<Rightarrow> string \<Rightarrow> u64 \<Rightarrow> (string \<times> string) option" where
  "makeRequest P r now ticket key operation piece =
     (let aad = requestAad ticket; plain = requestPlain operation piece now in
      case encrypt P r key aad plain of
        None \<Rightarrow> None
      | Some message \<Rightarrow> Some (peer_encode aad message, gm_nonce message))"

definition openReply :: "platform \<Rightarrow> string \<Rightarrow> string \<Rightarrow> string \<Rightarrow> string \<Rightarrow> string option" where
  "openReply P ticket key nonce frame =
     (let parts = split frame CHR ''|'' in
      if length parts \<noteq> 4 \<or> parts ! 0 \<noteq> REPLY then None
      else case peer_decode parts 1 of
        None \<Rightarrow> None
      | Some message \<Rightarrow> decrypt P key (replyAad (requestAad ticket) (toHex nonce)) message)"

lemmas protocol_constants = REQUEST_def REPLY_def ERROR_def DENIED_def UNAVAILABLE_def

section \<open>The frames\<close>

lemma bar_not_in_hex [simp]: "CHR ''|'' \<notin> set (toHex x)"
  by (auto dest: toHex_chars)

lemma split_peer_encode:
  "split (peer_encode prefix m) CHR ''|'' =
     split prefix CHR ''|'' @ [toHex (gm_nonce m), toHex (gm_ciphertext m), toHex (gm_tag m)]"
proof -
  have "peer_encode prefix m = prefix @ CHR ''|'' # (toHex (gm_nonce m) @ CHR ''|'' #
      (toHex (gm_ciphertext m) @ CHR ''|'' # toHex (gm_tag m)))"
    by (simp add: peer_encode_def)
  then show ?thesis
    by (simp add: split_append split_at_delim split_no_delim)
qed

lemma peer_decode_encode:
  assumes "length (split prefix CHR ''|'') = first"
  shows "peer_decode (split (peer_encode prefix m) CHR ''|'') first = Some m"
  using assms unfolding split_peer_encode
  by (cases m) (simp add: peer_decode_def nth_append fromHex_toHex)

lemma bar_not_in_ticket: "PeerTicket_decode s = Some t \<Longrightarrow> CHR ''|'' \<notin> set s"
  by (auto dest: ticket_chars)

lemma split_requestAad:
  "PeerTicket_decode s = Some t \<Longrightarrow> split (requestAad s) CHR ''|'' = [REQUEST, s]"
  using split_at_delim [of "CHR ''|''" REQUEST s]
  by (simp add: requestAad_def split_no_delim bar_not_in_ticket REQUEST_def)

lemma split_reply: "split (peer_encode REPLY m) CHR ''|'' = [REPLY, toHex (gm_nonce m), toHex (gm_ciphertext m), toHex (gm_tag m)]"
  by (simp add: split_peer_encode split_no_delim REPLY_def)

text \<open>A reply sealed under the ticket's key for this request opens; what opens was sealed for it.\<close>

lemma openReply_sealed:
  assumes "gcm_correct P" "encrypt P r key (replyAad (requestAad ticket) (toHex nonce)) plain = Some m"
  shows "openReply P ticket key nonce (peer_encode REPLY m) = Some plain"
proof -
  have "peer_decode (split (peer_encode REPLY m) CHR ''|'') 1 = Some m"
    by (rule peer_decode_encode) (simp add: split_no_delim REPLY_def)
  then show ?thesis
    using decrypt_encrypt [OF assms] by (simp add: openReply_def split_reply)
qed

lemma openReply_error [simp]: "openReply P ticket key nonce DENIED = None" "openReply P ticket key nonce UNAVAILABLE = None"
proof -
  have "split DENIED CHR ''|'' = [ERROR, ''denied'']" "split UNAVAILABLE CHR ''|'' = [ERROR, ''unavailable'']"
    by code_simp+
  then show "openReply P ticket key nonce DENIED = None" "openReply P ticket key nonce UNAVAILABLE = None"
    by (simp_all add: openReply_def)
qed

lemma newline_not_in_decimal:
  "NL \<notin> set (to_string_u64 n)" "0 \<le> i \<Longrightarrow> NL \<notin> set (to_string_int i)"
  by (auto dest: to_string_u64_chars to_string_int_chars [rotated])

lemma split_requestPlain:
  assumes "NL \<notin> set operation" "0 \<le> now"
  shows "split (requestPlain operation piece now) NL = [operation, to_string_u64 piece, to_string_int now]"
  using assms newline_not_in_decimal by (simp add: requestPlain_def split_at_delim split_no_delim)

end
