(* ===== verification/Std_Map.thy ===== *)
theory Std_Map
  imports Prelude
begin

text \<open>
  \<open>std::map\<close> and \<open>std::set\<close>: containers iterated in key order.  A map is an association list
  with strictly increasing keys, a set a strictly increasing list; \<open>std::string\<close> keys compare
  bytewise (the orders of \<open>List_Lexorder\<close> and \<open>Char_ord\<close>), which is the
  order in which the tracker's listings come out.  The interface the components use is a
  locale, interpreted on this representation.
\<close>

section \<open>The interface of an ordered map\<close>

locale ordered_map =
  fixes find :: "'m \<Rightarrow> 'k :: linorder \<Rightarrow> 'v option"
    and insert :: "'k \<Rightarrow> 'v \<Rightarrow> 'm \<Rightarrow> 'm"
    and erase :: "'k \<Rightarrow> 'm \<Rightarrow> 'm"
    and keys :: "'m \<Rightarrow> 'k list"
    and ok :: "'m \<Rightarrow> bool"
  assumes find_insert: "find (insert k v m) = (find m)(k \<mapsto> v)"
    and find_erase: "find (erase k m) = (find m)(k := None)"
    and ok_insert: "ok m \<Longrightarrow> ok (insert k v m)"
    and ok_erase: "ok m \<Longrightarrow> ok (erase k m)"
    and sorted_keys: "ok m \<Longrightarrow> sorted_wrt (<) (keys m)"
    and set_keys: "set (keys m) = {k. find m k \<noteq> None}"
begin

lemma find_insert_same: "find (insert k v m) k = Some v"
  by (simp add: find_insert)

lemma find_insert_other: "k' \<noteq> k \<Longrightarrow> find (insert k v m) k' = find m k'"
  by (simp add: find_insert)

lemma find_erase_same: "find (erase k m) k = None"
  by (simp add: find_erase)

lemma find_erase_other: "k' \<noteq> k \<Longrightarrow> find (erase k m) k' = find m k'"
  by (simp add: find_erase)

lemma set_keys_insert: "set (keys (insert k v m)) = {k} \<union> set (keys m)"
  by (auto simp: set_keys find_insert)

lemma set_keys_erase: "set (keys (erase k m)) = set (keys m) - {k}"
  by (auto simp: set_keys find_erase)

text \<open>The listing of a map depends only on which keys it holds.\<close>

lemma keys_unique:
  assumes "ok m" "ok m'" "\<And>k. (find m k = None) = (find m' k = None)"
  shows "keys m = keys m'"
proof -
  have "set (keys m) = set (keys m')"
    using assms(3) by (simp add: set_keys)
  with sorted_keys [OF assms(1)] sorted_keys [OF assms(2)] show ?thesis
    by (simp add: strict_sorted_equal)
qed

lemma keys_insert_present:
  assumes "ok m" "find m k \<noteq> None"
  shows "keys (insert k v m) = keys m"
  using assms by (intro keys_unique ok_insert) (auto simp: find_insert)

end

section \<open>std::map as a sorted association list\<close>

type_synonym ('k, 'v) omap = "('k \<times> 'v) list"

definition om_find :: "('k, 'v) omap \<Rightarrow> 'k \<Rightarrow> 'v option" where
  "om_find m k = map_of m k"

fun om_insert :: "'k :: linorder \<Rightarrow> 'v \<Rightarrow> ('k, 'v) omap \<Rightarrow> ('k, 'v) omap" where
  "om_insert k v [] = [(k, v)]"
| "om_insert k v ((k', v') # m) =
     (if k < k' then (k, v) # (k', v') # m
      else if k = k' then (k, v) # m
      else (k', v') # om_insert k v m)"

definition om_erase :: "'k \<Rightarrow> ('k, 'v) omap \<Rightarrow> ('k, 'v) omap" where
  "om_erase k m = filter (\<lambda>(k', v'). k' \<noteq> k) m"

definition om_keys :: "('k, 'v) omap \<Rightarrow> 'k list" where
  "om_keys m = map fst m"

definition om_ok :: "('k :: linorder, 'v) omap \<Rightarrow> bool" where
  "om_ok m = sorted_wrt (<) (map fst m)"

lemma om_find_Nil [simp]: "om_find [] k = None"
  by (simp add: om_find_def)

lemma om_find_Cons: "om_find ((k', v) # m) k = (if k' = k then Some v else om_find m k)"
  by (simp add: om_find_def)

lemma om_ok_Nil [simp]: "om_ok []"
  by (simp add: om_ok_def)

lemma om_find_insert: "om_find (om_insert k v m) = (om_find m)(k \<mapsto> v)"
  by (induction k v m rule: om_insert.induct) (auto simp: om_find_def fun_eq_iff)

lemma om_find_erase: "om_find (om_erase k m) = (om_find m)(k := None)"
  by (induction m) (auto simp: om_find_def om_erase_def fun_eq_iff)

lemma set_om_insert_keys: "fst ` set (om_insert k v m) = insert k (fst ` set m)"
  by (induction k v m rule: om_insert.induct) auto

lemma om_ok_insert: "om_ok m \<Longrightarrow> om_ok (om_insert k v m)"
proof (induction k v m rule: om_insert.induct)
  case (2 k v k' v' m)
  then have "\<forall>x \<in> fst ` set (om_insert k v m). k' < x" if "\<not> k < k'" "k \<noteq> k'"
    using that by (auto simp: set_om_insert_keys om_ok_def)
  with 2 show ?case by (auto simp: om_ok_def)
qed (simp add: om_ok_def)

lemma om_ok_filter: "om_ok m \<Longrightarrow> om_ok (filter P m)"
  by (induction m) (auto simp: om_ok_def)

lemma om_ok_erase: "om_ok m \<Longrightarrow> om_ok (om_erase k m)"
  by (simp add: om_erase_def om_ok_filter)

lemma set_om_keys: "set (om_keys m) = {k. om_find m k \<noteq> None}"
  by (force simp: om_keys_def om_find_def map_of_eq_None_iff)

lemma om_ok_keys: "om_ok m \<Longrightarrow> sorted_wrt (<) (om_keys m)"
  by (simp add: om_ok_def om_keys_def)

interpretation om: ordered_map om_find om_insert om_erase om_keys om_ok
  by unfold_locales
    (auto simp: om_find_insert om_find_erase om_ok_insert om_ok_erase set_om_keys om_ok_keys)

text \<open>Facts that hold of this representation only.\<close>

lemma om_ok_Cons [simp]: "om_ok ((k, v) # m) \<longleftrightarrow> (\<forall>x \<in> set m. k < fst x) \<and> om_ok m"
  by (auto simp: om_ok_def)

lemma om_ok_distinct: "om_ok m \<Longrightarrow> distinct (map fst m)"
  by (simp add: om_ok_def strict_sorted_iff)

lemma om_find_SomeD: "om_find m k = Some v \<Longrightarrow> (k, v) \<in> set m"
  by (simp add: om_find_def map_of_SomeD)

lemma om_mem_find: "om_ok m \<Longrightarrow> (k, v) \<in> set m \<longleftrightarrow> om_find m k = Some v"
  using om_ok_distinct [of m] by (auto simp: om_find_def)

lemma om_insert_same:
  assumes "om_ok m" "om_find m k = Some v"
  shows "om_insert k v m = m"
  using assms
proof (induction k v m rule: om_insert.induct)
  case (2 k v k' v' m)
  then have "k = k' \<or> (k, v) \<in> set m"
    by (auto simp: om_find_Cons dest: om_find_SomeD split: if_splits)
  with 2 show ?case by (force simp: om_find_Cons split: if_splits)
qed simp

lemma om_erase_absent: "om_find m k = None \<Longrightarrow> om_erase k m = m"
  by (force simp: om_find_def om_erase_def map_of_eq_None_iff intro: filter_True)

lemma om_erase_NilD: "om_erase k m = [] \<Longrightarrow> om_find m k' = Some v \<Longrightarrow> k' = k"
  using om_find_erase [of k m] by (auto simp: fun_eq_iff split: if_splits)

lemma om_eqI:
  assumes ok: "om_ok m" "om_ok m'" and eq: "om_find m = om_find m'"
  shows "m = m'"
proof (rule map_sorted_distinct_set_unique)
  have sets: "set m = set m'"
    using ok eq by (auto simp: om_mem_find)
  with om_ok_distinct [OF ok(1)] show "inj_on fst (set m \<union> set m')"
    by (simp add: distinct_map)
  from sets show "set m = set m'" .
qed (use ok in \<open>auto simp: om_ok_def strict_sorted_iff\<close>)

section \<open>Mapping over and filtering the values of a map\<close>

text \<open>Iteration \<open>for (auto &x : m)\<close> that rewrites each mapped value in place.\<close>

definition om_map :: "('v \<Rightarrow> 'w) \<Rightarrow> ('k, 'v) omap \<Rightarrow> ('k, 'w) omap" where
  "om_map f m = map (\<lambda>(k, v). (k, f v)) m"

lemma om_find_map [simp]: "om_find (om_map f m) k = map_option f (om_find m k)"
  by (induction m) (auto simp: om_map_def om_find_def)

lemma om_ok_map [simp]: "om_ok (om_map f m) = om_ok m"
  by (simp add: om_ok_def om_map_def case_prod_beta comp_def)

text \<open>Iteration that erases the entries whose value fails a test.\<close>

definition om_filter :: "('v \<Rightarrow> bool) \<Rightarrow> ('k, 'v) omap \<Rightarrow> ('k, 'v) omap" where
  "om_filter P m = filter (\<lambda>(k, v). P v) m"

lemma om_ok_om_filter: "om_ok m \<Longrightarrow> om_ok (om_filter P m)"
  by (simp add: om_filter_def om_ok_filter)

lemma om_find_filter:
  "om_ok m \<Longrightarrow> om_find (om_filter P m) k =
     (case om_find m k of None \<Rightarrow> None | Some v \<Rightarrow> if P v then Some v else None)"
proof (induction m)
  case (Cons x m)
  obtain k' v' where x: "x = (k', v')" by (cases x)
  from Cons.prems have "om_find m k' = None"
    by (force simp: x om_find_def map_of_eq_None_iff)
  with Cons show ?case
    by (auto simp: x om_filter_def om_find_Cons split: option.splits)
qed (simp add: om_filter_def)

section \<open>std::set as a sorted list\<close>

fun os_insert :: "'k :: linorder \<Rightarrow> 'k list \<Rightarrow> 'k list" where
  "os_insert k [] = [k]"
| "os_insert k (k' # s) =
     (if k < k' then k # k' # s else if k = k' then k' # s else k' # os_insert k s)"

definition os_erase :: "'k \<Rightarrow> 'k list \<Rightarrow> 'k list" where
  "os_erase k s = filter (\<lambda>k'. k' \<noteq> k) s"

definition os_ok :: "'k :: linorder list \<Rightarrow> bool" where
  "os_ok s = sorted_wrt (<) s"

lemma os_ok_Nil [simp]: "os_ok []"
  by (simp add: os_ok_def)

lemma set_os_insert [simp]: "set (os_insert k s) = insert k (set s)"
  by (induction k s rule: os_insert.induct) auto

lemma set_os_erase [simp]: "set (os_erase k s) = set s - {k}"
  by (auto simp: os_erase_def)

lemma os_ok_insert: "os_ok s \<Longrightarrow> os_ok (os_insert k s)"
  by (induction k s rule: os_insert.induct) (auto simp: os_ok_def)

lemma os_ok_erase: "os_ok s \<Longrightarrow> os_ok (os_erase k s)"
  by (simp add: os_erase_def os_ok_def sorted_wrt_filter)

lemma os_insert_present: "os_ok s \<Longrightarrow> k \<in> set s \<Longrightarrow> os_insert k s = s"
  by (induction k s rule: os_insert.induct) (auto simp: os_ok_def)

end
