(* ===== verification/File_Metadata.thy ===== *)
theory File_Metadata
  imports Encoding
begin

text \<open>
  \<open>common/file_metadata.hpp\<close> and \<open>.cpp\<close>: the size and hashes of a shared file, the arithmetic
  that cuts it into 512 KiB pieces, and its two text forms on the wire.  Sizes and piece
  numbers are 64-bit words, so \<open>pieceLength\<close> wraps exactly where the code's does; the lemmas
  show that for the piece numbers of a valid file it does not, and that the pieces tile it.
\<close>

section \<open>Pieces\<close>

definition PIECE_SIZE :: u64 where "PIECE_SIZE = 512 * 1024"

definition pieceCountForSize :: "u64 \<Rightarrow> u64" where
  "pieceCountForSize sz = sz div PIECE_SIZE + (if sz mod PIECE_SIZE \<noteq> 0 then 1 else 0)"

record FileMetadata =
  fm_size :: u64
  fm_fullHash :: string
  fm_pieceHashes :: "string list"

definition pieceCount :: "FileMetadata \<Rightarrow> nat" where
  "pieceCount m = length (fm_pieceHashes m)"

definition pieceLength :: "FileMetadata \<Rightarrow> u64 \<Rightarrow> u64" where
  "pieceLength m index = min PIECE_SIZE (fm_size m - index * PIECE_SIZE)"

definition valid :: "FileMetadata \<Rightarrow> bool" where
  "valid m = (isSha1Hex (fm_fullHash m) \<and>
     length (fm_pieceHashes m) = unat (pieceCountForSize (fm_size m)) \<and>
     list_all isSha1Hex (fm_pieceHashes m))"

definition sameContent :: "FileMetadata \<Rightarrow> FileMetadata \<Rightarrow> bool" where
  "sameContent m other = (fm_size m = fm_size other \<and> fm_fullHash m = fm_fullHash other \<and>
     fm_pieceHashes m = fm_pieceHashes other)"

lemma sameContent_iff: "sameContent m m' \<longleftrightarrow> m = m'"
  by (cases m; cases m') (auto simp: sameContent_def)

lemma unat_PIECE_SIZE [simp]: "unat PIECE_SIZE = 524288"
  by (simp add: PIECE_SIZE_def)

lemma ceiling_div_nat: "(s :: nat) div 524288 + (if s mod 524288 \<noteq> 0 then 1 else 0) = (s + 524287) div 524288"
proof -
  define q r where "q = s div 524288" and "r = s mod 524288"
  then have s: "s = 524288 * q + r" and r: "r < 524288"
    by simp_all
  show ?thesis
  proof (cases "r = 0")
    case True
    then show ?thesis by (simp add: s)
  next
    case False
    then have "s + 524287 = (r - 1) + (q + 1) * 524288" using s by simp
    then have "(s + 524287) div 524288 = q + 1" using r by simp
    with False show ?thesis by (simp flip: q_def r_def)
  qed
qed

lemma unat_pieceCountForSize: "unat (pieceCountForSize sz) = (unat sz + 524287) div 524288"
proof -
  have dm: "unat (sz div PIECE_SIZE) = unat sz div 524288" "unat (sz mod PIECE_SIZE) = unat sz mod 524288"
    by (simp_all add: unat_div unat_mod)
  from dm(2) have zero: "sz mod PIECE_SIZE = 0 \<longleftrightarrow> unat sz mod 524288 = 0"
    by (metis unat_eq_zero)
  have "unat sz < 2 ^ 64"
    using unsigned_less [of sz, where ?'a = nat] by simp
  then have "unat sz div 524288 < 2 ^ 64 - 1"
    by (simp add: less_mult_imp_div_less)
  then have "unat (sz div PIECE_SIZE + 1) = unat sz div 524288 + 1"
    by (simp add: unat_word_ariths dm)
  then show ?thesis
    by (simp add: pieceCountForSize_def zero dm flip: ceiling_div_nat)
qed

lemma unat_pieceOffset:
  assumes "unat i < unat (pieceCountForSize sz)"
  shows "unat (i * PIECE_SIZE) = unat i * 524288" and "unat i * 524288 < unat sz"
proof -
  from assms show lt: "unat i * 524288 < unat sz"
    unfolding unat_pieceCountForSize by linarith
  moreover have "unat sz < 2 ^ 64"
    using unsigned_less [of sz, where ?'a = nat] by simp
  ultimately show "unat (i * PIECE_SIZE) = unat i * 524288"
    by (subst unat_mult_lem [THEN iffD1]) simp_all
qed

lemma unat_pieceLength:
  assumes "unat i < unat (pieceCountForSize (fm_size m))"
  shows "unat (pieceLength m i) = min 524288 (unat (fm_size m) - unat i * 524288)"
proof -
  note off = unat_pieceOffset [OF assms]
  have "i * PIECE_SIZE \<le> fm_size m"
    using off by (simp add: word_le_nat_alt)
  then have "unat (fm_size m - i * PIECE_SIZE) = unat (fm_size m) - unat i * 524288"
    by (simp add: unat_sub off)
  then show ?thesis
    by (auto simp: pieceLength_def min_def word_le_nat_alt)
qed

lemma pieceLength_pos:
  "unat i < unat (pieceCountForSize (fm_size m)) \<Longrightarrow> 0 < unat (pieceLength m i) \<and> unat (pieceLength m i) \<le> 524288"
  using unat_pieceOffset(2) [of i "fm_size m"] by (simp add: unat_pieceLength)

lemma sum_piece_lengths:
  "(\<Sum>i<n. min 524288 (s - i * 524288)) = min (n * 524288) (s :: nat)"
  by (induction n) auto

lemma pieces_tile:
  "(\<Sum>i<unat (pieceCountForSize (fm_size m)). unat (pieceLength m (of_nat i))) = unat (fm_size m)"
proof -
  let ?n = "unat (pieceCountForSize (fm_size m))"
  have "?n < 2 ^ 64"
    using unsigned_less [of "pieceCountForSize (fm_size m)", where ?'a = nat] by simp
  then have small: "unat (of_nat i :: u64) = i" if "i < ?n" for i
    using that by (simp add: unat_of_nat)
  have "(\<Sum>i<?n. unat (pieceLength m (of_nat i))) = (\<Sum>i<?n. min 524288 (unat (fm_size m) - i * 524288))"
    by (rule sum.cong) (simp_all add: unat_pieceLength small)
  also have "\<dots> = min (?n * 524288) (unat (fm_size m))"
    by (rule sum_piece_lengths)
  also have "\<dots> = unat (fm_size m)"
    unfolding unat_pieceCountForSize by simp
  finally show ?thesis .
qed

section \<open>The list of piece hashes as one field\<close>

definition pieceHashList :: "FileMetadata \<Rightarrow> string" where
  "pieceHashList m = (if fm_pieceHashes m = [] then ''-'' else join (fm_pieceHashes m) CHR '','')"

definition parsePieceHashList :: "string \<Rightarrow> string list" where
  "parsePieceHashList s = (if s = ''-'' then [] else split s CHR '','')"

lemma isSha1Hex_xdigits: "isSha1Hex h \<Longrightarrow> c \<in> set h \<Longrightarrow> is_xdigit c"
  by (auto simp: isSha1Hex_def isHex_def list_all_iff)

lemma isSha1Hex_nonempty: "isSha1Hex h \<Longrightarrow> h \<noteq> []"
  by (auto simp: isSha1Hex_def isHex_def)

lemma set_join: "set (join ps d) \<subseteq> insert d (\<Union> (set ` set ps))"
  by (induction ps d rule: join.induct) auto

lemma length_join_hash: "ps \<noteq> [] \<Longrightarrow> length (hd ps) \<le> length (join ps d)"
  by (cases ps rule: list.exhaust) (auto simp: neq_Nil_conv, metis join.simps(2) join_Cons length_append le_add1 order_refl)

lemma pieceHashList_chars:
  "list_all isSha1Hex (fm_pieceHashes m) \<Longrightarrow> c \<in> set (pieceHashList m) \<Longrightarrow>
     is_xdigit c \<or> c = CHR '','' \<or> c = CHR ''-''"
  using set_join [of "fm_pieceHashes m" "CHR '',''"]
  by (fastforce simp: pieceHashList_def list_all_iff dest: isSha1Hex_xdigits split: if_splits)

lemma pieceHashList_nonempty: "list_all isSha1Hex (fm_pieceHashes m) \<Longrightarrow> pieceHashList m \<noteq> []"
  using length_join_hash [of "fm_pieceHashes m" "CHR '',''"]
  by (cases "fm_pieceHashes m") (auto simp: pieceHashList_def dest: isSha1Hex_nonempty)

lemma parse_pieceHashList:
  assumes "list_all isSha1Hex (fm_pieceHashes m)"
  shows "parsePieceHashList (pieceHashList m) = fm_pieceHashes m"
proof (cases "fm_pieceHashes m = []")
  case False
  with assms have "length (hd (fm_pieceHashes m)) = 40"
    by (cases "fm_pieceHashes m") (auto simp: isSha1Hex_def isHex_def)
  with False length_join_hash [of "fm_pieceHashes m" "CHR '',''"]
  have "join (fm_pieceHashes m) CHR '','' \<noteq> ''-''"
    by auto
  moreover have "split (join (fm_pieceHashes m) CHR '','') CHR '','' = fm_pieceHashes m"
    using False assms by (intro split_join) (auto simp: list_all_iff dest!: isSha1Hex_xdigits)
  ultimately show ?thesis
    using False by (simp add: pieceHashList_def parsePieceHashList_def)
qed (simp add: pieceHashList_def parsePieceHashList_def)

end
