(* ===== verification/Shared_Files.thy ===== *)
theory Shared_Files
  imports Std_Map File_Metadata
begin

text \<open>
  \<open>client/storage/shared_files.cpp\<close> and \<open>local_file.hpp\<close>: the files a client serves, a map keyed
  by the pair of group and file name.  The lock makes each method one step.
\<close>

section \<open>Keys\<close>

text \<open>\<open>std::pair<std::string, std::string>\<close> with its lexicographic order.\<close>

datatype share_key = Share_key (sk_group: string) (sk_name: string)

instantiation share_key :: linorder
begin

definition less_eq_share_key :: "share_key \<Rightarrow> share_key \<Rightarrow> bool" where
  "less_eq_share_key a b \<longleftrightarrow> sk_group a < sk_group b \<or> sk_group a = sk_group b \<and> sk_name a \<le> sk_name b"

definition less_share_key :: "share_key \<Rightarrow> share_key \<Rightarrow> bool" where
  "less_share_key a b \<longleftrightarrow> sk_group a < sk_group b \<or> sk_group a = sk_group b \<and> sk_name a < sk_name b"

instance
  by standard (auto simp: less_eq_share_key_def less_share_key_def intro: share_key.expand)

end

section \<open>The map\<close>

record LocalFile =
  lf_path :: string
  lf_metadata :: FileMetadata
  lf_available :: "bool list"

type_synonym shared_files = "(share_key, LocalFile) omap"

definition SharedFiles_add :: "string \<Rightarrow> string \<Rightarrow> LocalFile \<Rightarrow> shared_files \<Rightarrow> shared_files" where
  "SharedFiles_add gname name f fs = om_insert (Share_key gname name) f fs"

definition SharedFiles_find :: "string \<Rightarrow> string \<Rightarrow> shared_files \<Rightarrow> LocalFile option" where
  "SharedFiles_find gname name fs = om_find fs (Share_key gname name)"

definition SharedFiles_markAvailable :: "string \<Rightarrow> string \<Rightarrow> nat \<Rightarrow> shared_files \<Rightarrow> shared_files" where
  "SharedFiles_markAvailable gname name piece fs =
     (case om_find fs (Share_key gname name) of
        None \<Rightarrow> fs
      | Some f \<Rightarrow>
          if piece < length (lf_available f)
          then om_insert (Share_key gname name) (f\<lparr>lf_available := (lf_available f)[piece := True]\<rparr>) fs
          else fs)"

definition SharedFiles_remove :: "string \<Rightarrow> string \<Rightarrow> shared_files \<Rightarrow> shared_files" where
  "SharedFiles_remove gname name fs = om_erase (Share_key gname name) fs"

definition SharedFiles_removeGroup :: "string \<Rightarrow> shared_files \<Rightarrow> shared_files" where
  "SharedFiles_removeGroup gname fs = filter (\<lambda>(k, f). sk_group k \<noteq> gname) fs"

definition SharedFiles_clear :: "shared_files \<Rightarrow> shared_files" where
  "SharedFiles_clear fs = []"

section \<open>The contract of the shared set\<close>

text \<open>
  What the prompt, the downloads and the peer server rely on: after each method, which entry each
  pair has.  The laws determine a history's result from its operations alone.
\<close>

locale share_table =
  fixes lookup :: "string \<Rightarrow> string \<Rightarrow> 't \<Rightarrow> 'f option"
    and add :: "string \<Rightarrow> string \<Rightarrow> 'f \<Rightarrow> 't \<Rightarrow> 't"
    and remove :: "string \<Rightarrow> string \<Rightarrow> 't \<Rightarrow> 't"
    and remove_group :: "string \<Rightarrow> 't \<Rightarrow> 't"
    and clear :: "'t \<Rightarrow> 't"
    and ok :: "'t \<Rightarrow> bool"
  assumes lookup_add: "lookup g n (add g' n' f t) = (if g = g' \<and> n = n' then Some f else lookup g n t)"
    and lookup_remove: "lookup g n (remove g' n' t) = (if g = g' \<and> n = n' then None else lookup g n t)"
    and lookup_remove_group: "lookup g n (remove_group g' t) = (if g = g' then None else lookup g n t)"
    and lookup_clear: "lookup g n (clear t) = None"
    and ok_ops: "ok t \<Longrightarrow> ok (add g n f t) \<and> ok (remove g n t) \<and> ok (remove_group g t) \<and> ok (clear t)"
begin

lemma add_twice: "lookup g n (add g' n' f (add g' n' f' t)) = lookup g n (add g' n' f t)"
  by (simp add: lookup_add)

lemma removed_group_gone: "lookup g n (remove_group g (add g n' f t)) = None"
  by (simp add: lookup_remove_group)

lemma remove_group_others: "g \<noteq> g' \<Longrightarrow> lookup g n (remove_group g' (add g n f t)) = Some f"
  by (simp add: lookup_remove_group lookup_add)

end

lemma om_find_removeGroup:
  "om_find (SharedFiles_removeGroup gname fs) k = (if sk_group k = gname then None else om_find fs k)"
  by (induction fs) (auto simp: SharedFiles_removeGroup_def om_find_def)

interpretation shared: share_table SharedFiles_find SharedFiles_add SharedFiles_remove SharedFiles_removeGroup
  SharedFiles_clear om_ok
  by unfold_locales
    (auto simp: SharedFiles_find_def SharedFiles_add_def SharedFiles_remove_def SharedFiles_clear_def
      om_find_insert om_find_erase om_find_removeGroup om_ok_insert om_ok_erase,
     simp add: SharedFiles_removeGroup_def om_ok_filter)

text \<open>Marking a piece changes that flag and nothing else, and only of a file that is shared.\<close>

lemma find_markAvailable:
  "SharedFiles_find g n (SharedFiles_markAvailable g' n' piece fs) =
     (if g = g' \<and> n = n'
      then map_option (\<lambda>f. f\<lparr>lf_available := (lf_available f)[piece := True]\<rparr>) (SharedFiles_find g n fs)
      else SharedFiles_find g n fs)"
proof -
  have "f = f\<lparr>lf_available := (lf_available f)[piece := True]\<rparr>" if "\<not> piece < length (lf_available f)" for f
    using that by (cases f) (simp add: list_update_beyond)
  then show ?thesis
    by (auto simp: SharedFiles_find_def SharedFiles_markAvailable_def om_find_insert split: option.splits)
qed

end
