(* ===== verification/Piece_File.thy ===== *)
theory Piece_File
  imports Crypto File_Metadata Frames Freshness
begin

text \<open>
  \<open>client/storage/piece_file.cpp\<close>: reading, writing and hashing a file piece by piece.  A file is
  its bytes; \<open>pread\<close> and \<open>pwrite\<close> answer a script of events as the socket calls do (a count, an
  interrupted call, an error), and never move more than asked or than there is.
\<close>

definition pieceOffset :: "u64 \<Rightarrow> int" where
  "pieceOffset index = sint (index * PIECE_SIZE)"

section \<open>Reading and writing one piece\<close>

text \<open>The loop of \<open>read\<close> from \<open>done\<close> on: the bytes still to come.\<close>

function (sequential) pread_loop :: "io_event list \<Rightarrow> string \<Rightarrow> int \<Rightarrow> nat \<Rightarrow> string option" where
  "pread_loop evs content offset 0 = Some []"
| "pread_loop [] content offset (Suc len) = None"
| "pread_loop (Io_eintr # evs) content offset (Suc len) = pread_loop evs content offset (Suc len)"
| "pread_loop (Io_fail # evs) content offset (Suc len) = None"
| "pread_loop (Io_count n # evs) content offset (Suc len) =
     (let there = (if offset < 0 then [] else drop (nat offset) content);
          count = min n (min (Suc len) (length there)) in
      if count = 0 then None
      else map_option ((@) (take count there)) (pread_loop evs content (offset + int count) (Suc len - count)))"
  by pat_completeness auto
termination
  by (relation "measure (\<lambda>(evs, content, offset, len). length evs)") simp_all

definition PieceFile_read :: "io_event list \<Rightarrow> string \<Rightarrow> u64 \<Rightarrow> nat \<Rightarrow> string option" where
  "PieceFile_read evs content index len = pread_loop evs content (pieceOffset index) len"

text \<open>\<open>pwrite\<close> at an offset: the gap before it, if any, reads as zero bytes.\<close>

definition padded :: "nat \<Rightarrow> string \<Rightarrow> string" where
  "padded offset content = take offset content @ replicate (offset - length content) NUL"

definition write_at :: "nat \<Rightarrow> string \<Rightarrow> string \<Rightarrow> string" where
  "write_at offset data content = padded offset content @ data @ drop (offset + length data) content"

text \<open>\<open>(success, the file afterwards)\<close>.\<close>

function (sequential) pwrite_loop :: "io_event list \<Rightarrow> string \<Rightarrow> int \<Rightarrow> string \<Rightarrow> bool \<times> string" where
  "pwrite_loop evs content offset [] = (True, content)"
| "pwrite_loop [] content offset data = (False, content)"
| "pwrite_loop (Io_eintr # evs) content offset data = pwrite_loop evs content offset data"
| "pwrite_loop (Io_fail # evs) content offset data = (False, content)"
| "pwrite_loop (Io_count n # evs) content offset data =
     (let count = min n (length data) in
      if count = 0 \<or> offset < 0 then (False, content)
      else pwrite_loop evs (write_at (nat offset) (take count data) content) (offset + int count) (drop count data))"
  by pat_completeness auto
termination
  by (relation "measure (\<lambda>(evs, content, offset, data). length evs)") simp_all

definition PieceFile_write :: "io_event list \<Rightarrow> string \<Rightarrow> u64 \<Rightarrow> string \<Rightarrow> bool \<times> string" where
  "PieceFile_write evs content index data = pwrite_loop evs content (pieceOffset index) data"

text \<open>\<open>ftruncate\<close> to a size: cut, or extended with zero bytes.\<close>

definition resized :: "nat \<Rightarrow> string \<Rightarrow> string" where
  "resized n content = into_buffer n content"

definition PieceFile_openForWriting :: "bool \<Rightarrow> bool \<Rightarrow> string option \<Rightarrow> u64 \<Rightarrow> bool \<Rightarrow> string option" where
  "PieceFile_openForWriting opened truncated existing sz keepContents =
     (if \<not> opened then None
      else
        let content = (case existing of Some c \<Rightarrow> if keepContents then c else [] | None \<Rightarrow> []) in
        if truncated then Some (resized (unat sz) content) else None)"

section \<open>Hashing a file\<close>

text \<open>The buffers that successive \<open>read\<close> calls of \<open>PIECE_SIZE\<close> bytes fill.\<close>

function piece_chunks :: "string \<Rightarrow> string list" where
  "piece_chunks content =
     (if content = [] then [] else take (unat PIECE_SIZE) content # piece_chunks (drop (unat PIECE_SIZE) content))"
  by pat_completeness auto
termination
  by (relation "measure length") (simp_all add: unat_PIECE_SIZE)

declare piece_chunks.simps [simp del]

text \<open>\<open>content\<close> is the file if it is regular and opens; \<open>bad\<close> says that a read failed.\<close>

definition PieceFile_hash :: "platform \<Rightarrow> string option \<Rightarrow> bool \<Rightarrow> FileMetadata option" where
  "PieceFile_hash P content bad =
     (case content of
        None \<Rightarrow> None
      | Some text \<Rightarrow>
          if bad then None
          else
            let chunks = piece_chunks text;
                (hashes, whole, sz) = foldl (\<lambda>(hashes, whole, sz) chunk.
                  (hashes @ [sha1Hex P chunk], sha1_update whole chunk, sz + of_nat (length chunk)))
                  ([], sha1_init, 0 :: u64) chunks in
            Some \<lparr>fm_size = sz, fm_fullHash = sha1_hexDigest P whole, fm_pieceHashes = hashes\<rparr>)"

section \<open>Offsets\<close>

lemma pieceOffset_piece:
  assumes "unat i < unat (pieceCountForSize sz)" "unat sz < 2 ^ 63"
  shows "pieceOffset i = int (unat i * 524288)"
proof -
  note off = unat_pieceOffset [OF assms(1)]
  have "uint (i * PIECE_SIZE) = int (unat i * 524288)"
    using off(1) by (metis uint_nat)
  moreover have "sint (i * PIECE_SIZE) = uint (i * PIECE_SIZE)"
  proof (rule sint_small)
    have "unat i * 524288 < 2 ^ 63"
      using off(2) assms(2) by (rule less_trans)
    then have "int (unat i * 524288) < 2 ^ 63"
      by (simp only: of_nat_less_numeral_power_cancel_iff)
    with \<open>uint (i * PIECE_SIZE) = int (unat i * 524288)\<close> show "uint (i * PIECE_SIZE) < 2 ^ 63"
      by simp
  qed
  ultimately show ?thesis
    by (simp add: pieceOffset_def)
qed

lemma pread_loop_Some:
  "pread_loop evs content offset len = Some data \<Longrightarrow> 0 \<le> offset \<Longrightarrow>
     data = take len (drop (nat offset) content) \<and> length data = len"
proof (induction evs content offset len arbitrary: data rule: pread_loop.induct)
  case (5 n evs content offset len)
  define there where "there = (if offset < 0 then [] else drop (nat offset) content)"
  have there_eq: "there = drop (nat offset) content"
    using "5.prems"(2) by (simp add: there_def)
  define count where "count = min n (min (Suc len) (length there))"
  have step: "pread_loop (Io_count n # evs) content offset (Suc len) = (if count = 0 then None
      else map_option ((@) (take count there)) (pread_loop evs content (offset + int count) (Suc len - count)))"
    by (simp only: pread_loop.simps Let_def there_def count_def)
  with "5.prems"(1) have pos: "count \<noteq> 0"
    by (auto split: if_splits)
  with step "5.prems"(1) obtain rest where rest: "pread_loop evs content (offset + int count) (Suc len - count) = Some rest"
      "data = take count there @ rest"
    by auto
  have le: "count \<le> Suc len" "count \<le> length there"
    by (simp_all add: count_def)
  have "nat (offset + int count) = count + nat offset"
    using "5.prems"(2) by (simp add: nat_add_distrib)
  then have drop: "drop (nat (offset + int count)) content = drop count there"
    by (simp add: there_eq)
  have "rest = take (Suc len - count) (drop (nat (offset + int count)) content) \<and> length rest = Suc len - count"
    by (rule "5.IH" [OF there_def count_def pos rest(1)]) (use "5.prems"(2) in simp)
  then have "rest = take (Suc len - count) (drop count there)" "length rest = Suc len - count"
    unfolding drop by (rule conjunct1, rule conjunct2)
  moreover have "take (Suc len) there = take count there @ take (Suc len - count) (drop count there)"
    using le(1) take_add [of count "Suc len - count" there] by simp
  ultimately show ?case
    using rest(2) le by (simp add: there_eq)
qed auto

text \<open>A read that succeeds gives the piece's bytes, in however many portions they came.\<close>

lemma read_piece:
  assumes "PieceFile_read evs content i len = Some data" "unat i < unat (pieceCountForSize sz)" "unat sz < 2 ^ 63"
  shows "data = take len (drop (unat i * 524288) content) \<and> length data = len"
proof -
  have "nat (pieceOffset i) = unat i * 524288" "0 \<le> pieceOffset i"
    by (simp_all only: pieceOffset_piece [OF assms(2,3)] nat_int of_nat_0_le_iff)
  with pread_loop_Some [of evs content "pieceOffset i" len data] assms(1) show ?thesis
    unfolding PieceFile_read_def by (metis (no_types))
qed

section \<open>What a write leaves\<close>

lemma length_padded [simp]: "length (padded off content) = off"
  by (simp add: padded_def)

lemma write_at_again: "write_at (off + length a) b (write_at off a content) = write_at off (a @ b) content"
proof -
  have "padded (off + length a) (write_at off a content) = padded off content @ a"
    by (simp add: padded_def [of "off + length a"] write_at_def)
  then show ?thesis
    by (simp add: write_at_def ac_simps)
qed

lemma read_written: "take (length data) (drop off (write_at off data content)) = data"
  by (simp add: write_at_def)

text \<open>Bytes of another piece stay.\<close>

lemma read_elsewhere:
  assumes "off' + len \<le> off \<or> off + length data \<le> off'" "off \<le> length content"
  shows "take len (drop off' (write_at off data content)) = take len (drop off' content)"
  using assms(1)
proof
  assume le: "off' + len \<le> off"
  then have "take len (drop off' (write_at off data content)) = take len (drop off' (take off content))"
    using assms(2) by (simp add: write_at_def padded_def)
  also have "\<dots> = take len (drop off' content)"
    using le by (simp add: drop_take min_def)
  finally show ?thesis .
next
  assume "off + length data \<le> off'"
  then show ?thesis
    by (simp add: write_at_def)
qed

lemma pwrite_loop_True:
  "pwrite_loop evs content offset data = (True, content') \<Longrightarrow> 0 \<le> offset \<Longrightarrow> data \<noteq> [] \<Longrightarrow>
     content' = write_at (nat offset) data content"
proof (induction evs content offset data arbitrary: content' rule: pwrite_loop.induct)
  case (5 n evs content offset c data)
  define count where "count = min n (length (c # data))"
  have step: "pwrite_loop (Io_count n # evs) content offset (c # data) = (if count = 0 \<or> offset < 0 then (False, content)
      else pwrite_loop evs (write_at (nat offset) (take count (c # data)) content) (offset + int count) (drop count (c # data)))"
    by (simp only: pwrite_loop.simps Let_def count_def)
  with "5.prems" have go: "\<not> (count = 0 \<or> offset < 0)"
      "pwrite_loop evs (write_at (nat offset) (take count (c # data)) content) (offset + int count) (drop count (c # data)) =
        (True, content')"
    by (auto split: if_splits)
  have len: "length (take count (c # data)) = count"
    by (simp add: count_def)
  show ?case
  proof (cases "drop count (c # data) = []")
    case True
    with go(2) have "content' = write_at (nat offset) (take count (c # data)) content"
      by (cases evs) simp_all
    moreover have "take count (c # data) = c # data"
      using True by simp
    ultimately show ?thesis by simp
  next
    case False
    have "content' = write_at (nat (offset + int count)) (drop count (c # data)) (write_at (nat offset) (take count (c # data)) content)"
      by (rule "5.IH" [OF count_def go(1) go(2)]) (use "5.prems"(2) False in simp_all)
    moreover have "nat (offset + int count) = nat offset + length (take count (c # data))"
      using "5.prems"(2) len by (simp add: nat_add_distrib)
    ultimately show ?thesis
      by (simp only: write_at_again append_take_drop_id)
  qed
qed auto

section \<open>What hashing finds\<close>

lemma nth_piece_chunks:
  "i < length (piece_chunks content) \<Longrightarrow> piece_chunks content ! i = take 524288 (drop (i * 524288) content)"
proof (induction content arbitrary: i rule: piece_chunks.induct)
  case (1 content)
  show ?case
  proof (cases "content = []")
    case False
    then have chunks: "piece_chunks content = take 524288 content # piece_chunks (drop 524288 content)"
      by (subst piece_chunks.simps) simp
    show ?thesis
    proof (cases i)
      case (Suc j)
      with 1 False chunks have "piece_chunks (drop 524288 content) ! j = take 524288 (drop (j * 524288) (drop 524288 content))"
        by simp
      with Suc chunks show ?thesis
        by (simp add: add.commute)
    qed (simp add: chunks)
  qed (use 1 in \<open>simp add: piece_chunks.simps\<close>)
qed

lemma concat_piece_chunks: "concat (piece_chunks content) = content"
proof (induction content rule: piece_chunks.induct)
  case (1 content)
  then show ?case
    by (subst piece_chunks.simps) (cases "content = []", simp_all)
qed

lemma length_piece_chunks: "length (piece_chunks content) = (length content + 524287) div 524288"
proof (induction content rule: piece_chunks.induct)
  case (1 content)
  show ?case
  proof (cases "content = []")
    case False
    then have "length (piece_chunks content) = Suc ((length (drop 524288 content) + 524287) div 524288)"
      using 1 by (subst piece_chunks.simps) simp
    also have "\<dots> = (length content + 524287) div 524288"
    proof (cases "length content \<le> 524288")
      case True
      with False have "(length content + 524287) div 524288 = 1"
        by (intro div_nat_eqI) (auto simp: Suc_le_eq)
      with True show ?thesis by simp
    next
      case False
      then have "length content + 524287 = (length content - 524288 + 524287) + 524288"
        by simp
      then show ?thesis
        using div_add_self2 [of 524288 "length content - 524288 + 524287"] by simp
    qed
    finally show ?thesis .
  qed (simp add: piece_chunks.simps)
qed

lemma hash_loop:
  "foldl (\<lambda>(hashes, whole, sz) chunk. (hashes @ [sha1Hex P chunk], sha1_update whole chunk, sz + of_nat (length chunk)))
     (hashes, whole, sz :: u64) chunks =
   (hashes @ map (sha1Hex P) chunks, whole @ concat chunks, sz + of_nat (length (concat chunks)))"
  by (induction chunks arbitrary: hashes whole sz) (simp_all add: sha1_update_def add.assoc)

lemma PieceFile_hash_eq:
  "PieceFile_hash P (Some content) False =
     Some \<lparr>fm_size = of_nat (length content), fm_fullHash = sha1Hex P content,
           fm_pieceHashes = map (sha1Hex P) (piece_chunks content)\<rparr>"
  unfolding PieceFile_hash_def Let_def
  by (simp add: hash_loop concat_piece_chunks) (simp add: sha1_init_def sha1Hex_def sha1_update_def)

lemma hash_valid:
  assumes "length content < 2 ^ 64"
  shows "valid \<lparr>fm_size = of_nat (length content), fm_fullHash = sha1Hex P content,
    fm_pieceHashes = map (sha1Hex P) (piece_chunks content)\<rparr>"
proof -
  have "unat (of_nat (length content) :: u64) = length content"
    using assms by (simp add: unat_of_nat)
  then show ?thesis
    by (simp add: valid_def list_all_iff length_piece_chunks unat_pieceCountForSize)
qed

end
