(* ===== verification/Peer_Server.thy ===== *)
theory Peer_Server
  imports Peer_Protocol Shared_Files Piece_File
begin

text \<open>
  \<open>client/peer/peer_server.cpp\<close>: the seeder's answer to one request frame.  The clock is read three
  times (ticket expiry, then the two readings of the freshness check); \<open>disk\<close> gives the bytes of
  a path if it opens, \<open>evs\<close> how the reads of it go.
\<close>

record seeder_env =
  sv_clock :: clock
  sv_disk :: "string \<Rightarrow> string option"
  sv_reads :: "io_event list"
  sv_entropy :: entropy

text \<open>What is sent back for a request that checked out, before encryption.\<close>

definition servePiece :: "seeder_env \<Rightarrow> LocalFile \<Rightarrow> string \<Rightarrow> u64 \<Rightarrow> string option" where
  "servePiece env f operation piece =
     (if operation = ''BITMAP'' then Some (map (\<lambda>available. if available then CHR 0x01 else NUL) (lf_available f))
      else if operation = ''GET'' \<and> unat piece < length (lf_available f) \<and> lf_available f ! unat piece
      then case sv_disk env (lf_path f) of
        None \<Rightarrow> None
      | Some content \<Rightarrow> PieceFile_read (sv_reads env) content piece (unat (pieceLength (lf_metadata f) piece))
      else None)"

definition respond :: "platform \<Rightarrow> string \<Rightarrow> seeder_env \<Rightarrow> shared_files \<Rightarrow> string \<Rightarrow> string" where
  "respond P peerKey env files request =
     (let parts = split request CHR ''|'' in
      if length parts \<noteq> 5 \<or> parts ! 0 \<noteq> REQUEST then DENIED
      else case PeerTicket_decode (parts ! 1) of
        None \<Rightarrow> DENIED
      | Some ticket \<Rightarrow>
          if expired ticket (sv_clock env 0) then DENIED
          else
            let key = PeerTicket_key P ticket peerKey; aad = requestAad (parts ! 1) in
            case peer_decode parts 2 of
              None \<Rightarrow> DENIED
            | Some received \<Rightarrow>
                (case decrypt P key aad received of
                   None \<Rightarrow> DENIED
                 | Some plain \<Rightarrow>
                     let lines = split plain NL in
                     if length lines \<noteq> 3 \<or> \<not> isFreshTimestamp (sv_clock env 1) (sv_clock env 2) (lines ! 2) then DENIED
                     else case parseU64 (lines ! 1) of
                       None \<Rightarrow> DENIED
                     | Some piece \<Rightarrow>
                         (case SharedFiles_find (tk_group ticket) (tk_file ticket) files of
                            None \<Rightarrow> DENIED
                          | Some f \<Rightarrow>
                              (case servePiece env f (lines ! 0) piece of
                                 None \<Rightarrow> UNAVAILABLE
                               | Some reply \<Rightarrow>
                                   (case encrypt P (sv_entropy env) key (replyAad aad (parts ! 2)) reply of
                                      None \<Rightarrow> UNAVAILABLE
                                    | Some sent \<Rightarrow> peer_encode REPLY sent)))))"

text \<open>One connection to the peer server: a frame in, a frame out, whatever came of sending it.\<close>

definition peer_connection :: "platform \<Rightarrow> string \<Rightarrow> seeder_env \<Rightarrow> shared_files \<Rightarrow> Socket \<Rightarrow> Socket" where
  "peer_connection P peerKey env files sock =
     (case Socket_receiveFrame sock of
        (None, sock1) \<Rightarrow> sock1
      | (Some request, sock1) \<Rightarrow> snd (Socket_sendFrame sock1 (respond P peerKey env files request)))"

section \<open>Who gets an answer\<close>

text \<open>A request from a holder of an unexpired ticket's key, fresh and well formed.  It does not
  depend on the files.\<close>

definition genuine ::
  "platform \<Rightarrow> string \<Rightarrow> clock \<Rightarrow> string \<Rightarrow> PeerTicket \<Rightarrow> AesGcmMessage \<Rightarrow> string \<Rightarrow> u64 \<Rightarrow> bool" where
  "genuine P peerKey now request ticket message operation piece \<longleftrightarrow>
     (\<exists>text n c t plain time. split request CHR ''|'' = [REQUEST, text, n, c, t] \<and>
        PeerTicket_decode text = Some ticket \<and> \<not> expired ticket (now 0) \<and>
        fromHex n = Some (gm_nonce message) \<and> fromHex c = Some (gm_ciphertext message) \<and> fromHex t = Some (gm_tag message) \<and>
        decrypt P (PeerTicket_key P ticket peerKey) (requestAad text) message = Some plain \<and>
        (\<exists>number. split plain NL = [operation, number, time] \<and> parseU64 number = Some piece) \<and>
        isFreshTimestamp (now 1) (now 2) time)"

lemma list5: "length xs = 5 \<Longrightarrow> xs = [xs ! 0, xs ! 1, xs ! 2, xs ! 3, xs ! 4]"
  by (auto simp: length_Suc_conv eval_nat_numeral)

lemma list3: "length xs = 3 \<Longrightarrow> xs = [xs ! 0, xs ! 1, xs ! 2]"
  by (auto simp: length_Suc_conv eval_nat_numeral)

lemma respond_not_denied:
  assumes "respond P peerKey env files request \<noteq> DENIED"
  shows "\<exists>ticket message operation piece f. genuine P peerKey (sv_clock env) request ticket message operation piece \<and>
    SharedFiles_find (tk_group ticket) (tk_file ticket) files = Some f"
proof -
  let ?parts = "split request CHR ''|''"
  from assms obtain ticket message plain piece f where
    five: "length ?parts = 5" "?parts ! 0 = REQUEST" and
    r: "PeerTicket_decode (?parts ! 1) = Some ticket" "\<not> expired ticket (sv_clock env 0)"
      "peer_decode ?parts 2 = Some message"
      "decrypt P (PeerTicket_key P ticket peerKey) (requestAad (?parts ! 1)) message = Some plain"
      "length (split plain NL) = 3" "isFreshTimestamp (sv_clock env 1) (sv_clock env 2) (split plain NL ! 2)"
      "parseU64 (split plain NL ! 1) = Some piece" "SharedFiles_find (tk_group ticket) (tk_file ticket) files = Some f"
    unfolding respond_def Let_def by (auto split: if_splits option.splits)
  have "?parts = [REQUEST, ?parts ! 1, ?parts ! 2, ?parts ! 3, ?parts ! 4]"
    using list5 [OF five(1)] five(2) by simp
  moreover have "fromHex (?parts ! 2) = Some (gm_nonce message)" "fromHex (?parts ! 3) = Some (gm_ciphertext message)"
      "fromHex (?parts ! 4) = Some (gm_tag message)"
    using r(3) five(1) by (auto simp: peer_decode_def split: option.splits)
  ultimately show ?thesis
    using r list3 [OF r(5)] unfolding genuine_def by metis
qed

text \<open>And such a request gets what its file and operation call for.\<close>

lemma respond_genuine:
  assumes "split request CHR ''|'' = [REQUEST, text, n, c, t]" "PeerTicket_decode text = Some ticket"
    "\<not> expired ticket (sv_clock env 0)" "peer_decode [REQUEST, text, n, c, t] 2 = Some message"
    "decrypt P (PeerTicket_key P ticket peerKey) (requestAad text) message = Some plain"
    "split plain NL = [operation, number, time]" "isFreshTimestamp (sv_clock env 1) (sv_clock env 2) time"
    "parseU64 number = Some piece" "SharedFiles_find (tk_group ticket) (tk_file ticket) files = Some f"
  shows "respond P peerKey env files request =
    (case servePiece env f operation piece of
       None \<Rightarrow> UNAVAILABLE
     | Some reply \<Rightarrow>
         (case encrypt P (sv_entropy env) (PeerTicket_key P ticket peerKey) (replyAad (requestAad text) n) reply of
            None \<Rightarrow> UNAVAILABLE
          | Some sent \<Rightarrow> peer_encode REPLY sent))"
  using assms by (simp add: respond_def split: option.split)

end
