(* ===== verification/Peer_Client.thy ===== *)
theory Peer_Client
  imports Peer_Server
begin

text \<open>
  \<open>client/peer/peer_client.cpp\<close>: one request to a seeder, and what the reply has to be to count.
  \<open>pe_socket\<close> is the result of \<open>Socket::connect\<close>.
\<close>

datatype TransferResult = Success | NetworkFailure | AuthenticationFailure | IntegrityFailure | Unavailable

record peer_env =
  pe_entropy :: entropy
  pe_clock :: int
  pe_socket :: "Socket option"

text \<open>The result, the decrypted reply (empty unless it opened), and the socket as it was left.\<close>

definition PeerClient_request ::
  "platform \<Rightarrow> peer_env \<Rightarrow> SeederAccess \<Rightarrow> string \<Rightarrow> u64 \<Rightarrow> TransferResult \<times> string \<times> Socket option" where
  "PeerClient_request P env seeder operation piece =
     (case makeRequest P (pe_entropy env) (pe_clock env) (sa_ticket seeder) (sa_key seeder) operation piece of
        None \<Rightarrow> (AuthenticationFailure, [], None)
      | Some (frame, nonce) \<Rightarrow>
          (case pe_socket env of
             None \<Rightarrow> (NetworkFailure, [], None)
           | Some sock \<Rightarrow>
               let (sent, sock1) = Socket_sendFrame sock frame in
               if \<not> sent then (NetworkFailure, [], Some sock1)
               else case Socket_receiveFrame sock1 of
                 (None, sock2) \<Rightarrow> (NetworkFailure, [], Some sock2)
               | (Some response, sock2) \<Rightarrow>
                   if response = UNAVAILABLE then (Unavailable, [], Some sock2)
                   else case openReply P (sa_ticket seeder) (sa_key seeder) nonce response of
                     None \<Rightarrow> (AuthenticationFailure, [], Some sock2)
                   | Some reply \<Rightarrow> (Success, reply, Some sock2)))"

definition PeerClient_fetchBitmap ::
  "platform \<Rightarrow> peer_env \<Rightarrow> SeederAccess \<Rightarrow> nat \<Rightarrow> TransferResult \<times> bool list" where
  "PeerClient_fetchBitmap P env seeder pieces =
     (let (result, reply, _) = PeerClient_request P env seeder ''BITMAP'' 0 in
      if result = Success \<and> length reply \<noteq> pieces then (AuthenticationFailure, [])
      else if result \<noteq> Success then (result, [])
      else (result, map (\<lambda>piece. piece \<noteq> NUL) reply))"

definition PeerClient_fetchPiece ::
  "platform \<Rightarrow> peer_env \<Rightarrow> SeederAccess \<Rightarrow> u64 \<Rightarrow> string \<Rightarrow> TransferResult \<times> string" where
  "PeerClient_fetchPiece P env seeder index expectedHash =
     (let (result, data, _) = PeerClient_request P env seeder ''GET'' index in
      if result = Success \<and> sha1Hex P data \<noteq> expectedHash then (IntegrityFailure, data)
      else (result, data))"

lemma fetchPiece_Success:
  "PeerClient_fetchPiece P env seeder i h = (Success, data) \<Longrightarrow> sha1Hex P data = h"
  by (auto simp: PeerClient_fetchPiece_def split: prod.splits if_splits)

lemma fetchBitmap_Success:
  "PeerClient_fetchBitmap P env seeder n = (Success, bits) \<Longrightarrow> length bits = n"
  by (auto simp: PeerClient_fetchBitmap_def Let_def split: prod.splits if_splits)

lemma fetchBitmap_failed:
  "PeerClient_fetchBitmap P env seeder n = (result, bits) \<Longrightarrow> result \<noteq> Success \<Longrightarrow> bits = []"
  by (auto simp: PeerClient_fetchBitmap_def Let_def split: prod.splits if_splits)

section \<open>A downloader and a seeder\<close>

text \<open>The seeder's side of an access: the ticket is in force, the key is the one the seeder computes.\<close>

definition access_for :: "platform \<Rightarrow> string \<Rightarrow> PeerTicket \<Rightarrow> SeederAccess \<Rightarrow> bool" where
  "access_for P peerKey ticket a \<longleftrightarrow> PeerTicket_decode (sa_ticket a) = Some ticket \<and> sa_key a = PeerTicket_key P ticket peerKey"

text \<open>The timestamp of the request is fresh at the seeder.\<close>

definition in_time :: "int \<Rightarrow> clock \<Rightarrow> PeerTicket \<Rightarrow> bool" where
  "in_time sent now ticket \<longleftrightarrow> 0 \<le> sent \<and> 0 \<le> now 1 \<and> now 1 + 300 < 2 ^ 63 \<and> sent \<le> now 1 + 300 \<and>
     now 2 \<le> sent + 300 \<and> now 0 < tk_expires ticket"

lemma respond_to_request:
  assumes "gcm_correct P" "access_for P peerKey ticket a" "in_time now (sv_clock env) ticket" "NL \<notin> set operation"
    "makeRequest P r now (sa_ticket a) (sa_key a) operation piece = Some (frame, nonce)"
    "SharedFiles_find (tk_group ticket) (tk_file ticket) files = Some f"
  shows "respond P peerKey env files frame =
    (case servePiece env f operation piece of
       None \<Rightarrow> UNAVAILABLE
     | Some reply \<Rightarrow>
         (case encrypt P (sv_entropy env) (sa_key a) (replyAad (requestAad (sa_ticket a)) (toHex nonce)) reply of
            None \<Rightarrow> UNAVAILABLE
          | Some sent \<Rightarrow> peer_encode REPLY sent))"
proof -
  have ticket: "PeerTicket_decode (sa_ticket a) = Some ticket" and key: "sa_key a = PeerTicket_key P ticket peerKey"
    using assms(2) by (simp_all add: access_for_def)
  obtain m where m: "encrypt P r (sa_key a) (requestAad (sa_ticket a)) (requestPlain operation piece now) = Some m"
      "frame = peer_encode (requestAad (sa_ticket a)) m" "nonce = gm_nonce m"
    using assms(5) by (auto simp: makeRequest_def Let_def split: option.splits)
  have shape: "split frame CHR ''|'' = [REQUEST, sa_ticket a, toHex nonce, toHex (gm_ciphertext m), toHex (gm_tag m)]"
    unfolding m(2,3) split_peer_encode split_requestAad [OF ticket] by simp
  have "peer_decode (split frame CHR ''|'') 2 = Some m"
    unfolding m(2) by (rule peer_decode_encode) (simp add: split_requestAad [OF ticket])
  then have "peer_decode [REQUEST, sa_ticket a, toHex nonce, toHex (gm_ciphertext m), toHex (gm_tag m)] 2 = Some m"
    unfolding shape .
  moreover have "decrypt P (PeerTicket_key P ticket peerKey) (requestAad (sa_ticket a)) m = Some (requestPlain operation piece now)"
    using decrypt_encrypt [OF assms(1) m(1)] by (simp add: key)
  moreover have "isFreshTimestamp (sv_clock env 1) (sv_clock env 2) (to_string_int now)"
    using assms(3) unfolding in_time_def by (intro fresh_own_clock) simp_all
  moreover have "\<not> expired ticket (sv_clock env 0)"
    using assms(3) by (simp add: expired_def in_time_def)
  moreover have "split (requestPlain operation piece now) NL = [operation, to_string_u64 piece, to_string_int now]"
    using assms(3,4) by (intro split_requestPlain) (simp_all add: in_time_def)
  ultimately show ?thesis
    unfolding key using respond_genuine [OF shape ticket _ _ _ _ _ parseU64_to_string assms(6)] by blast
qed

lemma sealed_reply_opens:
  assumes "gcm_correct P"
    and "encrypt P r key (replyAad (requestAad ticket) (toHex nonce)) reply = Some sent"
  shows "peer_encode REPLY sent \<noteq> UNAVAILABLE \<and> openReply P ticket key nonce (peer_encode REPLY sent) = Some reply"
  using openReply_sealed [OF assms] openReply_error(2) [of P ticket key nonce] by (metis option.distinct(1))

text \<open>Both ends of one connection: each side received what the other wrote.\<close>

lemma request_served:
  assumes "gcm_correct P" "access_for P peerKey ticket a" "in_time (pe_clock ce) (sv_clock se) ticket" "NL \<notin> set operation"
    and "SharedFiles_find (tk_group ticket) (tk_file ticket) files = Some f"
    and "pe_socket ce = Some sock" "so_out sock = []" "so_out ssock = []"
    and run: "PeerClient_request P ce a operation piece = (Success, reply, Some sock')"
    and wires: "so_in ssock = so_out sock'" "so_in sock = so_out (peer_connection P peerKey se files ssock)"
  shows "servePiece se f operation piece = Some reply"
proof -
  obtain frame nonce sock1 response where
    made: "makeRequest P (pe_entropy ce) (pe_clock ce) (sa_ticket a) (sa_key a) operation piece = Some (frame, nonce)"
    and sent: "Socket_sendFrame sock frame = (True, sock1)"
    and got: "Socket_receiveFrame sock1 = (Some response, sock')"
    and opened: "response \<noteq> UNAVAILABLE" "openReply P (sa_ticket a) (sa_key a) nonce response = Some reply"
    using run assms(6) by (auto simp: PeerClient_request_def split: option.splits prod.splits if_splits)
  note wire = Socket_sendFrame_True [OF sent]
  have in_server: "so_in ssock = frame_bytes frame @ []"
    using wires(1) wire assms(7) Socket_receiveFrame_keeps [OF got] by simp
  obtain request ssock1 where req: "Socket_receiveFrame ssock = (request, ssock1)"
    by (cases "Socket_receiveFrame ssock")
  let ?answer = "respond P peerKey se files frame"
  obtain ok ssock2 where answered: "Socket_sendFrame ssock1 ?answer = (ok, ssock2)"
    by (cases "Socket_sendFrame ssock1 ?answer")
  have "request \<noteq> None"
  proof
    assume "request = None"
    then have "so_in sock1 = []"
      using wires(2) req assms(8) wire by (simp add: peer_connection_def)
    with got Socket_receiveFrame_empty show False by blast
  qed
  then have "request = Some frame"
    using Socket_receiveFrame_sent [OF in_server] wire req by blast
  then have out: "so_in sock1 = so_out ssock2" "so_out ssock1 = []"
    using wires(2) req answered wire assms(8) Socket_receiveFrame_keeps [OF req] by (simp_all add: peer_connection_def)
  have ok
  proof (rule ccontr)
    assume "\<not> ok"
    then obtain w x where "so_out ssock2 = so_out ssock1 @ w"
        "w = [] \<or> frame_bytes ?answer = w @ x \<and> x \<noteq> [] \<and> int (length ?answer) \<le> MAX_FRAME"
      using Socket_sendFrame_False [of ssock1 ?answer ssock2] answered by auto
    with out got Socket_receiveFrame_empty Socket_receiveFrame_part show False
      by (metis append_Nil)
  qed
  then have "response = ?answer"
    using Socket_receiveFrame_sent [of sock1 ?answer "[]"] Socket_sendFrame_True [of ssock1 ?answer ssock2] answered out got
    by simp
  then show ?thesis
    using opened respond_to_request [OF assms(1-4) made assms(5)] sealed_reply_opens [OF assms(1)]
    by (auto split: option.splits)
qed

end
