(* ===== verification/Config.thy ===== *)
theory Config
  imports Endpoint
begin

text \<open>
  \<open>common/config/\<close>: \<open>client.conf\<close> and the tracker's identity key, with the files they are kept in.
  A file system is the content of its files and their mode bits; whether the operating system
  lets a file be written is an argument of the operation that writes it.
\<close>

record file_system =
  fs_files :: "string \<rightharpoonup> string"
  fs_modes :: "string \<rightharpoonup> int"

definition write_file :: "string \<Rightarrow> string \<Rightarrow> file_system \<Rightarrow> file_system" where
  "write_file path data fs = fs\<lparr>fs_files := (fs_files fs)(path \<mapsto> data)\<rparr>"

definition set_mode :: "string \<Rightarrow> int \<Rightarrow> file_system \<Rightarrow> file_system" where
  "set_mode path mode fs = fs\<lparr>fs_modes := (fs_modes fs)(path \<mapsto> mode)\<rparr>"

lemma file_system_simps [simp]:
  "fs_files (write_file p d fs) = (fs_files fs)(p \<mapsto> d)" "fs_files (set_mode p m fs) = fs_files fs"
  "fs_modes (write_file p d fs) = fs_modes fs" "fs_modes (set_mode p m fs) = (fs_modes fs)(p \<mapsto> m)"
  by (simp_all add: write_file_def set_mode_def)

section \<open>client.conf\<close>

record ClientConfig =
  cc_tracker :: Endpoint
  cc_trackerPublicKey :: string

definition ClientConfig_load :: "platform \<Rightarrow> file_system \<Rightarrow> string \<Rightarrow> ClientConfig option" where
  "ClientConfig_load P fs path =
     (case fs_files fs path of
        None \<Rightarrow> None
      | Some text \<Rightarrow>
          (case words_of text of
             [address, publicKey] \<Rightarrow>
               (case fromHex publicKey of
                  None \<Rightarrow> None
                | Some key \<Rightarrow>
                    if length key \<noteq> 32 then None
                    else case Endpoint_parse P address of
                      None \<Rightarrow> None
                    | Some tracker \<Rightarrow> Some \<lparr>cc_tracker = tracker, cc_trackerPublicKey = key\<rparr>)
           | _ \<Rightarrow> None))"

definition config_text :: "ClientConfig \<Rightarrow> string" where
  "config_text c = Endpoint_toString (cc_tracker c) @ [NL] @ toHex (cc_trackerPublicKey c) @ [NL]"

definition ClientConfig_save :: "bool \<Rightarrow> ClientConfig \<Rightarrow> string \<Rightarrow> file_system \<Rightarrow> bool \<times> file_system" where
  "ClientConfig_save writable c path fs =
     (if writable then (True, write_file path (config_text c) fs) else (False, fs))"

section \<open>The identity key\<close>

definition keyPath :: "string \<Rightarrow> string" where
  "keyPath keysDir = keysDir @ ''/tracker_identity.key''"

text \<open>\<open>raw\<close> is the generated key; \<open>w1\<close> and \<open>w2\<close> say whether the two files can be written.\<close>

definition TrackerIdentity_create ::
  "keygen \<Rightarrow> bool \<Rightarrow> bool \<Rightarrow> Endpoint \<Rightarrow> string \<Rightarrow> string \<Rightarrow> file_system \<Rightarrow> (string + unit) \<times> file_system" where
  "TrackerIdentity_create raw w1 w2 tracker keysDir clientConfPath fs =
     (let fs1 = set_mode keysDir 448 fs in
      case generateKeyPair raw of
        None \<Rightarrow> (Inl ''could not generate the tracker identity key'', fs1)
      | Some identity \<Rightarrow>
          if \<not> w1 then (Inl (''could not write '' @ keyPath keysDir), fs1)
          else
            let fs2 = write_file (keyPath keysDir) (toHex (kp_private identity) @ [NL]) fs1;
                fs3 = set_mode (keyPath keysDir) 384 fs2;
                (saved, fs4) = ClientConfig_save w2
                  \<lparr>cc_tracker = tracker, cc_trackerPublicKey = kp_public identity\<rparr> clientConfPath fs3 in
            if \<not> saved then (Inl (''could not write '' @ clientConfPath), fs4) else (Inr (), fs4))"

definition TrackerIdentity_load :: "file_system \<Rightarrow> string \<Rightarrow> string option" where
  "TrackerIdentity_load fs keysDir =
     (case fs_files fs (keyPath keysDir) of
        None \<Rightarrow> None
      | Some text \<Rightarrow>
          (case words_of text of
             [hex] \<Rightarrow> (case fromHex hex of
                None \<Rightarrow> None
              | Some key \<Rightarrow> if length key \<noteq> 32 then None else Some key)
           | _ \<Rightarrow> None))"

text \<open>\<open>tools/keygen.cpp\<close>: the exit code, what is printed, and the files.\<close>

definition keygen_main ::
  "platform \<Rightarrow> keygen \<Rightarrow> bool \<Rightarrow> bool \<Rightarrow> string list \<Rightarrow> file_system \<Rightarrow> int \<times> string \<times> file_system" where
  "keygen_main P raw w1 w2 argv fs =
     (case (if length argv = 4 then Endpoint_parse P (argv ! 1) else None) of
        None \<Rightarrow> (1, ''usage: '' @ argv ! 0 @ '' <tracker-ip:port> <keys-dir> <client.conf>'' @ [NL], fs)
      | Some tracker \<Rightarrow>
          (case TrackerIdentity_create raw w1 w2 tracker (argv ! 2) (argv ! 3) fs of
             (Inl error, fs') \<Rightarrow> (1, error @ [NL], fs')
           | (Inr _, fs') \<Rightarrow> (0, ''wrote the tracker identity key to '' @ argv ! 2 @ '' and '' @ argv ! 3 @ [NL], fs')))"

section \<open>What is written is read back\<close>

lemma hex_word: "list_all (\<lambda>c. \<not> is_space c) (toHex x)"
  by (auto simp: list_all_iff dest: toHex_chars xdigit_not_space)

lemma words_of_line: "w \<noteq> [] \<Longrightarrow> list_all (\<lambda>c. \<not> is_space c) w \<Longrightarrow> words_of (w @ [NL]) = [w]"
  using words_of_word [of w NL "[]"] by (simp add: words_of_def)

text \<open>An address whose text has no white space is one word of the file.\<close>

lemma endpoint_word:
  assumes "endpoint_ok P e" "list_all (\<lambda>c. \<not> is_space c) (ep_ip e)"
  shows "list_all (\<lambda>c. \<not> is_space c) (Endpoint_toString e)"
  using assms Endpoint_toString_chars [OF assms(1)] by (fastforce simp: list_all_iff digit_not_space)

lemma load_config_text:
  assumes "endpoint_ok P (cc_tracker c)" "list_all (\<lambda>c. \<not> is_space c) (ep_ip (cc_tracker c))"
    "length (cc_trackerPublicKey c) = 32" "fs_files fs path = Some (config_text c)"
  shows "ClientConfig_load P fs path = Some c"
proof -
  have "toHex (cc_trackerPublicKey c) \<noteq> []" "Endpoint_toString (cc_tracker c) \<noteq> []"
    using assms(3) by (auto simp: Endpoint_toString_def)
  then have "words_of (config_text c) = [Endpoint_toString (cc_tracker c), toHex (cc_trackerPublicKey c)]"
    using words_of_word [OF _ endpoint_word [OF assms(1,2)], of NL] words_of_line [OF _ hex_word]
    by (simp add: config_text_def)
  with assms show ?thesis
    by (simp add: ClientConfig_load_def Endpoint_parse_toString fromHex_toHex)
qed

lemma load_key_text:
  assumes "length key = 32" "fs_files fs (keyPath keysDir) = Some (toHex key @ [NL])"
  shows "TrackerIdentity_load fs keysDir = Some key"
proof -
  have "toHex key \<noteq> []" using assms(1) by auto
  then show ?thesis
    using assms words_of_line [OF _ hex_word] by (simp add: TrackerIdentity_load_def fromHex_toHex)
qed

end
