(* ===== verification/Secure_Channel.thy ===== *)
theory Secure_Channel
  imports Crypto Frames Freshness
begin

text \<open>
  \<open>common/net/secure_channel.cpp\<close>: the handshake between a client and the tracker, the session
  key, and the sealed frames that follow.  \<open>connect\<close> and \<open>accept\<close> are functions of the key pair
  and the nonce the library generates, of the clock readings in the order the code takes them,
  and of the socket.
\<close>

section \<open>The handshake\<close>

definition parseHello :: "int \<Rightarrow> int \<Rightarrow> string list \<Rightarrow> nat \<Rightarrow> string option" where
  "parseHello now1 now2 parts expectedParts =
     (if length parts \<noteq> expectedParts \<or> parts ! 0 \<noteq> ''HELLO'' then None
      else case fromHex (parts ! 1) of
        None \<Rightarrow> None
      | Some publicKey \<Rightarrow>
          if length publicKey \<noteq> 32 then None
          else case fromHex (parts ! 2) of
            None \<Rightarrow> None
          | Some nonce \<Rightarrow>
              if length nonce = 16 \<and> isFreshTimestamp now1 now2 (parts ! 3) then Some publicKey else None)"

definition helloFields :: "int \<Rightarrow> KeyPair \<Rightarrow> string \<Rightarrow> string" where
  "helloFields now ephemeral nonce =
     toHex (kp_public ephemeral) @ ''|'' @ toHex nonce @ ''|'' @ to_string_int now"

definition transcript :: "string \<Rightarrow> string \<Rightarrow> string" where
  "transcript clientHello serverFields = ''torrent-handshake-v1|'' @ clientHello @ ''|'' @ serverFields"

definition sessionKey :: "platform \<Rightarrow> KeyPair \<Rightarrow> string \<Rightarrow> string \<Rightarrow> string" where
  "sessionKey P ephemeral peerPublic text =
     (let shared = x25519SharedSecret P (kp_private ephemeral) peerPublic in
      if shared = [] then [] else sha256 P (shared @ text))"

record SecureChannel =
  sc_socket :: Socket
  sc_key :: string
  sc_sendLabel :: string
  sc_receiveLabel :: string

definition SecureChannel_init :: "Socket \<Rightarrow> string \<Rightarrow> bool \<Rightarrow> SecureChannel" where
  "SecureChannel_init sock key client =
     \<lparr>sc_socket = sock, sc_key = key,
      sc_sendLabel = (if client then ''client->tracker'' else ''tracker->client''),
      sc_receiveLabel = (if client then ''tracker->client'' else ''client->tracker'')\<rparr>"

definition SecureChannel_connect ::
  "platform \<Rightarrow> keygen \<Rightarrow> entropy \<Rightarrow> clock \<Rightarrow> Socket \<Rightarrow> string \<Rightarrow> SecureChannel option" where
  "SecureChannel_connect P kg r now sock trackerPublicKey =
     (let nonce = randomBytes 16 r in
      case generateKeyPair kg of
        None \<Rightarrow> None
      | Some ephemeral \<Rightarrow>
          if length nonce \<noteq> 16 then None
          else
            let hello = ''HELLO|'' @ helloFields (now 0) ephemeral nonce;
                (sent, sock1) = Socket_sendFrame sock hello in
            if \<not> sent then None
            else case Socket_receiveFrame sock1 of
              (None, _) \<Rightarrow> None
            | (Some reply, sock2) \<Rightarrow>
                let parts = split reply CHR ''|'' in
                case parseHello (now 1) (now 2) parts 5 of
                  None \<Rightarrow> None
                | Some serverPublic \<Rightarrow>
                    (case fromHex (parts ! 4) of
                       None \<Rightarrow> None
                     | Some signature \<Rightarrow>
                         let signedText = transcript hello
                               (parts ! 1 @ ''|'' @ parts ! 2 @ ''|'' @ parts ! 3) in
                         if \<not> ed25519Verify P trackerPublicKey signedText signature then None
                         else let key = sessionKey P ephemeral serverPublic signedText in
                           if length key \<noteq> 32 then None
                           else Some (SecureChannel_init sock2 key True)))"

definition SecureChannel_accept ::
  "platform \<Rightarrow> keygen \<Rightarrow> entropy \<Rightarrow> clock \<Rightarrow> Socket \<Rightarrow> string \<Rightarrow> SecureChannel option" where
  "SecureChannel_accept P kg r now sock identityPrivateKey =
     (case Socket_receiveFrame sock of
        (None, _) \<Rightarrow> None
      | (Some hello, sock1) \<Rightarrow>
          (case parseHello (now 0) (now 1) (split hello CHR ''|'') 4 of
             None \<Rightarrow> None
           | Some clientPublic \<Rightarrow>
               let nonce = randomBytes 16 r in
               case generateKeyPair kg of
                 None \<Rightarrow> None
               | Some ephemeral \<Rightarrow>
                   if length nonce \<noteq> 16 then None
                   else
                     let serverFields = helloFields (now 2) ephemeral nonce;
                         signedText = transcript hello serverFields;
                         signature = ed25519Sign P identityPrivateKey signedText in
                     if signature = [] then None
                     else let (sent, sock2) = Socket_sendFrame sock1
                                (''HELLO|'' @ serverFields @ ''|'' @ toHex signature) in
                       if \<not> sent then None
                       else let key = sessionKey P ephemeral clientPublic signedText in
                         if length key \<noteq> 32 then None
                         else Some (SecureChannel_init sock2 key False)))"

section \<open>Sealed frames\<close>

definition seal :: "platform \<Rightarrow> entropy \<Rightarrow> SecureChannel \<Rightarrow> string \<Rightarrow> string" where
  "seal P r channel plain =
     (case encrypt P r (sc_key channel) (sc_sendLabel channel) plain of
        None \<Rightarrow> []
      | Some message \<Rightarrow> gm_nonce message @ gm_tag message @ gm_ciphertext message)"

definition SecureChannel_send :: "platform \<Rightarrow> entropy \<Rightarrow> SecureChannel \<Rightarrow> string \<Rightarrow> bool \<times> SecureChannel" where
  "SecureChannel_send P r channel plain =
     (let (ok, sock) = Socket_sendFrame (sc_socket channel) (seal P r channel plain) in
      (ok, channel\<lparr>sc_socket := sock\<rparr>))"

definition SecureChannel_receive :: "platform \<Rightarrow> SecureChannel \<Rightarrow> string option \<times> SecureChannel" where
  "SecureChannel_receive P channel =
     (case Socket_receiveFrame (sc_socket channel) of
        (None, sock) \<Rightarrow> (None, channel\<lparr>sc_socket := sock\<rparr>)
      | (Some frame, sock) \<Rightarrow>
          if length frame < 28 then (None, channel\<lparr>sc_socket := sock\<rparr>)
          else (decrypt P (sc_key channel) (sc_receiveLabel channel)
                  \<lparr>gm_nonce = take 12 frame, gm_ciphertext = drop 28 frame, gm_tag = take 16 (drop 12 frame)\<rparr>,
                channel\<lparr>sc_socket := sock\<rparr>))"

text \<open>One call: the result of \<open>Socket::connect\<close>, the key pair, nonce and clock of the handshake, the
  nonce of the request frame.  The channel is destroyed when the call returns; its last state
  is part of the result so that the bytes written can be named.\<close>

record call_env =
  ce_socket :: "Socket option"
  ce_keys :: keygen
  ce_nonce :: entropy
  ce_clock :: clock
  ce_frame :: entropy

definition callTracker :: "platform \<Rightarrow> call_env \<Rightarrow> string \<Rightarrow> string \<Rightarrow> (string \<times> SecureChannel) option" where
  "callTracker P env trackerPublicKey request =
     (case ce_socket env of
        None \<Rightarrow> None
      | Some sock \<Rightarrow>
          (case SecureChannel_connect P (ce_keys env) (ce_nonce env) (ce_clock env) sock trackerPublicKey of
             None \<Rightarrow> None
           | Some channel \<Rightarrow>
               let (sent, channel1) = SecureChannel_send P (ce_frame env) channel request in
               if \<not> sent then None
               else case SecureChannel_receive P channel1 of
                 (None, _) \<Rightarrow> None
               | (Some response, channel2) \<Rightarrow> Some (response, channel2)))"

section \<open>What the handshake's functions did when they succeeded\<close>

lemma parseHello_Some:
  assumes "parseHello now1 now2 parts n = Some key"
  shows "length parts = n \<and> parts ! 0 = ''HELLO'' \<and> fromHex (parts ! 1) = Some key \<and> length key = 32 \<and>
    isFreshTimestamp now1 now2 (parts ! 3)"
  using assms by (auto simp: parseHello_def split: if_splits option.splits)

lemma hello_split:
  "split (''HELLO|'' @ helloFields now eph nonce) CHR ''|'' =
     ''HELLO'' # toHex (kp_public eph) # toHex nonce # split (to_string_int now) CHR ''|''"
proof -
  have hex: "CHR ''|'' \<notin> set (toHex x)" for x
    by (auto dest: toHex_chars)
  have label: "CHR ''|'' \<notin> set ''HELLO''"
    by simp
  have shape: "''HELLO|'' @ helloFields now eph nonce =
      ''HELLO'' @ CHR ''|'' # (toHex (kp_public eph) @ CHR ''|'' # (toHex nonce @ CHR ''|'' # to_string_int now))"
    by (simp add: helloFields_def)
  show ?thesis
    unfolding shape by (simp only: split_at_delim [OF label] split_at_delim [OF hex])
qed

lemmas hello_split_simp = hello_split [simplified append_Cons append_Nil]

lemma transcript_inject:
  assumes "transcript hello f = transcript hello' f'"
    "length (split hello CHR ''|'') = length (split hello' CHR ''|'')"
  shows "hello = hello' \<and> f = f'"
  using assms split_append_inject [of hello "CHR ''|''" f hello' f'] by (simp add: transcript_def)

lemma connect_Some:
  assumes "SecureChannel_connect P kg r now sock pk = Some c"
  obtains eph sock1 reply sock2 serverPublic signature msg where
    "generateKeyPair kg = Some eph"
    "Socket_sendFrame sock (''HELLO|'' @ helloFields (now 0) eph (randomBytes 16 r)) = (True, sock1)"
    "Socket_receiveFrame sock1 = (Some reply, sock2)"
    "parseHello (now 1) (now 2) (split reply CHR ''|'') 5 = Some serverPublic"
    "msg = transcript (''HELLO|'' @ helloFields (now 0) eph (randomBytes 16 r))
       (split reply CHR ''|'' ! 1 @ ''|'' @ split reply CHR ''|'' ! 2 @ ''|'' @ split reply CHR ''|'' ! 3)"
    "ed25519Verify P pk msg signature"
    "length (sessionKey P eph serverPublic msg) = 32"
    "c = SecureChannel_init sock2 (sessionKey P eph serverPublic msg) True"
  using assms unfolding SecureChannel_connect_def Let_def
  by (auto split: option.splits prod.splits if_splits)

lemma accept_Some:
  assumes "SecureChannel_accept P kg r now sock sk = Some c"
  obtains hello sock1 clientPublic eph signature sock2 msg where
    "Socket_receiveFrame sock = (Some hello, sock1)"
    "parseHello (now 0) (now 1) (split hello CHR ''|'') 4 = Some clientPublic"
    "generateKeyPair kg = Some eph"
    "msg = transcript hello (helloFields (now 2) eph (randomBytes 16 r))"
    "signature = ed25519Sign P sk msg" "signature \<noteq> []"
    "Socket_sendFrame sock1 (''HELLO|'' @ helloFields (now 2) eph (randomBytes 16 r) @ ''|'' @ toHex signature) = (True, sock2)"
    "length (sessionKey P eph clientPublic msg) = 32"
    "c = SecureChannel_init sock2 (sessionKey P eph clientPublic msg) False"
  using assms unfolding SecureChannel_accept_def Let_def
  by (auto split: option.splits prod.splits if_splits)

text \<open>One run of the tracker's side: the keys and nonce it drew, its clock, its connection.\<close>

record accept_run =
  ar_keys :: keygen
  ar_nonce :: entropy
  ar_clock :: clock
  ar_socket :: Socket

definition accept_in :: "platform \<Rightarrow> string \<Rightarrow> accept_run \<Rightarrow> SecureChannel option" where
  "accept_in P identity run = SecureChannel_accept P (ar_keys run) (ar_nonce run) (ar_clock run) (ar_socket run) identity"

text \<open>What a run signs with the identity key: the hello it read, its own ephemeral keys, the text.\<close>

definition accept_signs :: "platform \<Rightarrow> string \<Rightarrow> accept_run \<Rightarrow> (string \<times> KeyPair \<times> string) option" where
  "accept_signs P identity run =
     (case fst (Socket_receiveFrame (ar_socket run)) of
        None \<Rightarrow> None
      | Some hello \<Rightarrow>
          (case (parseHello (ar_clock run 0) (ar_clock run 1) (split hello CHR ''|'') 4, generateKeyPair (ar_keys run)) of
             (Some clientPublic, Some ephemeral) \<Rightarrow>
               let nonce = randomBytes 16 (ar_nonce run);
                   signedText = transcript hello (helloFields (ar_clock run 2) ephemeral nonce) in
               if length nonce \<noteq> 16 \<or> ed25519Sign P identity signedText = [] then None
               else Some (hello, ephemeral, signedText)
           | _ \<Rightarrow> None))"

text \<open>The run sends the signature of that text and nothing else that is signed; without it, it fails.\<close>

lemma accept_by_signing:
  "accept_in P identity run =
     (case accept_signs P identity run of
        None \<Rightarrow> None
      | Some (hello, ephemeral, signedText) \<Rightarrow>
          (case (Socket_sendFrame (snd (Socket_receiveFrame (ar_socket run)))
              (''HELLO|'' @ helloFields (ar_clock run 2) ephemeral (randomBytes 16 (ar_nonce run)) @ ''|'' @
                 toHex (ed25519Sign P identity signedText)),
              parseHello (ar_clock run 0) (ar_clock run 1) (split hello CHR ''|'') 4) of
             ((True, sock), Some clientPublic) \<Rightarrow>
               let key = sessionKey P ephemeral clientPublic signedText in
               if length key \<noteq> 32 then None else Some (SecureChannel_init sock key False)
           | _ \<Rightarrow> None))"
  unfolding accept_in_def accept_signs_def SecureChannel_accept_def Let_def
  by (auto split: prod.splits option.splits bool.splits)

lemma accept_signs_Some:
  assumes "accept_signs P identity run = Some (hello, eph, msg)"
  shows "fst (Socket_receiveFrame (ar_socket run)) = Some hello \<and> generateKeyPair (ar_keys run) = Some eph \<and>
    (\<exists>key. parseHello (ar_clock run 0) (ar_clock run 1) (split hello CHR ''|'') 4 = Some key) \<and>
    msg = transcript hello (helloFields (ar_clock run 2) eph (randomBytes 16 (ar_nonce run)))"
  using assms by (auto simp: accept_signs_def Let_def split: option.splits if_splits)

lemma server_fields:
  assumes "parseHello n1 n2 (split (''HELLO|'' @ helloFields now eph nonce @ ''|'' @ toHex sig) CHR ''|'') 5 = Some key"
  shows "split (''HELLO|'' @ helloFields now eph nonce @ ''|'' @ toHex sig) CHR ''|'' =
      [''HELLO'', toHex (kp_public eph), toHex nonce, to_string_int now, toHex sig]"
    and "key = kp_public eph"
proof -
  let ?t = "''HELLO|'' @ helloFields now eph nonce @ ''|'' @ toHex sig"
  have hex: "CHR ''|'' \<notin> set (toHex sig)"
    by (auto dest: toHex_chars)
  have split: "split ?t CHR ''|'' =
      ''HELLO'' # toHex (kp_public eph) # toHex nonce # split (to_string_int now) CHR ''|'' @ [toHex sig]"
  proof -
    have shape: "?t = (''HELLO|'' @ helloFields now eph nonce) @ CHR ''|'' # toHex sig"
      by simp
    show ?thesis
      unfolding shape split_append hello_split split_no_delim [OF hex] by simp
  qed
  with parseHello_Some [OF assms] have "length (split (to_string_int now) CHR ''|'') = 1"
    by simp
  then obtain x where "split (to_string_int now) CHR ''|'' = [x]"
    by (auto simp: length_Suc_conv)
  moreover from this have "x = to_string_int now"
    by (metis join.simps(2) join_split)
  ultimately show "split ?t CHR ''|'' = [''HELLO'', toHex (kp_public eph), toHex nonce, to_string_int now, toHex sig]"
    unfolding split by simp
  with parseHello_Some [OF assms] show "key = kp_public eph"
    by (simp add: fromHex_toHex)
qed

lemma client_fields:
  assumes "parseHello n1 n2 (split (''HELLO|'' @ helloFields now eph nonce) CHR ''|'') 4 = Some key"
  shows "key = kp_public eph"
  using parseHello_Some [OF assms] unfolding hello_split by (simp add: fromHex_toHex)

section \<open>Both ends of a connection\<close>

lemma channel_fields [simp]:
  "sc_key (SecureChannel_init s k b) = k" "sc_socket (SecureChannel_init s k b) = s"
  "sc_sendLabel (SecureChannel_init s k True) = ''client->tracker''"
  "sc_receiveLabel (SecureChannel_init s k True) = ''tracker->client''"
  "sc_sendLabel (SecureChannel_init s k False) = ''tracker->client''"
  "sc_receiveLabel (SecureChannel_init s k False) = ''client->tracker''"
  by (simp_all add: SecureChannel_init_def)

text \<open>X25519 of one side's private and the other side's public key is the same on both sides.\<close>

definition dh_agrees :: "platform \<Rightarrow> keygen \<Rightarrow> keygen \<Rightarrow> bool" where
  "dh_agrees P k1 k2 \<longleftrightarrow> (\<forall>a b. generateKeyPair k1 = Some a \<longrightarrow> generateKeyPair k2 = Some b \<longrightarrow>
     x25519SharedSecret P (kp_private a) (kp_public b) = x25519SharedSecret P (kp_private b) (kp_public a))"

lemma handshake_pairs:
  assumes connect: "SecureChannel_connect P kgC rC nowC sockC pk = Some c"
    and accept: "SecureChannel_accept P kgS rS nowS sockS sk = Some s"
    and wires: "so_out sockC = []" "so_out sockS = []"
      "so_in sockS = so_out (sc_socket c) @ moreC" "so_in sockC = so_out (sc_socket s) @ moreS"
    and dh: "dh_agrees P kgC kgS"
  shows "sc_key c = sc_key s \<and> so_in (sc_socket c) = moreS \<and> so_in (sc_socket s) = moreC"
proof -
  from connect obtain ephC sock1 reply sock2 serverPublic sig msg where
    C: "generateKeyPair kgC = Some ephC"
      "Socket_sendFrame sockC (''HELLO|'' @ helloFields (nowC 0) ephC (randomBytes 16 rC)) = (True, sock1)"
      "Socket_receiveFrame sock1 = (Some reply, sock2)"
      "parseHello (nowC 1) (nowC 2) (split reply CHR ''|'') 5 = Some serverPublic"
      "msg = transcript (''HELLO|'' @ helloFields (nowC 0) ephC (randomBytes 16 rC))
        (split reply CHR ''|'' ! 1 @ ''|'' @ split reply CHR ''|'' ! 2 @ ''|'' @ split reply CHR ''|'' ! 3)"
      "c = SecureChannel_init sock2 (sessionKey P ephC serverPublic msg) True"
    by (rule connect_Some)
  from accept obtain hello sock3 clientPublic ephS sig' sock4 msg' where
    S: "Socket_receiveFrame sockS = (Some hello, sock3)"
      "parseHello (nowS 0) (nowS 1) (split hello CHR ''|'') 4 = Some clientPublic"
      "generateKeyPair kgS = Some ephS"
      "msg' = transcript hello (helloFields (nowS 2) ephS (randomBytes 16 rS))"
      "Socket_sendFrame sock3 (''HELLO|'' @ helloFields (nowS 2) ephS (randomBytes 16 rS) @ ''|'' @ toHex sig') = (True, sock4)"
      "s = SecureChannel_init sock4 (sessionKey P ephS clientPublic msg') False"
    by (rule accept_Some)
  let ?hello = "''HELLO|'' @ helloFields (nowC 0) ephC (randomBytes 16 rC)"
  let ?fields = "helloFields (nowS 2) ephS (randomBytes 16 rS)"
  let ?reply = "''HELLO|'' @ ?fields @ ''|'' @ toHex sig'"
  note sentC = Socket_sendFrame_True [OF C(2)] and sentS = Socket_sendFrame_True [OF S(5)]
  have "so_out (sc_socket c) = frame_bytes ?hello"
    using C(6) sentC wires(1) Socket_receiveFrame_keeps [OF C(3)] by simp
  then have hello: "hello = ?hello" "so_in sock3 = moreC"
    using Socket_receiveFrame_sent [OF _ _ S(1)] sentC wires(3) by simp_all
  have "so_out (sc_socket s) = frame_bytes ?reply"
    using S(6) sentS wires(2) Socket_receiveFrame_keeps [OF S(1)] by simp
  then have reply: "reply = ?reply" "so_in sock2 = moreS"
    using Socket_receiveFrame_sent [OF _ _ C(3)] sentC sentS wires(4) by simp_all
  have keys: "serverPublic = kp_public ephS" "clientPublic = kp_public ephC"
    using server_fields(2) [OF C(4) [unfolded reply(1)]] client_fields [OF S(2) [unfolded hello(1)]] by simp_all
  have "msg = msg'"
    unfolding C(5) S(4) hello(1) reply(1) server_fields(1) [OF C(4) [unfolded reply(1)]]
    by (simp add: helloFields_def)
  with dh C(1,6) S(3,6) keys hello(2) reply(2) sentS show ?thesis
    by (simp add: sessionKey_def dh_agrees_def)
qed

section \<open>Sealed frames between them\<close>

lemma seal_receive:
  assumes gcm: "gcm_correct P"
    and keys: "sc_key a = sc_key b" "sc_sendLabel a = sc_receiveLabel b"
    and send: "SecureChannel_send P r a plain = (True, a')"
    and wire: "so_in (sc_socket b) = drop (length (so_out (sc_socket a))) (so_out (sc_socket a')) @ rest"
    and receive: "SecureChannel_receive P b = (Some got, b')"
  shows "got = plain \<and> so_in (sc_socket b') = rest \<and> so_out (sc_socket b') = so_out (sc_socket b)"
proof -
  let ?frame = "seal P r a plain"
  obtain sock where sock: "Socket_sendFrame (sc_socket a) ?frame = (True, sock)" "a' = a\<lparr>sc_socket := sock\<rparr>"
    using send by (auto simp: SecureChannel_send_def split: prod.splits)
  note sent = Socket_sendFrame_True [OF sock(1)]
  obtain f sock' where f: "Socket_receiveFrame (sc_socket b) = (Some f, sock')" "28 \<le> length f"
      "b' = b\<lparr>sc_socket := sock'\<rparr>" "decrypt P (sc_key b) (sc_receiveLabel b)
         \<lparr>gm_nonce = take 12 f, gm_ciphertext = drop 28 f, gm_tag = take 16 (drop 12 f)\<rparr> = Some got"
    using receive by (auto simp: SecureChannel_receive_def split: prod.splits option.splits if_splits)
  have "so_in (sc_socket b) = frame_bytes ?frame @ rest"
    using wire sent sock(2) by simp
  then have frame: "f = ?frame" "so_in sock' = rest"
    using Socket_receiveFrame_sent [OF _ _ f(1)] sent by blast+
  with f(2) obtain m where m: "encrypt P r (sc_key a) (sc_sendLabel a) plain = Some m"
      "?frame = gm_nonce m @ gm_tag m @ gm_ciphertext m"
    by (auto simp: seal_def split: option.splits)
  note lengths = encrypt_SomeD [OF m(1)]
  have "take 12 f = gm_nonce m" "take 16 (drop 12 f) = gm_tag m" "drop 28 f = gm_ciphertext m"
    using frame(1) m(2) lengths by simp_all
  then have "got = plain"
    using f(4) decrypt_encrypt [OF gcm m(1)] keys by (cases m) simp
  with frame(2) f(1,3) show ?thesis
    by simp
qed

text \<open>A failed encryption is not reported: \<open>seal\<close> gives no bytes and an empty frame goes out.\<close>

lemma send_without_encryption:
  assumes "encrypt P r (sc_key channel) (sc_sendLabel channel) plain = None"
  shows "SecureChannel_send P r channel plain =
    (let (ok, sock) = Socket_sendFrame (sc_socket channel) [] in (ok, channel\<lparr>sc_socket := sock\<rparr>))"
  using assms by (simp add: SecureChannel_send_def seal_def)

end
