(* ===== verification/Tracker_Client.thy ===== *)
theory Tracker_Client
  imports Config Secure_Channel Peer_Ticket File_Metadata
begin

text \<open>
  \<open>client/tracker_client.cpp\<close>: the client's session with the tracker, the two commands whose
  replies it interprets, and the message format around them.
\<close>

record TrackerClient =
  tc_config :: ClientConfig
  tc_self :: Endpoint
  tc_peerKey :: string
  tc_session :: u64

definition TrackerClient_init :: "ClientConfig \<Rightarrow> Endpoint \<Rightarrow> string \<Rightarrow> TrackerClient" where
  "TrackerClient_init config self peerKey = \<lparr>tc_config = config, tc_self = self, tc_peerKey = peerKey, tc_session = 0\<rparr>"

text \<open>\<open>rfind('\t')\<close> and the two parts around it.\<close>

definition split_last_tab :: "string \<Rightarrow> (string \<times> string) option" where
  "split_last_tab s =
     (case dropWhile (\<lambda>c. c \<noteq> TAB) (rev s) of
        [] \<Rightarrow> None
      | _ # before \<Rightarrow> Some (rev before, rev (takeWhile (\<lambda>c. c \<noteq> TAB) (rev s))))"

text \<open>\<open>(tracker answered, response, client)\<close>.\<close>

definition TrackerClient_request ::
  "platform \<Rightarrow> call_env \<Rightarrow> TrackerClient \<Rightarrow> string \<Rightarrow> bool \<times> string \<times> TrackerClient" where
  "TrackerClient_request P env tc command =
     (let message = ''C'' @ [TAB] @ to_string_u64 (tc_session tc) @ [TAB] @ command in
      case callTracker P env (cc_trackerPublicKey (tc_config tc)) message of
        None \<Rightarrow> (False, ''ERR tracker unavailable'', tc)
      | Some (response, _) \<Rightarrow>
          (case split_last_tab response of
             None \<Rightarrow> (False, ''ERR invalid tracker reply'', tc)
           | Some (text, tail) \<Rightarrow>
               (case parseU64 tail of
                  None \<Rightarrow> (False, ''ERR invalid tracker reply'', tc)
                | Some session \<Rightarrow> (True, text, tc\<lparr>tc_session := session\<rparr>))))"

definition shareCommand :: "TrackerClient \<Rightarrow> string \<Rightarrow> string \<Rightarrow> FileMetadata \<Rightarrow> string" where
  "shareCommand tc gname name metadata =
     ''upload_file '' @ gname @ '' '' @ toHex name @ '' '' @ to_string_u64 (fm_size metadata) @ '' '' @
     fm_fullHash metadata @ '' '' @ pieceHashList metadata @ '' '' @ ep_ip (tc_self tc) @ '' '' @
     to_string_int (ep_port (tc_self tc)) @ '' '' @ toHex (tc_peerKey tc)"

definition TrackerClient_share ::
  "platform \<Rightarrow> call_env \<Rightarrow> TrackerClient \<Rightarrow> string \<Rightarrow> string \<Rightarrow> FileMetadata \<Rightarrow> bool \<times> string \<times> TrackerClient" where
  "TrackerClient_share P env tc gname name metadata =
     TrackerClient_request P env tc (shareCommand tc gname name metadata)"

text \<open>What \<open>locate\<close> makes of a reply: the metadata and the seeders, or the error to show.\<close>

definition readMeta :: "platform \<Rightarrow> string \<Rightarrow> string + (FileMetadata \<times> SeederAccess list)" where
  "readMeta P response =
     (let parts = words_of response in
      if length parts \<noteq> 5 then Inl ''ERR invalid tracker metadata''
      else case parseU64 (parts ! 1) of
        None \<Rightarrow> Inl ''ERR invalid tracker metadata''
      | Some sz \<Rightarrow>
          let metadata = \<lparr>fm_size = sz, fm_fullHash = parts ! 2, fm_pieceHashes = parsePieceHashList (parts ! 3)\<rparr> in
          if \<not> valid metadata then Inl ''ERR invalid tracker metadata''
          else
            let seeders = List.map_filter (SeederAccess_decode P) (split (parts ! 4) CHR '','') in
            if seeders = [] then Inl ''ERR no valid peer endpoints'' else Inr (metadata, seeders))"

definition locateCommand :: "string \<Rightarrow> string \<Rightarrow> string" where
  "locateCommand gname name = ''download_file '' @ gname @ '' '' @ toHex name"

definition TrackerClient_locate ::
  "platform \<Rightarrow> call_env \<Rightarrow> TrackerClient \<Rightarrow> string \<Rightarrow> string \<Rightarrow>
     (string + (FileMetadata \<times> SeederAccess list)) \<times> TrackerClient" where
  "TrackerClient_locate P env tc gname name =
     (case TrackerClient_request P env tc (locateCommand gname name) of
        (ok, response, tc') \<Rightarrow>
          (if \<not> ok \<or> \<not> starts_with response ''META '' then Inl response else readMeta P response, tc'))"

lemma split_last_tab_append:
  assumes "TAB \<notin> set b"
  shows "split_last_tab (a @ TAB # b) = Some (a, b)"
  using assms by (simp add: split_last_tab_def dropWhile_upto takeWhile_upto)

lemma read_reply: "split_last_tab (a @ [TAB] @ to_string_u64 s) = Some (a, to_string_u64 s)"
proof -
  have "TAB \<notin> set (to_string_u64 s)"
    by (auto dest: to_string_u64_chars)
  then show ?thesis by (simp add: split_last_tab_append)
qed

end
