(* ===== verification/Download.thy ===== *)
theory Download
  imports Peer_Client Tracker_Client
begin

text \<open>
  \<open>client/download/download.cpp\<close>: one download, from the resume check to the verified final file.
  This theory has the state of a \<open>Download\<close> and every method that runs on a single thread; the worker
  threads of \<open>fetchPieces\<close> are in the theory of the transfer.  Everything outside the process is an
  argument: results of system calls, the clock, what peers and the tracker send.
\<close>

definition MAX_THREADS :: nat where "MAX_THREADS = 8"
definition PASSES_PER_PIECE :: nat where "PASSES_PER_PIECE = 3"
definition TICKET_MARGIN_SECONDS :: int where "TICKET_MARGIN_SECONDS = 60"

record Download =
  dl_group :: string
  dl_name :: string
  dl_destination :: string
  dl_metadata :: FileMetadata
  dl_seeders :: "SeederAccess list"
  dl_verified :: "bool list"
  dl_bitmaps :: "bool list list"
  dl_rarity :: "nat list"
  dl_cancelled :: bool
  dl_finished :: bool
  dl_failed :: bool
  dl_reason :: string
  dl_completed :: nat
  dl_resumed :: nat
  dl_integrity :: nat

definition Download_init :: "string \<Rightarrow> string \<Rightarrow> string \<Rightarrow> FileMetadata \<Rightarrow> SeederAccess list \<Rightarrow> Download" where
  "Download_init gname name destination metadata seeders =
     \<lparr>dl_group = gname, dl_name = name, dl_destination = destination, dl_metadata = metadata, dl_seeders = seeders,
      dl_verified = [], dl_bitmaps = [], dl_rarity = [], dl_cancelled = False, dl_finished = False, dl_failed = False,
      dl_reason = [], dl_completed = 0, dl_resumed = 0, dl_integrity = 0\<rparr>"

definition partPath :: "Download \<Rightarrow> string" where
  "partPath dl = dl_destination dl @ ''.part''"

definition Download_cancel :: "Download \<Rightarrow> Download" where
  "Download_cancel dl = dl\<lparr>dl_cancelled := True\<rparr>"

definition Download_finish :: "bool \<Rightarrow> string \<Rightarrow> Download \<Rightarrow> Download" where
  "Download_finish failed reason dl = dl\<lparr>dl_reason := reason, dl_failed := failed, dl_finished := True\<rparr>"

definition Download_state :: "Download \<Rightarrow> char" where
  "Download_state dl = (if dl_finished dl then if dl_failed dl then CHR ''F'' else CHR ''C'' else CHR ''D'')"

definition show_nat :: "nat \<Rightarrow> string" where
  "show_nat n = to_string_int (int n)"

definition printSummary :: "Download \<Rightarrow> string" where
  "printSummary dl =
     ''['' @ [Download_state dl] @ ''] ['' @ dl_group dl @ ''] '' @ dl_name dl @
     (if Download_state dl = CHR ''D''
      then '' ('' @ show_nat (dl_completed dl) @ ''/'' @ show_nat (pieceCount (dl_metadata dl)) @ '' pieces)'' else []) @
     '' resumed='' @ show_nat (dl_resumed dl) @ '' integrity-failures='' @ show_nat (dl_integrity dl) @
     (if dl_failed dl \<and> dl_reason dl \<noteq> [] then '' reason='' @ [CHR 0x22] @ dl_reason dl @ [CHR 0x22] else []) @ [NL]"

section \<open>Tickets that are about to expire\<close>

text \<open>The inner loop over the fresh accesses: the last one for this endpoint wins.\<close>

definition renewed :: "SeederAccess list \<Rightarrow> SeederAccess \<Rightarrow> SeederAccess" where
  "renewed fresh current =
     foldl (\<lambda>cur update. if sa_endpoint update = sa_endpoint cur then update else cur) current fresh"

text \<open>\<open>now\<close> is the clock reading, \<open>env\<close> what the call to the tracker meets if it is made.\<close>

definition seederAt ::
  "platform \<Rightarrow> int \<Rightarrow> call_env \<Rightarrow> TrackerClient \<Rightarrow> nat \<Rightarrow> Download \<Rightarrow> SeederAccess \<times> TrackerClient \<times> Download" where
  "seederAt P now env tc index dl =
     (if SeederAccess_expires (dl_seeders dl ! index) - now < TICKET_MARGIN_SECONDS
      then case TrackerClient_locate P env tc (dl_group dl) (dl_name dl) of
        (Inl error, tc') \<Rightarrow> (dl_seeders dl ! index, tc', dl)
      | (Inr (ignored, fresh), tc') \<Rightarrow>
          let seeders = map (renewed fresh) (dl_seeders dl) in (seeders ! index, tc', dl\<lparr>dl_seeders := seeders\<rparr>)
      else (dl_seeders dl ! index, tc, dl))"

section \<open>Resuming\<close>

record prepare_env =
  pp_opens :: bool
  pp_truncates :: bool
  pp_reads :: "nat \<Rightarrow> io_event list"

text \<open>Piece \<open>piece\<close> is in the file and matches its hash.\<close>

definition piece_checks :: "platform \<Rightarrow> io_event list \<Rightarrow> string \<Rightarrow> FileMetadata \<Rightarrow> nat \<Rightarrow> bool" where
  "piece_checks P evs content m piece =
     (case PieceFile_read evs content (of_nat piece) (unat (pieceLength m (of_nat piece))) of
        None \<Rightarrow> False
      | Some data \<Rightarrow> sha1Hex P data = fm_pieceHashes m ! piece)"

definition Download_prepare ::
  "platform \<Rightarrow> prepare_env \<Rightarrow> file_system \<Rightarrow> Download \<Rightarrow> bool \<times> file_system \<times> Download" where
  "Download_prepare P env fs dl =
     (let path = partPath dl; m = dl_metadata dl; existing = fs_files fs path; resuming = (existing \<noteq> None) in
      case PieceFile_openForWriting (pp_opens env) (pp_truncates env) existing (fm_size m) True of
        None \<Rightarrow>
          (False, (if pp_opens env \<and> \<not> resuming then write_file path [] fs else fs),
           Download_finish True ''unable to create destination file'' dl)
      | Some content \<Rightarrow>
          let verified = map (\<lambda>piece. resuming \<and> piece_checks P (pp_reads env piece) content m piece) [0..<pieceCount m];
              resumed = length (filter id verified) in
          (True, write_file path content fs,
           dl\<lparr>dl_verified := verified, dl_resumed := dl_resumed dl + resumed, dl_completed := dl_resumed dl + resumed\<rparr>))"

section \<open>Who has what\<close>

record bitmap_env =
  be_now :: int
  be_locate :: call_env
  be_peer :: peer_env

definition add_bitmap :: "nat list \<Rightarrow> bool list \<Rightarrow> nat list" where
  "add_bitmap rarity bits =
     map (\<lambda>piece. rarity ! piece + (if piece < length bits \<and> bits ! piece then 1 else 0)) [0..<length rarity]"

definition fetch_bitmap :: "platform \<Rightarrow> (nat \<Rightarrow> bitmap_env) \<Rightarrow> TrackerClient \<times> Download \<Rightarrow> nat \<Rightarrow> TrackerClient \<times> Download" where
  "fetch_bitmap P env s seeder =
     (case s of (tc, dl) \<Rightarrow>
        (case seederAt P (be_now (env seeder)) (be_locate (env seeder)) tc seeder dl of
           (access, tc', dl') \<Rightarrow>
             (case PeerClient_fetchBitmap P (be_peer (env seeder)) access (pieceCount (dl_metadata dl)) of
                (result, bits) \<Rightarrow>
                  if result \<noteq> Success then (tc', dl')
                  else (tc', dl'\<lparr>dl_bitmaps := (dl_bitmaps dl')[seeder := bits], dl_rarity := add_bitmap (dl_rarity dl') bits\<rparr>))))"

definition Download_fetchBitmaps ::
  "platform \<Rightarrow> (nat \<Rightarrow> bitmap_env) \<Rightarrow> TrackerClient \<Rightarrow> Download \<Rightarrow> TrackerClient \<times> Download" where
  "Download_fetchBitmaps P env tc dl =
     foldl (fetch_bitmap P env)
       (tc, dl\<lparr>dl_bitmaps := replicate (length (dl_seeders dl)) [], dl_rarity := replicate (pieceCount (dl_metadata dl)) 0\<rparr>)
       [0..<length (dl_seeders dl)]"

definition rarestFirst :: "Download \<Rightarrow> nat list" where
  "rarestFirst dl =
     sort_key (\<lambda>piece. dl_rarity dl ! piece) (filter (\<lambda>piece. \<not> dl_verified dl ! piece) [0..<length (dl_verified dl)])"

definition holders :: "Download \<Rightarrow> nat \<Rightarrow> nat list" where
  "holders dl piece =
     filter (\<lambda>seeder. piece < length (dl_bitmaps dl ! seeder) \<and> dl_bitmaps dl ! seeder ! piece) [0..<length (dl_seeders dl)]"

section \<open>The last step\<close>

record complete_env =
  co_bad :: bool
  co_renames :: bool
  co_share :: call_env

definition rename_file :: "string \<Rightarrow> string \<Rightarrow> file_system \<Rightarrow> file_system" where
  "rename_file old new fs = fs\<lparr>fs_files := (fs_files fs)(new := fs_files fs old, old := None)\<rparr>"

definition markVerified :: "nat \<Rightarrow> Download \<times> shared_files \<Rightarrow> Download \<times> shared_files" where
  "markVerified piece s =
     (case s of (dl, files) \<Rightarrow>
        (dl\<lparr>dl_completed := dl_completed dl + 1\<rparr>, SharedFiles_markAvailable (dl_group dl) (dl_name dl) piece files))"

definition Download_complete ::
  "platform \<Rightarrow> complete_env \<Rightarrow> TrackerClient \<Rightarrow> file_system \<Rightarrow> shared_files \<Rightarrow> Download \<Rightarrow>
     TrackerClient \<times> file_system \<times> shared_files \<times> Download" where
  "Download_complete P env tc fs files dl =
     (let m = dl_metadata dl in
      case PieceFile_hash P (fs_files fs (partPath dl)) (co_bad env) of
        None \<Rightarrow> (tc, fs, files, Download_finish True ''final file hashing failed'' dl)
      | Some actual \<Rightarrow>
          if fm_size actual \<noteq> fm_size m \<or> fm_fullHash actual \<noteq> fm_fullHash m
          then (tc, fs, files, Download_finish True ''final SHA1 integrity check failed'' dl)
          else if \<not> co_renames env
          then (tc, fs, files, Download_finish True ''unable to move completed file into place'' dl)
          else
            let fs' = rename_file (partPath dl) (dl_destination dl) fs;
                (ok, ignored, tc') = TrackerClient_share P (co_share env) tc (dl_group dl) (dl_name dl) m;
                whole = \<lparr>lf_path = dl_destination dl, lf_metadata = m, lf_available = replicate (pieceCount m) True\<rparr> in
            (tc', fs', SharedFiles_add (dl_group dl) (dl_name dl) whole files, Download_finish False [] dl))"

end
