(* ===== verification/Piece_Transfer.thy ===== *)
theory Piece_Transfer
  imports Download
begin

text \<open>
  The worker threads of \<open>Download::fetchPieces\<close> and \<open>Download::fetchPiece\<close>, interleaved with each other,
  with \<open>cancel\<close> and with what other threads of the client do to the shared table and the session.  One step of a worker is one
  access to what the threads share: the cancellation flag, the next position, the seeder list, the
  file, a counter, the shared table.  A schedule is the list of steps in the order they happened, with
  what each of them met.
\<close>

section \<open>The threads\<close>

datatype worker =
    W_loop                            \<comment> \<open>about to test the flag in the loop condition\<close>
  | W_next                            \<comment> \<open>about to take a position\<close>
  | W_attempt nat nat                 \<comment> \<open>about to test for another attempt at a position\<close>
  | W_seeder nat nat                  \<comment> \<open>about to ask for the seeder's access\<close>
  | W_fetch nat nat SeederAccess      \<comment> \<open>about to fetch and write the piece\<close>
  | W_count nat                       \<comment> \<open>about to count the piece\<close>
  | W_publish nat                     \<comment> \<open>about to publish it\<close>
  | W_lost                            \<comment> \<open>every attempt failed or the flag was set\<close>
  | W_fail                            \<comment> \<open>about to record the failure\<close>
  | W_done

record transfer =
  tr_download :: Download
  tr_next :: nat
  tr_failed :: bool
  tr_file :: string
  tr_shared :: shared_files
  tr_tracker :: TrackerClient
  tr_workers :: "worker list"

text \<open>What one step meets: the clock, the tracker, the peer, the writes.\<close>

record step_env =
  st_now :: int
  st_locate :: call_env
  st_peer :: peer_env
  st_writes :: "io_event list"

definition attempts :: "Download \<Rightarrow> nat \<Rightarrow> nat" where
  "attempts dl piece = PASSES_PER_PIECE * length (holders dl piece)"

definition attempt_seeder :: "Download \<Rightarrow> nat \<Rightarrow> nat \<Rightarrow> nat" where
  "attempt_seeder dl piece attempt = holders dl piece ! ((piece + attempt) mod length (holders dl piece))"

text \<open>The fetch and the write of one attempt, and where the worker goes on.\<close>

definition fetch_step ::
  "platform \<Rightarrow> nat list \<Rightarrow> step_env \<Rightarrow> nat \<Rightarrow> nat \<Rightarrow> SeederAccess \<Rightarrow> transfer \<Rightarrow> worker \<times> transfer" where
  "fetch_step P order env position attempt access t =
     (let dl = tr_download t; piece = order ! position in
      case PeerClient_fetchPiece P (st_peer env) access (of_nat piece) (fm_pieceHashes (dl_metadata dl) ! piece) of
        (result, data) \<Rightarrow>
          if result = Success
          then case PieceFile_write (st_writes env) (tr_file t) (of_nat piece) data of
            (ok, written) \<Rightarrow> (if ok then W_count position else W_attempt position (attempt + 1), t\<lparr>tr_file := written\<rparr>)
          else (W_attempt position (attempt + 1),
            if result = IntegrityFailure then t\<lparr>tr_download := dl\<lparr>dl_integrity := dl_integrity dl + 1\<rparr>\<rparr> else t))"

definition worker_step :: "platform \<Rightarrow> nat list \<Rightarrow> step_env \<Rightarrow> worker \<Rightarrow> transfer \<Rightarrow> worker \<times> transfer" where
  "worker_step P order env w t =
     (let dl = tr_download t in
      case w of
        W_loop \<Rightarrow> (if dl_cancelled dl then W_done else W_next, t)
      | W_next \<Rightarrow> (if tr_next t < length order then W_attempt (tr_next t) 0 else W_done, t\<lparr>tr_next := tr_next t + 1\<rparr>)
      | W_attempt position attempt \<Rightarrow>
          (if attempt < attempts dl (order ! position) \<and> \<not> dl_cancelled dl then W_seeder position attempt else W_lost, t)
      | W_seeder position attempt \<Rightarrow>
          (case seederAt P (st_now env) (st_locate env) (tr_tracker t) (attempt_seeder dl (order ! position) attempt) dl of
             (access, tc', dl') \<Rightarrow> (W_fetch position attempt access, t\<lparr>tr_tracker := tc', tr_download := dl'\<rparr>))
      | W_fetch position attempt access \<Rightarrow> fetch_step P order env position attempt access t
      | W_count position \<Rightarrow> (W_publish position, t\<lparr>tr_download := fst (markVerified (order ! position) (dl, tr_shared t))\<rparr>)
      | W_publish position \<Rightarrow> (W_loop, t\<lparr>tr_shared := snd (markVerified (order ! position) (dl, tr_shared t))\<rparr>)
      | W_lost \<Rightarrow> (if dl_cancelled dl then W_loop else W_fail, t)
      | W_fail \<Rightarrow> (W_loop, t\<lparr>tr_failed := True\<rparr>)
      | W_done \<Rightarrow> (W_done, t))"

text \<open>What else happens meanwhile: the user cancels; other threads of the client - the prompt and other
  downloads - drop, add or mark shared files and use the session with the tracker.\<close>

datatype event =
    Ev_step nat step_env
  | Ev_cancel
  | Ev_remove string string
  | Ev_removeGroup string
  | Ev_clear
  | Ev_add string string LocalFile
  | Ev_mark string string nat
  | Ev_request call_env string

definition transfer_step :: "platform \<Rightarrow> nat list \<Rightarrow> transfer \<Rightarrow> event \<Rightarrow> transfer" where
  "transfer_step P order t ev =
     (case ev of
        Ev_step i env \<Rightarrow>
          if i < length (tr_workers t)
          then case worker_step P order env (tr_workers t ! i) t of
            (w', t') \<Rightarrow> t'\<lparr>tr_workers := (tr_workers t)[i := w']\<rparr>
          else t
      | Ev_cancel \<Rightarrow> t\<lparr>tr_download := Download_cancel (tr_download t)\<rparr>
      | Ev_remove gname name \<Rightarrow> t\<lparr>tr_shared := SharedFiles_remove gname name (tr_shared t)\<rparr>
      | Ev_removeGroup gname \<Rightarrow> t\<lparr>tr_shared := SharedFiles_removeGroup gname (tr_shared t)\<rparr>
      | Ev_clear \<Rightarrow> t\<lparr>tr_shared := SharedFiles_clear (tr_shared t)\<rparr>
      | Ev_add gname name file \<Rightarrow> t\<lparr>tr_shared := SharedFiles_add gname name file (tr_shared t)\<rparr>
      | Ev_mark gname name piece \<Rightarrow> t\<lparr>tr_shared := SharedFiles_markAvailable gname name piece (tr_shared t)\<rparr>
      | Ev_request env command \<Rightarrow> t\<lparr>tr_tracker := snd (snd (TrackerClient_request P env (tr_tracker t) command))\<rparr>)"

definition transfer_run :: "platform \<Rightarrow> nat list \<Rightarrow> event list \<Rightarrow> transfer \<Rightarrow> transfer" where
  "transfer_run P order evs t = foldl (transfer_step P order) t evs"

text \<open>The start of \<open>fetchPieces\<close>, and the condition under which every \<open>join\<close> returns.\<close>

definition fetch_start :: "nat list \<Rightarrow> TrackerClient \<Rightarrow> string \<Rightarrow> shared_files \<Rightarrow> Download \<Rightarrow> transfer" where
  "fetch_start order tc content files dl =
     \<lparr>tr_download = dl, tr_next = 0, tr_failed = False, tr_file = content, tr_shared = files, tr_tracker = tc,
      tr_workers = replicate (min MAX_THREADS (min (length (dl_seeders dl)) (length order))) W_loop\<rparr>"

definition joined_all :: "transfer \<Rightarrow> bool" where
  "joined_all t \<longleftrightarrow> list_all (\<lambda>w. w = W_done) (tr_workers t)"

section \<open>The whole run\<close>

record run_env =
  rn_prepare :: prepare_env
  rn_bitmaps :: "nat \<Rightarrow> bitmap_env"
  rn_share :: call_env
  rn_schedule :: "event list"
  rn_complete :: complete_env

text \<open>Up to the start of the workers: a download that cannot proceed, or the order of the missing
  pieces and the state the workers start in.\<close>

definition Download_begin ::
  "platform \<Rightarrow> run_env \<Rightarrow> TrackerClient \<Rightarrow> file_system \<Rightarrow> shared_files \<Rightarrow> Download \<Rightarrow>
     (file_system \<times> Download) + (file_system \<times> nat list \<times> transfer)" where
  "Download_begin P env tc fs files dl =
     (case Download_prepare P (rn_prepare env) fs dl of
        (False, fs1, dl1) \<Rightarrow> Inl (fs1, dl1)
      | (True, fs1, dl1) \<Rightarrow>
          (case Download_fetchBitmaps P (rn_bitmaps env) tc dl1 of
             (tc2, dl2) \<Rightarrow>
               let part = \<lparr>lf_path = partPath dl2, lf_metadata = dl_metadata dl2, lf_available = dl_verified dl2\<rparr>;
                   files2 = SharedFiles_add (dl_group dl2) (dl_name dl2) part files;
                   (ok, ignored, tc3) = TrackerClient_share P (rn_share env) tc2 (dl_group dl2) (dl_name dl2) (dl_metadata dl2);
                   order = rarestFirst dl2 in
               Inr (fs1, order, fetch_start order tc3 (the (fs_files fs1 (partPath dl2))) files2 dl2)))"

text \<open>From the last \<open>join\<close> on; the file is closed and what the workers wrote is on disk.\<close>

definition Download_end ::
  "platform \<Rightarrow> complete_env \<Rightarrow> file_system \<Rightarrow> transfer \<Rightarrow> TrackerClient \<times> file_system \<times> shared_files \<times> Download" where
  "Download_end P env fs t =
     (let dl = tr_download t; fs' = write_file (partPath dl) (tr_file t) fs in
      if dl_cancelled dl
      then (tr_tracker t, fs', tr_shared t, Download_finish True ''cancelled by user; partial file kept for resume'' dl)
      else if tr_failed t
      then (tr_tracker t, fs', tr_shared t, Download_finish True ''one or more pieces could not be reconstructed'' dl)
      else Download_complete P env (tr_tracker t) fs' (tr_shared t) dl)"

text \<open>\<open>Download::run\<close>; \<^const>\<open>None\<close> when the schedule ends before every worker does.\<close>

definition Download_run ::
  "platform \<Rightarrow> run_env \<Rightarrow> TrackerClient \<Rightarrow> file_system \<Rightarrow> shared_files \<Rightarrow> Download \<Rightarrow>
     (TrackerClient \<times> file_system \<times> shared_files \<times> Download) option" where
  "Download_run P env tc fs files dl =
     (case Download_begin P env tc fs files dl of
        Inl (fs1, dl1) \<Rightarrow> Some (tc, fs1, files, dl1)
      | Inr (fs1, order, t0) \<Rightarrow>
          let t = transfer_run P order (rn_schedule env) t0 in
          if joined_all t then Some (Download_end P (rn_complete env) fs1 t) else None)"

lemma begin_start:
  assumes "Download_begin P env tc fs files dl = Inr (fs1, order, t0)"
  obtains tc3 content files2 dl2 where "t0 = fetch_start order tc3 content files2 dl2"
  using assms by (auto simp: Download_begin_def Let_def split: prod.splits bool.splits)

end
