(* ===== verification/Piece_Writes.thy ===== *)
theory Piece_Writes
  imports Piece_File
begin

text \<open>
  What writing one piece of a file leaves of it: the piece itself, if every byte was written, and
  every other piece in any case.
\<close>

lemma pwrite_loop_part:
  "pwrite_loop evs content offset data = (ok, content') \<Longrightarrow> 0 \<le> offset \<Longrightarrow>
     content' = content \<or> (\<exists>k. 0 < k \<and> k \<le> length data \<and> content' = write_at (nat offset) (take k data) content)"
proof (induction evs content offset data arbitrary: ok content' rule: pwrite_loop.induct)
  case (5 n evs content offset c data)
  define count where "count = min n (length (c # data))"
  have step: "pwrite_loop (Io_count n # evs) content offset (c # data) = (if count = 0 \<or> offset < 0 then (False, content)
      else pwrite_loop evs (write_at (nat offset) (take count (c # data)) content) (offset + int count) (drop count (c # data)))"
    by (simp only: pwrite_loop.simps Let_def count_def)
  show ?case
  proof (cases "count = 0 \<or> offset < 0")
    case False
    let ?c1 = "write_at (nat offset) (take count (c # data)) content"
    have go: "pwrite_loop evs ?c1 (offset + int count) (drop count (c # data)) = (ok, content')"
      using "5.prems"(1) step False by simp
    have le: "count \<le> length (c # data)" "0 < count"
      using False by (simp_all add: count_def)
    have off: "nat (offset + int count) = nat offset + length (take count (c # data))"
      using "5.prems"(2) le by (simp add: nat_add_distrib)
    have "content' = ?c1 \<or> (\<exists>k. 0 < k \<and> k \<le> length (drop count (c # data)) \<and>
        content' = write_at (nat (offset + int count)) (take k (drop count (c # data))) ?c1)"
      by (rule "5.IH" [OF count_def False go]) (use "5.prems"(2) in simp)
    then show ?thesis
    proof
      assume "content' = ?c1"
      then show ?thesis
        using le by blast
    next
      assume "\<exists>k. 0 < k \<and> k \<le> length (drop count (c # data)) \<and>
        content' = write_at (nat (offset + int count)) (take k (drop count (c # data))) ?c1"
      then obtain k where k: "0 < k" "k \<le> length (drop count (c # data))"
          "content' = write_at (nat offset) (take count (c # data) @ take k (drop count (c # data))) content"
        unfolding off write_at_again by blast
      have "content' = write_at (nat offset) (take (count + k) (c # data)) content"
        using k(3) by (simp only: take_add)
      moreover have "0 < count + k" "count + k \<le> length (c # data)"
        using k(1,2) le by (simp_all only: length_drop)
      ultimately show ?thesis
        by blast
    qed
  qed (use "5.prems" step in simp)
qed auto

lemma length_write_at: "off + length data \<le> length content \<Longrightarrow> length (write_at off data content) = length content"
  by (simp add: write_at_def)

definition piece_bytes :: "FileMetadata \<Rightarrow> string \<Rightarrow> nat \<Rightarrow> string" where
  "piece_bytes m content piece = take (unat (pieceLength m (of_nat piece))) (drop (piece * 524288) content)"

definition sized :: "FileMetadata \<Rightarrow> bool" where
  "sized m \<longleftrightarrow> valid m \<and> unat (fm_size m) < 2 ^ 63"

lemma piece_index:
  assumes "sized m" "q < pieceCount m"
  shows "unat (of_nat q :: u64) = q" "q < unat (pieceCountForSize (fm_size m))"
    "unat (pieceLength m (of_nat q)) = min 524288 (unat (fm_size m) - q * 524288)" "q * 524288 < unat (fm_size m)"
    "pieceOffset (of_nat q) = int (q * 524288)"
proof -
  show q: "q < unat (pieceCountForSize (fm_size m))"
    using assms by (simp add: sized_def valid_def pieceCount_def)
  then have "q < 2 ^ 64"
    using unsigned_less [of "pieceCountForSize (fm_size m)", where ?'a = nat] by simp
  then show u: "unat (of_nat q :: u64) = q"
    by (simp add: unat_of_nat)
  with q have q': "unat (of_nat q :: u64) < unat (pieceCountForSize (fm_size m))"
    by simp
  show "unat (pieceLength m (of_nat q)) = min 524288 (unat (fm_size m) - q * 524288)"
    using unat_pieceLength [OF q'] u by simp
  show "q * 524288 < unat (fm_size m)"
    using unat_pieceOffset(2) [OF q'] u by simp
  show "pieceOffset (of_nat q) = int (q * 524288)"
    using pieceOffset_piece [OF q'] assms(1) u by (simp add: sized_def)
qed

lemma write_piece:
  assumes "sized m" "q < pieceCount m" "length content = unat (fm_size m)" "length data = unat (pieceLength m (of_nat q))"
    and "PieceFile_write evs content (of_nat q) data = (ok, content')"
  shows "length content' = length content" "r < pieceCount m \<Longrightarrow> r \<noteq> q \<Longrightarrow> piece_bytes m content' r = piece_bytes m content r"
    "ok \<Longrightarrow> piece_bytes m content' q = data"
proof -
  note q = piece_index [OF assms(1,2)]
  have len: "length data \<le> 524288" "q * 524288 + length data \<le> length content" "data \<noteq> []"
    using q assms(3,4) by auto
  have written: "content' = content \<or> (\<exists>k. 0 < k \<and> k \<le> length data \<and> content' = write_at (q * 524288) (take k data) content)"
    using pwrite_loop_part [OF assms(5) [unfolded PieceFile_write_def]] unfolding q(5) by (simp only: nat_int of_nat_0_le_iff)
  then show "length content' = length content"
    using len by (auto intro!: length_write_at)
  show "piece_bytes m content' r = piece_bytes m content r" if r: "r < pieceCount m" "r \<noteq> q"
  proof -
    have sep: "r * 524288 + unat (pieceLength m (of_nat r)) \<le> q * 524288 \<or> q * 524288 + length (take k data) \<le> r * 524288" for k
      using piece_index(3) [OF assms(1) r(1)] len(1) r(2) by (cases r q rule: linorder_cases) auto
    show ?thesis
      using written read_elsewhere [OF sep] len(2) by (auto simp: piece_bytes_def)
  qed
  show "piece_bytes m content' q = data" if ok
  proof -
    have "pwrite_loop evs content (int (q * 524288)) data = (True, content')"
      using assms(5) that by (simp only: PieceFile_write_def q(5))
    from pwrite_loop_True [OF this _ len(3)] have "content' = write_at (q * 524288) data content"
      by (simp only: nat_int of_nat_0_le_iff)
    then show ?thesis
      using read_written [of data "q * 524288" content] assms(4) by (simp add: piece_bytes_def)
  qed
qed

text \<open>A write that the kernel takes in one go, and a read of what is there.\<close>

lemma write_at_once:
  assumes "data \<noteq> []" "0 \<le> pieceOffset i"
  shows "PieceFile_write [Io_count (length data)] content i data = (True, write_at (nat (pieceOffset i)) data content)"
  using assms by (cases data) (simp_all add: PieceFile_write_def)

lemma read_at_once:
  assumes "0 < len" "0 \<le> pieceOffset i" "nat (pieceOffset i) + len \<le> length content"
  shows "PieceFile_read [Io_count len] content i len = Some (take len (drop (nat (pieceOffset i)) content))"
  using assms by (cases len) (simp_all add: PieceFile_read_def Let_def)

end
