(* ===== verification/Transfer_Invariant.thy ===== *)
theory Transfer_Invariant
  imports Piece_Transfer Piece_Writes
begin

text \<open>
  What every interleaving of the workers keeps: a position is held by one worker at most, no piece is
  written once it was published, and what is published matches its hash.
\<close>

section \<open>Positions\<close>

fun writing :: "worker \<Rightarrow> nat option" where
  "writing (W_attempt p k) = Some p"
| "writing (W_seeder p k) = Some p"
| "writing (W_fetch p k a) = Some p"
| "writing _ = None"

fun landed :: "worker \<Rightarrow> nat option" where
  "landed (W_count p) = Some p"
| "landed (W_publish p) = Some p"
| "landed _ = None"

definition held :: "worker \<Rightarrow> nat option" where
  "held w = (case writing w of Some p \<Rightarrow> Some p | None \<Rightarrow> landed w)"

lemma held_simps [simp]:
  "held W_loop = None" "held W_next = None" "held (W_attempt p k) = Some p" "held (W_seeder p k) = Some p"
  "held (W_fetch p k a) = Some p" "held (W_count p) = Some p" "held (W_publish p) = Some p" "held W_lost = None"
  "held W_fail = None" "held W_done = None"
  by (simp_all add: held_def)

lemma held_writing: "writing w = Some p \<Longrightarrow> held w = Some p"
  by (simp add: held_def)

lemma held_landed: "landed w = Some p \<Longrightarrow> held w = Some p"
  by (cases w) simp_all

lemmas seederAt_cases = prod.split sum.split if_split

lemma seederAt_keeps:
  "seederAt P now env tc i dl = (a, tc', dl') \<Longrightarrow>
     dl' = dl\<lparr>dl_seeders := dl_seeders dl'\<rparr> \<and> length (dl_seeders dl') = length (dl_seeders dl)"
  by (auto simp: seederAt_def Let_def split: if_splits prod.splits sum.splits)

text \<open>One step of a worker: what it holds afterwards, and how far the counter has come.\<close>

lemma fetch_step_held:
  assumes "fetch_step P order env p k a t = (w', t')"
  shows "(w' = W_count p \<or> w' = W_attempt p (k + 1)) \<and> tr_next t' = tr_next t \<and> tr_workers t' = tr_workers t \<and>
    tr_failed t' = tr_failed t \<and> tr_shared t' = tr_shared t \<and> tr_tracker t' = tr_tracker t \<and>
    (\<exists>n. tr_download t' = (tr_download t)\<lparr>dl_integrity := n\<rparr>)"
  using assms unfolding fetch_step_def
  by (auto simp: Let_def split: prod.splits if_splits intro: exI [of _ "dl_integrity (tr_download t)"])

lemma worker_step_held:
  assumes "worker_step P order env w t = (w', t')"
  shows "(held w' = held w \<or> held w' = None \<or> w = W_next \<and> w' = W_attempt (tr_next t) 0 \<and> tr_next t < length order) \<and>
    tr_next t' = (if w = W_next then tr_next t + 1 else tr_next t) \<and> tr_workers t' = tr_workers t"
  using assms
  by (cases w) (auto simp: worker_step_def Let_def markVerified_def dest: fetch_step_held split: prod.splits if_splits)

definition claims_ok :: "nat list \<Rightarrow> transfer \<Rightarrow> bool" where
  "claims_ok order t \<longleftrightarrow>
     (\<forall>i<length (tr_workers t). \<forall>p. held (tr_workers t ! i) = Some p \<longrightarrow> p < tr_next t \<and> p < length order) \<and>
     (\<forall>i<length (tr_workers t). \<forall>j<length (tr_workers t). \<forall>p.
        held (tr_workers t ! i) = Some p \<longrightarrow> held (tr_workers t ! j) = Some p \<longrightarrow> i = j)"

lemma claims_start: "claims_ok order (fetch_start order tc content files dl)"
  by (simp add: claims_ok_def fetch_start_def)

lemma claims_step:
  assumes "claims_ok order t"
  shows "claims_ok order (transfer_step P order t ev)"
proof (cases ev)
  case (Ev_step i env)
  show ?thesis
  proof (cases "i < length (tr_workers t)")
    case True
    obtain w' t' where w: "worker_step P order env (tr_workers t ! i) t = (w', t')"
      by fastforce
    with worker_step_held [OF w] assms True show ?thesis
      unfolding claims_ok_def
      by (simp add: Ev_step transfer_step_def nth_list_update) (smt (verit) less_Suc_eq nat_less_le option.distinct(1) option.inject held_simps(3))
  qed (simp add: Ev_step transfer_step_def assms)
qed (use assms in \<open>simp_all add: transfer_step_def claims_ok_def\<close>)

section \<open>Pieces\<close>

definition good :: "platform \<Rightarrow> FileMetadata \<Rightarrow> string \<Rightarrow> nat \<Rightarrow> bool" where
  "good P m content piece \<longleftrightarrow> sha1Hex P (piece_bytes m content piece) = fm_pieceHashes m ! piece"

text \<open>The listed hashes are hashes of data of the pieces' lengths only, as for the metadata of an actual file.\<close>

definition hash_lengths :: "platform \<Rightarrow> FileMetadata \<Rightarrow> bool" where
  "hash_lengths P m \<longleftrightarrow> (\<forall>q<pieceCount m. \<forall>d. sha1Hex P d = fm_pieceHashes m ! q \<longrightarrow> length d = unat (pieceLength m (of_nat q)))"

definition plan_ok :: "platform \<Rightarrow> FileMetadata \<Rightarrow> nat list \<Rightarrow> bool" where
  "plan_ok P m order \<longleftrightarrow> sized m \<and> hash_lengths P m \<and> distinct order \<and> (\<forall>q\<in>set order. q < pieceCount m)"

text \<open>A piece that matches its hash and that no worker writes or will write.\<close>

definition settled :: "platform \<Rightarrow> FileMetadata \<Rightarrow> nat list \<Rightarrow> transfer \<Rightarrow> nat \<Rightarrow> bool" where
  "settled P m order t q \<longleftrightarrow> q < pieceCount m \<and> good P m (tr_file t) q \<and>
     (\<forall>p<length order. order ! p = q \<longrightarrow> p < tr_next t \<and> (\<forall>i<length (tr_workers t). writing (tr_workers t ! i) \<noteq> Some p))"

text \<open>Pieces of the partial file that the table offers; without a path to look for (\<^const>\<open>None\<close>) there are none.\<close>

definition published :: "string \<Rightarrow> string \<Rightarrow> string option \<Rightarrow> shared_files \<Rightarrow> nat \<Rightarrow> bool" where
  "published gname name part files q \<longleftrightarrow>
     (\<exists>f. SharedFiles_find gname name files = Some f \<and> part = Some (lf_path f) \<and> q < length (lf_available f) \<and> lf_available f ! q)"

definition pieces_ok :: "platform \<Rightarrow> FileMetadata \<Rightarrow> string \<Rightarrow> string \<Rightarrow> string option \<Rightarrow> nat list \<Rightarrow> transfer \<Rightarrow> bool" where
  "pieces_ok P m gname name part order t \<longleftrightarrow>
     dl_metadata (tr_download t) = m \<and> dl_group (tr_download t) = gname \<and> dl_name (tr_download t) = name \<and>
     length (tr_file t) = unat (fm_size m) \<and>
     (\<forall>i<length (tr_workers t). \<forall>p. landed (tr_workers t ! i) = Some p \<longrightarrow> good P m (tr_file t) (order ! p)) \<and>
     (\<forall>q. published gname name part (tr_shared t) q \<longrightarrow> settled P m order t q)"

lemma published_mark:
  "published g n part (SharedFiles_markAvailable g n piece files) q \<Longrightarrow> q = piece \<or> published g n part files q"
  by (auto simp: published_def find_markAvailable nth_list_update split: if_splits)

text \<open>Steps that leave the file and the table alone.\<close>

lemma settled_frame:
  assumes "settled P m order t q" "tr_file t' = tr_file t" "tr_next t \<le> tr_next t'" "tr_workers t' = (tr_workers t)[i := w']"
    and "i < length (tr_workers t)" "writing w' = None \<or> writing w' = writing (tr_workers t ! i) \<or> writing w' = Some (tr_next t)"
  shows "settled P m order t' q"
  using assms unfolding settled_def by (auto simp: nth_list_update) metis

lemma pieces_frame:
  assumes "pieces_ok P m g n part order t" "tr_file t' = tr_file t" "tr_shared t' = tr_shared t" "tr_next t \<le> tr_next t'"
    and "tr_workers t' = (tr_workers t)[i := w']" "i < length (tr_workers t)"
    and "dl_metadata (tr_download t') = dl_metadata (tr_download t)" "dl_group (tr_download t') = dl_group (tr_download t)"
      "dl_name (tr_download t') = dl_name (tr_download t)"
    and "writing w' = None \<or> writing w' = writing (tr_workers t ! i) \<or> writing w' = Some (tr_next t)"
    and "landed w' = None \<or> landed w' = landed (tr_workers t ! i)"
  shows "pieces_ok P m g n part order t'"
  using assms(1-9,11) settled_frame [OF _ assms(2,4,5,6,10)] unfolding pieces_ok_def
  by (auto simp: nth_list_update)

text \<open>The two steps that do not: a write, and a publication.\<close>

lemma fetch_step_wrote:
  assumes "fetch_step P order env p k a t = (w', t')"
  shows "tr_file t' = tr_file t \<and> w' = W_attempt p (k + 1) \<or>
    (\<exists>data ok. sha1Hex P data = fm_pieceHashes (dl_metadata (tr_download t)) ! (order ! p) \<and>
       PieceFile_write (st_writes env) (tr_file t) (of_nat (order ! p)) data = (ok, tr_file t') \<and>
       w' = (if ok then W_count p else W_attempt p (k + 1)))"
proof -
  obtain result data where got: "PeerClient_fetchPiece P (st_peer env) a (of_nat (order ! p))
      (fm_pieceHashes (dl_metadata (tr_download t)) ! (order ! p)) = (result, data)"
    by fastforce
  obtain ok content where wrote: "PieceFile_write (st_writes env) (tr_file t) (of_nat (order ! p)) data = (ok, content)"
    by fastforce
  show ?thesis
  proof (cases "result = Success")
    case True
    then have "sha1Hex P data = fm_pieceHashes (dl_metadata (tr_download t)) ! (order ! p)"
      using got fetchPiece_Success by simp
    moreover have "w' = (if ok then W_count p else W_attempt p (k + 1))" "tr_file t' = content"
      using assms True by (auto simp: fetch_step_def Let_def got wrote)
    ultimately show ?thesis
      using wrote by blast
  next
    case False
    then show ?thesis
      using assms by (auto simp: fetch_step_def Let_def got split: if_splits)
  qed
qed

lemma write_keeps:
  assumes plan: "plan_ok P m order" and claims: "claims_ok order t" and pieces: "pieces_ok P m g n part order t"
    and i: "i < length (tr_workers t)" "writing (tr_workers t ! i) = Some p"
    and wrote: "sha1Hex P data = fm_pieceHashes m ! (order ! p)"
      "PieceFile_write evs (tr_file t) (of_nat (order ! p)) data = (ok, content)"
    and t': "tr_file t' = content" "tr_shared t' = tr_shared t" "tr_next t' = tr_next t"
      "tr_workers t' = (tr_workers t)[i := if ok then W_count p else W_attempt p k]"
      "dl_metadata (tr_download t') = m" "dl_group (tr_download t') = g" "dl_name (tr_download t') = n"
  shows "pieces_ok P m g n part order t'"
proof -
  have p: "p < length order"
    using claims i by (auto simp: claims_ok_def dest: held_writing)
  then have piece: "order ! p < pieceCount m" and m: "sized m"
    using plan by (auto simp: plan_ok_def)
  have len: "length data = unat (pieceLength m (of_nat (order ! p)))"
    using plan piece wrote(1) by (simp add: plan_ok_def hash_lengths_def)
  have sz: "length (tr_file t) = unat (fm_size m)"
    using pieces by (simp add: pieces_ok_def)
  note kept = write_piece [OF m piece sz len wrote(2)]
  have others: "good P m content q \<longleftrightarrow> good P m (tr_file t) q" if "q < pieceCount m" "q \<noteq> order ! p" for q
    using kept(2) [OF that] by (simp add: good_def)
  have own: "good P m content (order ! p)" if ok
    using kept(3) [OF that] wrote(1) by (simp add: good_def)
  have "good P m content (order ! p')" if j: "j < length (tr_workers t)" "landed (tr_workers t' ! j) = Some p'" for j p'
  proof (cases "j = i")
    case True
    with j i(1) t'(4) have "ok" "p' = p"
      by (auto split: if_splits)
    with own show ?thesis by simp
  next
    case False
    with j(2) t'(4) have landed: "landed (tr_workers t ! j) = Some p'"
      by simp
    with False claims i j(1) have "p' \<noteq> p" "p' < length order"
      unfolding claims_ok_def by (metis held_landed held_writing)+
    then have "order ! p' \<noteq> order ! p" "order ! p' < pieceCount m"
      using plan p by (auto simp: plan_ok_def nth_eq_iff_index_eq)
    with others landed pieces j(1) show ?thesis
      by (auto simp: pieces_ok_def)
  qed
  moreover have "settled P m order t' q" if "published g n part (tr_shared t) q" for q
  proof -
    have s: "settled P m order t q"
      using pieces that by (simp add: pieces_ok_def)
    then have "q \<noteq> order ! p"
      using i p by (auto simp: settled_def)
    moreover from this s have "writing (tr_workers t' ! j) \<noteq> Some p'"
      if "order ! p' = q" "p' < length order" "j < length (tr_workers t)" for p' j
      using that i t'(4) by (cases "j = i") (auto simp: settled_def)
    ultimately show ?thesis
      using s others t' by (auto simp: settled_def)
  qed
  ultimately show ?thesis
    using kept(1) sz t' by (simp add: pieces_ok_def)
qed

lemma publish_keeps:
  assumes plan: "plan_ok P m order" and claims: "claims_ok order t" and pieces: "pieces_ok P m g n part order t"
    and i: "i < length (tr_workers t)" "tr_workers t ! i = W_publish p"
    and t': "tr_file t' = tr_file t" "tr_shared t' = SharedFiles_markAvailable g n (order ! p) (tr_shared t)"
      "tr_next t' = tr_next t" "tr_workers t' = (tr_workers t)[i := W_loop]" "tr_download t' = tr_download t"
  shows "pieces_ok P m g n part order t'"
proof -
  have p: "p < length order" "p < tr_next t"
    using claims i by (auto simp: claims_ok_def)
  have "good P m (tr_file t) (order ! p)" "order ! p < pieceCount m"
    using pieces i p(1) plan by (auto simp: pieces_ok_def plan_ok_def)
  moreover have "p' = p" if "order ! p' = order ! p" "p' < length order" for p'
    using plan p(1) that by (auto simp: plan_ok_def nth_eq_iff_index_eq)
  moreover have "writing (tr_workers t' ! j) \<noteq> Some p" if "j < length (tr_workers t)" for j
    using claims i that t'(4) held_writing [of "tr_workers t ! j" p] unfolding claims_ok_def by (cases "j = i") auto
  ultimately have own: "settled P m order t' (order ! p)"
    using p(2) t' by (auto simp: settled_def)
  have "settled P m order t' q" if "settled P m order t q" for q
    by (rule settled_frame [OF that, of t' i W_loop]) (use t' i in simp_all)
  with own pieces published_mark [of g n part "order ! p" "tr_shared t"] t' i show ?thesis
    by (auto simp: pieces_ok_def nth_list_update) blast
qed

lemma pieces_drop:
  assumes "pieces_ok P m g n part order t" "\<And>q. published g n part (tr_shared t') q \<Longrightarrow> published g n part (tr_shared t) q"
    and "tr_file t' = tr_file t" "tr_next t' = tr_next t" "tr_workers t' = tr_workers t"
    and "dl_metadata (tr_download t') = dl_metadata (tr_download t)" "dl_group (tr_download t') = dl_group (tr_download t)"
      "dl_name (tr_download t') = dl_name (tr_download t)"
  shows "pieces_ok P m g n part order t'"
proof -
  have "settled P m order t' = settled P m order t"
    using assms by (auto simp: settled_def fun_eq_iff)
  with assms show ?thesis
    by (auto simp: pieces_ok_def)
qed

lemma pieces_worker:
  assumes plan: "plan_ok P m order" and claims: "claims_ok order t" and pieces: "pieces_ok P m g n part order t"
    and i: "i < length (tr_workers t)" and run: "worker_step P order env (tr_workers t ! i) t = (w', t1)"
  shows "pieces_ok P m g n part order (t1\<lparr>tr_workers := (tr_workers t)[i := w']\<rparr>)" (is "pieces_ok P m g n part order ?t'")
proof -
  have dl: "dl_metadata (tr_download t) = m" "dl_group (tr_download t) = g" "dl_name (tr_download t) = n"
    using pieces by (simp_all add: pieces_ok_def)
  note frame = pieces_frame [OF pieces, of ?t' i w']
  show ?thesis
  proof (cases "tr_workers t ! i")
    case (W_seeder p k)
    obtain a tc' dl' where s: "seederAt P (st_now env) (st_locate env) (tr_tracker t)
        (attempt_seeder (tr_download t) (order ! p) k) (tr_download t) = (a, tc', dl')"
      by (metis prod_cases3)
    with run W_seeder have "w' = W_fetch p k a" "t1 = t\<lparr>tr_tracker := tc', tr_download := dl'\<rparr>"
      by (simp_all add: worker_step_def)
    moreover obtain sds where "dl' = (tr_download t)\<lparr>dl_seeders := sds\<rparr>"
      using seederAt_keeps [OF s] by blast
    ultimately show ?thesis
      using i W_seeder by (intro frame) simp_all
  next
    case (W_fetch p k a)
    then have f: "fetch_step P order env p k a t = (w', t1)"
      using run by (simp add: worker_step_def)
    note keeps = fetch_step_held [OF f]
    then obtain c where c: "tr_download t1 = (tr_download t)\<lparr>dl_integrity := c\<rparr>"
      by blast
    from fetch_step_wrote [OF f] show ?thesis
    proof
      assume "tr_file t1 = tr_file t \<and> w' = W_attempt p (k + 1)"
      with keeps c i W_fetch show ?thesis
        by (intro frame) simp_all
    next
      assume "\<exists>data ok. sha1Hex P data = fm_pieceHashes (dl_metadata (tr_download t)) ! (order ! p) \<and>
        PieceFile_write (st_writes env) (tr_file t) (of_nat (order ! p)) data = (ok, tr_file t1) \<and>
        w' = (if ok then W_count p else W_attempt p (k + 1))"
      then obtain data ok where "sha1Hex P data = fm_pieceHashes m ! (order ! p)"
          "PieceFile_write (st_writes env) (tr_file t) (of_nat (order ! p)) data = (ok, tr_file t1)"
          "w' = (if ok then W_count p else W_attempt p (k + 1))"
        using dl by blast
      from write_keeps [OF plan claims pieces i _ this(1,2), of ?t' "k + 1"] this(3) W_fetch keeps c dl show ?thesis
        by simp
    qed
  next
    case (W_publish p)
    with run dl have "w' = W_loop" "t1 = t\<lparr>tr_shared := SharedFiles_markAvailable g n (order ! p) (tr_shared t)\<rparr>"
      by (simp_all add: worker_step_def markVerified_def)
    with publish_keeps [OF plan claims pieces i W_publish, of ?t'] show ?thesis
      by simp
  qed (rule frame; use run i in \<open>auto simp: worker_step_def Let_def markVerified_def split: if_splits\<close>)+
qed

text \<open>Another thread does not publish this download's partial file in its place.  Two downloads of one
  file of a group are not apart: they share an entry of the table.\<close>

fun apart :: "string \<Rightarrow> string \<Rightarrow> string option \<Rightarrow> event \<Rightarrow> bool" where
  "apart g n part (Ev_add g' n' f) \<longleftrightarrow> (g', n') \<noteq> (g, n) \<or> part \<noteq> Some (lf_path f)"
| "apart g n part (Ev_mark g' n' piece) \<longleftrightarrow> (g', n') \<noteq> (g, n) \<or> part = None"
| "apart g n part _ \<longleftrightarrow> True"

lemma published_apart:
  assumes "apart g n part ev" "\<And>i env. ev \<noteq> Ev_step i env" "published g n part (tr_shared (transfer_step P order t ev)) q"
  shows "published g n part (tr_shared t) q"
  using assms
  by (cases ev) (auto simp: transfer_step_def published_def shared.lookup_add shared.lookup_remove shared.lookup_remove_group
      shared.lookup_clear find_markAvailable split: if_splits)

lemma pieces_step:
  assumes "plan_ok P m order" "claims_ok order t" "pieces_ok P m g n part order t" "apart g n part ev"
  shows "pieces_ok P m g n part order (transfer_step P order t ev)"
proof (cases ev)
  case (Ev_step i env)
  show ?thesis
  proof (cases "i < length (tr_workers t)")
    case True
    obtain w' t' where w: "worker_step P order env (tr_workers t ! i) t = (w', t')"
      by fastforce
    with pieces_worker [OF assms(1-3) True w] True show ?thesis
      by (simp add: Ev_step transfer_step_def)
  qed (simp add: Ev_step transfer_step_def assms)
qed (rule pieces_drop [OF assms(3)]; (rule published_apart [OF assms(4)])?;
    auto simp: transfer_step_def Download_cancel_def)+

lemma run_keeps:
  assumes "\<And>t ev. Q t \<Longrightarrow> Q (transfer_step P order t ev)" "Q t"
  shows "Q (transfer_run P order evs t)"
  using assms(2) unfolding transfer_run_def by (induction evs arbitrary: t) (simp_all add: assms(1))

lemma claims_run: "claims_ok order t \<Longrightarrow> claims_ok order (transfer_run P order evs t)"
  by (rule run_keeps [of "claims_ok order"]) (rule claims_step)

lemma pieces_run:
  assumes "plan_ok P m order" "claims_ok order t" "pieces_ok P m g n part order t" "list_all (apart g n part) evs"
  shows "pieces_ok P m g n part order (transfer_run P order evs t)"
  using assms(2-4) unfolding transfer_run_def
  by (induction evs arbitrary: t) (simp_all add: claims_step pieces_step [OF assms(1)])

text \<open>What is not about the table holds whatever other threads do to it.\<close>

lemma apart_None [simp]: "apart g n None ev"
  by (cases ev) simp_all

lemma pieces_None: "pieces_ok P m g n part order t \<Longrightarrow> pieces_ok P m g n None order t"
  by (simp add: pieces_ok_def published_def)

lemma file_run:
  assumes "plan_ok P m order" "claims_ok order t" "pieces_ok P m g n part order t"
  shows "pieces_ok P m g n None order (transfer_run P order evs t)"
  by (rule pieces_run [OF assms(1,2) pieces_None [OF assms(3)]]) (simp add: list_all_iff)

end
