(* ===== verification/Fair_Run.thy ===== *)
theory Fair_Run
  imports Prelude
begin

text \<open>
  Threads that take turns: the interface of the components whose steps are interleaved by a
  scheduler they do not control.  A weight that every working step lowers bounds the work of any
  schedule; when, besides, a thread that can work stays able to until its turn comes or another
  has worked, every fair schedule finishes.
\<close>

fun worked :: "('s \<Rightarrow> 'e \<Rightarrow> 's) \<Rightarrow> ('s \<Rightarrow> 'e \<Rightarrow> bool) \<Rightarrow> 's \<Rightarrow> 'e list \<Rightarrow> nat" where
  "worked step works s [] = 0"
| "worked step works s (e # es) = (if works s e then 1 else 0) + worked step works (step s e) es"

locale bounded_run =
  fixes step :: "'s \<Rightarrow> 'e \<Rightarrow> 's"
    and inv :: "'s \<Rightarrow> bool"
    and works :: "'s \<Rightarrow> 'e \<Rightarrow> bool"
    and weight :: "'s \<Rightarrow> nat"
  assumes inv_step: "inv s \<Longrightarrow> inv (step s e)"
    and work_lowers: "inv s \<Longrightarrow> works s e \<Longrightarrow> weight (step s e) < weight s"
    and rest_keeps: "inv s \<Longrightarrow> \<not> works s e \<Longrightarrow> weight (step s e) \<le> weight s"
begin

lemma weight_step: "inv s \<Longrightarrow> weight (step s e) \<le> weight s"
  using work_lowers rest_keeps by (cases "works s e") (auto intro: less_imp_le)

lemma inv_run: "inv s \<Longrightarrow> inv (foldl step s es)"
  by (induction es arbitrary: s) (simp_all add: inv_step)

lemma weight_run: "inv s \<Longrightarrow> weight (foldl step s es) \<le> weight s"
proof (induction es arbitrary: s)
  case (Cons e es)
  then show ?case
    using weight_step [of s e] inv_step [of s e] by (auto intro: order_trans)
qed simp

lemma worked_bound: "inv s \<Longrightarrow> worked step works s es + weight (foldl step s es) \<le> weight s"
proof (induction es arbitrary: s)
  case (Cons e es)
  then have "worked step works (step s e) es + weight (foldl step (step s e) es) \<le> weight (step s e)"
    using inv_step by blast
  with Cons.prems work_lowers [of s e] rest_keeps [of s e] show ?case
    by (cases "works s e") auto
qed simp

end

text \<open>\<open>thread\<close> says whose turn an event is, \<open>enabled\<close> who can work, \<open>finished\<close> that nobody can.\<close>

locale fair_run = bounded_run step inv works weight
  for step :: "'s \<Rightarrow> 'e \<Rightarrow> 's" and inv :: "'s \<Rightarrow> bool" and works :: "'s \<Rightarrow> 'e \<Rightarrow> bool" and weight :: "'s \<Rightarrow> nat" +
  fixes thread :: "'e \<Rightarrow> 'k option"
    and threads :: "'k set"
    and enabled :: "'s \<Rightarrow> 'k \<Rightarrow> bool"
    and finished :: "'s \<Rightarrow> bool"
  assumes turn_works: "inv s \<Longrightarrow> thread e = Some k \<Longrightarrow> enabled s k \<Longrightarrow> works s e"
    and enabled_stays: "inv s \<Longrightarrow> enabled s k \<Longrightarrow> thread e \<noteq> Some k \<Longrightarrow> \<not> works s e \<Longrightarrow> enabled (step s e) k"
    and someone_enabled: "inv s \<Longrightarrow> \<not> finished s \<Longrightarrow> \<exists>k\<in>threads. enabled s k"
begin

lemma turn_comes:
  assumes "inv s" "enabled s k" "thread (es ! m) = Some k" "m < length es"
  shows "weight (foldl step s (take (Suc m) es)) < weight s"
  using assms
proof (induction es arbitrary: s m)
  case (Cons e es)
  show ?case
  proof (cases "works s e")
    case True
    then have "weight (step s e) < weight s"
      using Cons.prems work_lowers by blast
    then show ?thesis
      using weight_run [of "step s e" "take m es"] Cons.prems(1) inv_step by (auto intro: le_less_trans)
  next
    case False
    with Cons.prems turn_works have "thread e \<noteq> Some k"
      by blast
    moreover from this Cons.prems obtain m' where m: "m = Suc m'"
      by (cases m) auto
    ultimately have "weight (foldl step (step s e) (take (Suc m') es)) < weight (step s e)"
      by (intro Cons.IH) (use Cons.prems False inv_step enabled_stays in auto)
    with m weight_step [of s e] Cons.prems(1) show ?thesis
      by simp
  qed
qed simp

text \<open>A schedule without end in which every thread's turn comes again and again.\<close>

lemma fair_finishes:
  assumes "inv s" and fair: "\<And>k n. k \<in> threads \<Longrightarrow> \<exists>m\<ge>n. thread (sched m) = Some k"
  shows "\<exists>n. finished (foldl step s (map sched [0..<n]))"
proof (rule ccontr)
  assume never: "\<not> ?thesis"
  have "weight (foldl step s (map sched [0..<n])) \<noteq> w" for n w
  proof (induction w arbitrary: n rule: less_induct)
    case (less w)
    let ?s = "foldl step s (map sched [0..<n])"
    have "inv ?s"
      using assms(1) by (rule inv_run)
    then obtain k where k: "k \<in> threads" "enabled ?s k"
      using someone_enabled never by blast
    then obtain m where m: "n \<le> m" "thread (sched m) = Some k"
      using fair by blast
    have upto: "[0..<Suc m] = [0..<n] @ [n..<Suc m]"
      using m(1) by (metis le_SucI upt_add_eq_append zero_le le_add_diff_inverse)
    have "weight (foldl step ?s (take (Suc (m - n)) (map sched [n..<Suc m]))) < weight ?s"
      by (rule turn_comes [OF \<open>inv ?s\<close> k(2)]) (use m in \<open>simp_all del: upt_Suc\<close>)
    then have "weight (foldl step s (map sched [0..<Suc m])) < weight ?s"
      using m(1) unfolding upto by (simp add: Suc_diff_le)
    then show ?case
      using less.IH by blast
  qed
  then show False
    by blast
qed

end

end
