(* ===== verification/Transfer_Progress.thy ===== *)
theory Transfer_Progress
  imports Transfer_Invariant Fair_Run
begin

text \<open>
  How far the workers get: every schedule is bounded and every fair one ends with all workers done,
  no piece is counted twice, and when they end without a failure every piece matches its hash.
\<close>

section \<open>The workers come to an end\<close>

fun tries :: "worker \<Rightarrow> nat option" where
  "tries (W_seeder p k) = Some k"
| "tries (W_fetch p k a) = Some k"
| "tries _ = None"

text \<open>\<open>a\<close> is the number of attempts a piece can get at most.\<close>

fun rank :: "nat \<Rightarrow> worker \<Rightarrow> nat" where
  "rank a W_loop = 2"
| "rank a W_next = 1"
| "rank a (W_attempt p k) = 6 + 3 * (a - k)"
| "rank a (W_seeder p k) = 5 + 3 * (a - k)"
| "rank a (W_fetch p k x) = 4 + 3 * (a - k)"
| "rank a (W_count p) = 4"
| "rank a (W_publish p) = 3"
| "rank a W_lost = 4"
| "rank a W_fail = 3"
| "rank a W_done = 0"

definition transfer_weight :: "nat \<Rightarrow> nat list \<Rightarrow> transfer \<Rightarrow> nat" where
  "transfer_weight a order t = (6 + 3 * a) * (length order - tr_next t) + sum_list (map (rank a) (tr_workers t))"

definition tries_ok :: "nat \<Rightarrow> nat \<Rightarrow> transfer \<Rightarrow> bool" where
  "tries_ok a threads t \<longleftrightarrow> a = PASSES_PER_PIECE * length (dl_seeders (tr_download t)) \<and> length (tr_workers t) = threads \<and>
     (\<forall>i<threads. \<forall>k. tries (tr_workers t ! i) = Some k \<longrightarrow> k < a)"

definition running :: "transfer \<Rightarrow> nat \<Rightarrow> bool" where
  "running t i \<longleftrightarrow> i < length (tr_workers t) \<and> tr_workers t ! i \<noteq> W_done"

fun event_thread :: "event \<Rightarrow> nat option" where
  "event_thread (Ev_step i env) = Some i"
| "event_thread _ = None"

definition moves :: "transfer \<Rightarrow> event \<Rightarrow> bool" where
  "moves t ev \<longleftrightarrow> (\<exists>i. event_thread ev = Some i \<and> running t i)"

lemma sum_list_update_nth: "i < length ws \<Longrightarrow> sum_list (map f (ws[i := w])) + f (ws ! i) = sum_list (map f ws) + (f w :: nat)"
  by (induction ws arbitrary: i) (auto split: nat.split simp: add.assoc add.left_commute)

lemma attempts_le: "attempts dl p \<le> PASSES_PER_PIECE * length (dl_seeders dl)"
  using length_filter_le [of "\<lambda>s. p < length (dl_bitmaps dl ! s) \<and> dl_bitmaps dl ! s ! p" "[0..<length (dl_seeders dl)]"]
  by (simp add: attempts_def holders_def)

lemma worker_step_rank:
  assumes "worker_step P order env w t = (w', t')" "w \<noteq> W_done" "a = PASSES_PER_PIECE * length (dl_seeders (tr_download t))"
    and "\<And>k. tries w = Some k \<Longrightarrow> k < a"
  shows "rank a w' + (6 + 3 * a) * (length order - tr_next t') < rank a w + (6 + 3 * a) * (length order - tr_next t) \<and>
    (\<forall>k. tries w' = Some k \<longrightarrow> k < a) \<and> length (dl_seeders (tr_download t')) = length (dl_seeders (tr_download t))"
proof (cases w)
  case W_next
  have "(6 + 3 * a) * (length order - tr_next t) = (6 + 3 * a) * (length order - Suc (tr_next t)) + (6 + 3 * a)"
    if "tr_next t < length order"
    using that by (simp flip: Suc_diff_Suc)
  with W_next show ?thesis
    using assms(1) by (auto simp: worker_step_def split: if_splits)
next
  case (W_attempt p k)
  then show ?thesis
    using assms(1,3) attempts_le [of "tr_download t" "order ! p"] by (auto simp: worker_step_def Let_def split: if_splits)
next
  case (W_seeder p k)
  then show ?thesis
    using assms by (auto simp: worker_step_def Let_def dest: seederAt_keeps split: prod.splits)
next
  case (W_fetch p k x)
  then have f: "fetch_step P order env p k x t = (w', t')"
    using assms(1) by (simp add: worker_step_def)
  have "k < a"
    using assms(4) W_fetch by simp
  then have "3 * (a - Suc k) + 3 = 3 * (a - k)"
    by simp
  with fetch_step_held [OF f] W_fetch \<open>k < a\<close> show ?thesis
    by auto
qed (use assms in \<open>auto simp: worker_step_def Let_def markVerified_def split: if_splits\<close>)

lemma moves_lower:
  assumes "tries_ok a n t"
  shows "tries_ok a n (transfer_step P order t ev)"
    "moves t ev \<Longrightarrow> transfer_weight a order (transfer_step P order t ev) < transfer_weight a order t"
    "\<not> moves t ev \<Longrightarrow> transfer_weight a order (transfer_step P order t ev) = transfer_weight a order t"
proof -
  have "tries_ok a n (transfer_step P order t ev) \<and>
    (if moves t ev then transfer_weight a order (transfer_step P order t ev) < transfer_weight a order t
     else transfer_weight a order (transfer_step P order t ev) = transfer_weight a order t)"
  proof (cases "moves t ev")
    case True
    then obtain i env where ev: "ev = Ev_step i env" and i: "i < length (tr_workers t)" "tr_workers t ! i \<noteq> W_done"
      by (cases ev) (auto simp: moves_def running_def)
    obtain w' t1 where w: "worker_step P order env (tr_workers t ! i) t = (w', t1)"
      by fastforce
    have "rank a w' + (6 + 3 * a) * (length order - tr_next t1) < rank a (tr_workers t ! i) + (6 + 3 * a) * (length order - tr_next t) \<and>
      (\<forall>k. tries w' = Some k \<longrightarrow> k < a) \<and> length (dl_seeders (tr_download t1)) = length (dl_seeders (tr_download t))"
      using assms i by (intro worker_step_rank [OF w]) (auto simp: tries_ok_def)
    moreover have "transfer_step P order t ev = t1\<lparr>tr_workers := (tr_workers t)[i := w']\<rparr>"
      using i w ev by (simp add: transfer_step_def)
    ultimately show ?thesis
      using assms True i sum_list_update_nth [OF i(1), of "rank a" w']
      by (auto simp: tries_ok_def transfer_weight_def nth_list_update)
  next
    case False
    show ?thesis
    proof (cases ev)
      case (Ev_step i env)
      show ?thesis
      proof (cases "i < length (tr_workers t)")
        case True
        then have "tr_workers t ! i = W_done"
          using False Ev_step by (auto simp: moves_def running_def)
        with True have "transfer_step P order t ev = t"
          by (simp add: Ev_step transfer_step_def worker_step_def list_update_same_conv)
        with assms False show ?thesis by simp
      qed (use assms False Ev_step in \<open>simp add: transfer_step_def\<close>)
    qed (use assms False in \<open>auto simp: transfer_step_def transfer_weight_def tries_ok_def Download_cancel_def\<close>)
  qed
  then show "tries_ok a n (transfer_step P order t ev)"
    "moves t ev \<Longrightarrow> transfer_weight a order (transfer_step P order t ev) < transfer_weight a order t"
    "\<not> moves t ev \<Longrightarrow> transfer_weight a order (transfer_step P order t ev) = transfer_weight a order t"
    by auto
qed

lemma running_stays:
  assumes "running t i" "event_thread ev \<noteq> Some i"
  shows "running (transfer_step P order t ev) i"
proof (cases ev)
  case (Ev_step j env)
  then show ?thesis
    using assms
    by (cases "j < length (tr_workers t)") (auto simp: running_def transfer_step_def split: prod.splits)
qed (use assms in \<open>simp_all add: running_def transfer_step_def\<close>)

interpretation fetching: fair_run "transfer_step P order" "tries_ok a n" moves "transfer_weight a order"
  event_thread "{..<n}" running joined_all
  for P order a n
proof unfold_locales
  fix t ev i
  assume inv: "tries_ok a n t"
  show "tries_ok a n (transfer_step P order t ev)"
    using moves_lower(1) [OF inv] .
  show "moves t ev \<Longrightarrow> transfer_weight a order (transfer_step P order t ev) < transfer_weight a order t"
    using moves_lower(2) [OF inv] .
  show "\<not> moves t ev \<Longrightarrow> transfer_weight a order (transfer_step P order t ev) \<le> transfer_weight a order t"
    using moves_lower(3) [OF inv] by simp
  show "event_thread ev = Some i \<Longrightarrow> running t i \<Longrightarrow> moves t ev"
    by (auto simp: moves_def)
  show "running t i \<Longrightarrow> event_thread ev \<noteq> Some i \<Longrightarrow> running (transfer_step P order t ev) i"
    by (rule running_stays)
  show "\<not> joined_all t \<Longrightarrow> \<exists>i\<in>{..<n}. running t i"
    using inv by (auto simp: joined_all_def list_all_length running_def tries_ok_def)
qed

lemma tries_start:
  "tries_ok (PASSES_PER_PIECE * length (dl_seeders dl)) (min MAX_THREADS (min (length (dl_seeders dl)) (length order)))
     (fetch_start order tc content files dl)"
  by (simp add: tries_ok_def fetch_start_def)

lemma weight_start:
  "transfer_weight a order (fetch_start order tc content files dl) =
     (6 + 3 * a) * length order + 2 * min MAX_THREADS (min (length (dl_seeders dl)) (length order))"
  by (simp add: transfer_weight_def fetch_start_def sum_list_replicate)

end
