(* ===== verification/Transfer_Outcome.thy ===== *)
theory Transfer_Outcome
  imports Transfer_Progress
begin

text \<open>
  What has been achieved when every worker is done: unless a piece was lost or the user cancelled, every
  piece of the file matches its hash; and at any time no more pieces are counted than there are.
\<close>

section \<open>Every position is accounted for\<close>

definition trouble :: "transfer \<Rightarrow> bool" where
  "trouble t \<longleftrightarrow> tr_failed t \<or> dl_cancelled (tr_download t) \<or>
     (\<exists>i<length (tr_workers t). tr_workers t ! i = W_lost \<or> tr_workers t ! i = W_fail)"

definition accounted :: "platform \<Rightarrow> FileMetadata \<Rightarrow> nat list \<Rightarrow> transfer \<Rightarrow> bool" where
  "accounted P m order t \<longleftrightarrow>
     (trouble t \<or> (\<forall>p<length order. p < tr_next t \<longrightarrow>
        (\<exists>i<length (tr_workers t). held (tr_workers t ! i) = Some p) \<or> good P m (tr_file t) (order ! p))) \<and>
     (\<forall>i<length (tr_workers t). tr_workers t ! i = W_done \<longrightarrow> trouble t \<or> length order \<le> tr_next t) \<and>
     (\<forall>q<pieceCount m. q \<notin> set order \<longrightarrow> good P m (tr_file t) q)"

lemma seederAt_cancelled: "seederAt P now env tc i dl = (a, tc', dl') \<Longrightarrow> dl_cancelled dl' = dl_cancelled dl"
  by (auto simp: seederAt_def Let_def split: if_splits prod.splits sum.splits)

lemma worker_step_flags:
  assumes "worker_step P order env w t = (w', t')"
  shows "dl_cancelled (tr_download t') = dl_cancelled (tr_download t) \<and> tr_next t \<le> tr_next t' \<and>
    (tr_failed t \<longrightarrow> tr_failed t') \<and>
    (w = W_lost \<longrightarrow> w' = W_fail \<or> dl_cancelled (tr_download t)) \<and> (w = W_fail \<longrightarrow> tr_failed t') \<and>
    (w' = W_done \<longrightarrow> w = W_done \<or> dl_cancelled (tr_download t) \<or> length order \<le> tr_next t)"
  using assms
  by (cases w) (auto simp: worker_step_def Let_def markVerified_def dest: seederAt_cancelled fetch_step_held split: prod.splits if_splits)

lemma trouble_step:
  assumes "trouble t"
  shows "trouble (transfer_step P order t ev)"
proof (cases ev)
  case (Ev_step i env)
  show ?thesis
  proof (cases "i < length (tr_workers t)")
    case True
    obtain w' t' where w: "worker_step P order env (tr_workers t ! i) t = (w', t')"
      by fastforce
    note flags = worker_step_flags [OF w]
    have t': "transfer_step P order t ev = t'\<lparr>tr_workers := (tr_workers t)[i := w']\<rparr>"
      using w True by (simp add: Ev_step transfer_step_def)
    consider "tr_failed t" | "dl_cancelled (tr_download t)"
      | j where "j < length (tr_workers t)" "tr_workers t ! j = W_lost \<or> tr_workers t ! j = W_fail"
      using assms by (auto simp: trouble_def)
    then show ?thesis
    proof cases
      case 3
      then show ?thesis
        using flags True unfolding t' trouble_def by (cases "j = i") (auto simp: nth_list_update)
    qed (use flags t' in \<open>auto simp: trouble_def\<close>)
  qed (simp add: Ev_step transfer_step_def assms)
qed (use assms in \<open>auto simp: transfer_step_def trouble_def Download_cancel_def\<close>)

text \<open>A step touches no piece but the one its worker writes.\<close>

lemma bytes_stay:
  assumes plan: "plan_ok P m order" and claims: "claims_ok order t" and pieces: "pieces_ok P m g n part order t"
    and i: "i < length (tr_workers t)" and run: "worker_step P order env (tr_workers t ! i) t = (w', t')"
    and q: "q < pieceCount m" "\<And>p. writing (tr_workers t ! i) = Some p \<Longrightarrow> q \<noteq> order ! p"
  shows "piece_bytes m (tr_file t') q = piece_bytes m (tr_file t) q"
proof (cases "tr_file t' = tr_file t")
  case False
  then obtain p k a where w: "tr_workers t ! i = W_fetch p k a"
    using run by (cases "tr_workers t ! i")
      (auto simp: worker_step_def Let_def markVerified_def split: if_splits prod.splits)
  then have f: "fetch_step P order env p k a t = (w', t')"
    using run by (simp add: worker_step_def)
  from fetch_step_wrote [OF f] False obtain data ok where wrote:
      "sha1Hex P data = fm_pieceHashes (dl_metadata (tr_download t)) ! (order ! p)"
      "PieceFile_write (st_writes env) (tr_file t) (of_nat (order ! p)) data = (ok, tr_file t')"
    by blast
  have p: "p < length order" "order ! p < pieceCount m" "sized m"
    using claims i w plan by (fastforce simp: claims_ok_def plan_ok_def)+
  have "length data = unat (pieceLength m (of_nat (order ! p)))"
    using wrote(1) pieces plan p(2) by (simp add: pieces_ok_def plan_ok_def hash_lengths_def)
  from write_piece(2) [OF p(3,2) _ this wrote(2)] q w pieces show ?thesis
    by (simp add: pieces_ok_def)
qed simp

lemma good_stays:
  assumes "plan_ok P m order" "claims_ok order t" "pieces_ok P m g n part order t"
    and "i < length (tr_workers t)" "worker_step P order env (tr_workers t ! i) t = (w', t')"
    and "q < pieceCount m" "\<And>p. writing (tr_workers t ! i) = Some p \<Longrightarrow> q \<noteq> order ! p"
  shows "good P m (tr_file t') q \<longleftrightarrow> good P m (tr_file t) q"
  using bytes_stay [OF assms] by (simp add: good_def)

lemma accounted_worker:
  assumes plan: "plan_ok P m order" and claims: "claims_ok order t" and pieces: "pieces_ok P m g n part order t"
    and acc: "accounted P m order t" and i: "i < length (tr_workers t)"
    and run: "worker_step P order env (tr_workers t ! i) t = (w', t1)"
    and t': "t' = t1\<lparr>tr_workers := (tr_workers t)[i := w']\<rparr>" and calm: "\<not> trouble t'"
    and p: "p < length order" "p < tr_next t'"
  shows "(\<exists>j<length (tr_workers t'). held (tr_workers t' ! j) = Some p) \<or> good P m (tr_file t') (order ! p)"
proof -
  note step = worker_step_held [OF run]
  have "transfer_step P order t (Ev_step i env) = t'"
    using run i t' by (simp add: transfer_step_def)
  then have "\<not> trouble t"
    using trouble_step calm by metis
  have piece: "order ! p < pieceCount m"
    using plan p(1) by (simp add: plan_ok_def)
  show ?thesis
  proof (cases "p < tr_next t")
    case False
    then have "tr_workers t ! i = W_next" "p = tr_next t"
      using step p(2) t' by (auto split: if_splits)
    then have "w' = W_attempt p 0"
      using run p(1) by (simp add: worker_step_def)
    with i t' show ?thesis
      by (intro disjI1 exI [of _ i]) simp
  next
    case True
    with acc p(1) \<open>\<not> trouble t\<close> consider j where "j < length (tr_workers t)" "held (tr_workers t ! j) = Some p"
      | "good P m (tr_file t) (order ! p)" "\<And>j. j < length (tr_workers t) \<Longrightarrow> held (tr_workers t ! j) \<noteq> Some p"
      unfolding accounted_def by blast
    then show ?thesis
    proof cases
      case 1
      show ?thesis
      proof (cases "j = i \<and> held w' \<noteq> Some p")
        case False
        with 1 t' i show ?thesis
          by (intro disjI1 exI [of _ j]) (auto simp: nth_list_update)
      next
        case True
        with 1 run calm t' i have landed: "tr_workers t ! i = W_publish p"
          by (cases "tr_workers t ! i")
            (auto simp: worker_step_def Let_def markVerified_def trouble_def nth_list_update dest: fetch_step_held split: if_splits prod.splits)
        then have "good P m (tr_file t) (order ! p)" "tr_file t1 = tr_file t"
          using pieces i run by (auto simp: pieces_ok_def worker_step_def Let_def markVerified_def)
        with t' show ?thesis by simp
      qed
    next
      case 2
      then have "q = order ! p \<Longrightarrow> writing (tr_workers t ! i) = Some p' \<Longrightarrow> q \<noteq> order ! p'" for p' q
        using plan claims i p(1) unfolding plan_ok_def claims_ok_def
        by (metis held_writing nth_eq_iff_index_eq)
      with good_stays [OF plan claims pieces i run piece] 2(1) t' show ?thesis
        by simp
    qed
  qed
qed

lemma accounted_step:
  assumes plan: "plan_ok P m order" and claims: "claims_ok order t" and pieces: "pieces_ok P m g n part order t"
    and acc: "accounted P m order t"
  shows "accounted P m order (transfer_step P order t ev)"
proof (cases ev)
  case (Ev_step i env)
  show ?thesis
  proof (cases "i < length (tr_workers t)")
    case True
    obtain w' t1 where w: "worker_step P order env (tr_workers t ! i) t = (w', t1)"
      by fastforce
    let ?t' = "t1\<lparr>tr_workers := (tr_workers t)[i := w']\<rparr>"
    have t': "transfer_step P order t ev = ?t'"
      using w True by (simp add: Ev_step transfer_step_def)
    note flags = worker_step_flags [OF w]
    have stays: "trouble t \<Longrightarrow> trouble ?t'"
      using trouble_step [of t P order ev] t' by simp
    have "trouble ?t' \<or> length order \<le> tr_next ?t'"
      if j: "j < length (tr_workers t)" "(tr_workers t)[i := w'] ! j = W_done" for j
    proof (cases "tr_workers t ! j = W_done")
      case True
      with acc j(1) stays flags show ?thesis
        by (auto simp: accounted_def)
    next
      case False
      with j True have "w' = W_done" "tr_workers t ! i \<noteq> W_done"
        by (auto simp: nth_list_update split: if_splits)
      with flags show ?thesis
        by (auto simp: trouble_def)
    qed
    moreover have "good P m (tr_file t1) q" if "q < pieceCount m" "q \<notin> set order" for q
    proof -
      have "writing (tr_workers t ! i) = Some p \<Longrightarrow> q \<noteq> order ! p" for p
        using that(2) claims True by (auto simp: claims_ok_def dest: held_writing)
      with good_stays [OF plan claims pieces True w that(1)] acc that show ?thesis
        by (simp add: accounted_def)
    qed
    ultimately show ?thesis
      using accounted_worker [OF plan claims pieces acc True w refl]
      unfolding t' accounted_def [of _ _ _ ?t'] by (simp add: disj_imp)
  qed (simp add: Ev_step transfer_step_def acc)
qed (use acc in \<open>auto simp: transfer_step_def accounted_def trouble_def Download_cancel_def\<close>)

lemma accounted_run:
  assumes "plan_ok P m order" "claims_ok order t" "pieces_ok P m g n part order t" "accounted P m order t"
  shows "accounted P m order (transfer_run P order evs t)"
  using run_keeps [of "\<lambda>t. claims_ok order t \<and> pieces_ok P m g n None order t \<and> accounted P m order t" P order t evs] assms(1,2,4)
    pieces_None [OF assms(3)] claims_step pieces_step [OF _ _ _ apart_None] accounted_step
  by blast

text \<open>At the end nothing is left over.\<close>

lemma all_good:
  assumes "accounted P m order t" "joined_all t" "tr_workers t \<noteq> [] \<or> order = []"
    and "\<not> tr_failed t" "\<not> dl_cancelled (tr_download t)" "q < pieceCount m"
  shows "good P m (tr_file t) q"
proof -
  have all_done: "tr_workers t ! i = W_done" if "i < length (tr_workers t)" for i
    using assms(2) that by (simp add: joined_all_def list_all_length)
  then have calm: "\<not> trouble t"
    using assms(4,5) by (auto simp: trouble_def)
  show ?thesis
  proof (cases "q \<in> set order")
    case True
    then obtain p where p: "p < length order" "order ! p = q"
      by (auto simp: in_set_conv_nth)
    then have "tr_workers t \<noteq> []"
      using assms(3) by auto
    then have "length order \<le> tr_next t"
      using assms(1) all_done [of 0] calm by (auto simp: accounted_def)
    moreover have "held (tr_workers t ! i) \<noteq> Some p" if "i < length (tr_workers t)" for i
      using all_done [OF that] by simp
    ultimately show ?thesis
      using assms(1) calm p by (auto simp: accounted_def)
  qed (use assms(1,6) in \<open>simp add: accounted_def\<close>)
qed

section \<open>The counter\<close>

fun uncounted :: "worker \<Rightarrow> nat" where
  "uncounted (W_attempt p k) = 1"
| "uncounted (W_seeder p k) = 1"
| "uncounted (W_fetch p k a) = 1"
| "uncounted (W_count p) = 1"
| "uncounted _ = 0"

definition counted_ok :: "nat \<Rightarrow> nat list \<Rightarrow> transfer \<Rightarrow> bool" where
  "counted_ok base order t \<longleftrightarrow>
     dl_completed (tr_download t) + sum_list (map uncounted (tr_workers t)) \<le> base + min (tr_next t) (length order)"

lemma seederAt_completed: "seederAt P now env tc i dl = (a, tc', dl') \<Longrightarrow> dl_completed dl' = dl_completed dl"
  by (auto simp: seederAt_def Let_def split: if_splits prod.splits sum.splits)

lemma worker_step_counts:
  assumes "worker_step P order env w t = (w', t')"
  shows "dl_completed (tr_download t') + uncounted w' + min (tr_next t) (length order) \<le>
    dl_completed (tr_download t) + uncounted w + min (tr_next t') (length order)"
  using assms
  by (cases w) (auto simp: worker_step_def Let_def markVerified_def dest: seederAt_completed fetch_step_held split: prod.splits if_splits)

lemma counted_step:
  assumes "counted_ok base order t"
  shows "counted_ok base order (transfer_step P order t ev)"
proof (cases ev)
  case (Ev_step i env)
  show ?thesis
  proof (cases "i < length (tr_workers t)")
    case True
    obtain w' t' where w: "worker_step P order env (tr_workers t ! i) t = (w', t')"
      by fastforce
    with worker_step_counts [OF w] sum_list_update_nth [OF True, of uncounted w'] assms True show ?thesis
      by (simp add: Ev_step transfer_step_def counted_ok_def)
  qed (simp add: Ev_step transfer_step_def assms)
qed (use assms in \<open>simp_all add: transfer_step_def counted_ok_def Download_cancel_def\<close>)

lemma counted_run: "counted_ok base order t \<Longrightarrow> counted_ok base order (transfer_run P order evs t)"
  by (rule run_keeps [of "counted_ok base order"]) (rule counted_step)

end
