(* ===== verification/Download_Lemmas.thy ===== *)
theory Download_Lemmas
  imports Transfer_Outcome
begin

text \<open>
  What the single-threaded methods of a download compute: the pieces kept from an earlier run, the
  count of holders, the order of the missing pieces, and that the state the workers start in keeps
  their invariants.
\<close>

section \<open>Rarest first\<close>

definition rarer :: "nat list \<Rightarrow> nat \<Rightarrow> nat \<Rightarrow> bool" where
  "rarer rarity a b \<longleftrightarrow> rarity ! a < rarity ! b \<or> rarity ! a = rarity ! b \<and> a < b"

lemma insort_rarer:
  "sorted_wrt (rarer r) xs \<Longrightarrow> \<forall>y\<in>set xs. x < y \<Longrightarrow> sorted_wrt (rarer r) (insort_key ((!) r) x xs)"
  by (induction xs) (auto simp: rarer_def set_insort_key)

lemma sort_rarer: "sorted_wrt (<) xs \<Longrightarrow> sorted_wrt (rarer r) (sort_key ((!) r) xs)"
  by (induction xs) (auto intro!: insort_rarer)

lemma rarestFirst_set: "set (rarestFirst dl) = {q. q < length (dl_verified dl) \<and> \<not> dl_verified dl ! q}"
  by (auto simp: rarestFirst_def)

lemma rarestFirst_distinct: "distinct (rarestFirst dl)"
  by (simp add: rarestFirst_def)

lemma rarestFirst_sorted: "sorted_wrt (rarer (dl_rarity dl)) (rarestFirst dl)"
  unfolding rarestFirst_def by (intro sort_rarer sorted_wrt_filter) simp

lemma length_rarestFirst: "length (rarestFirst dl) + length (filter id (dl_verified dl)) = length (dl_verified dl)"
proof -
  have "filter id (dl_verified dl) = map ((!) (dl_verified dl)) (filter ((!) (dl_verified dl)) [0..<length (dl_verified dl)])"
    using filter_map [of id "(!) (dl_verified dl)" "[0..<length (dl_verified dl)]"] by (simp add: map_nth comp_def)
  then show ?thesis
    using sum_length_filter_compl [of "(!) (dl_verified dl)" "[0..<length (dl_verified dl)]"] by (simp add: rarestFirst_def)
qed

section \<open>Holders\<close>

text \<open>The state of \<open>fetchBitmaps\<close> after the first \<open>n\<close> seeders.\<close>

definition bitmaps_ok :: "nat \<Rightarrow> Download \<Rightarrow> bool" where
  "bitmaps_ok n dl \<longleftrightarrow> length (dl_bitmaps dl) = length (dl_seeders dl) \<and> length (dl_rarity dl) = pieceCount (dl_metadata dl) \<and>
     (\<forall>s<length (dl_seeders dl). length (dl_bitmaps dl ! s) = pieceCount (dl_metadata dl) \<or> dl_bitmaps dl ! s = []) \<and>
     (\<forall>s<length (dl_seeders dl). n \<le> s \<longrightarrow> dl_bitmaps dl ! s = []) \<and>
     (\<forall>q<pieceCount (dl_metadata dl). dl_rarity dl ! q = length (holders dl q))"

text \<open>\<open>fetchBitmaps\<close> changes the seeders' accesses, the bitmaps and the rarity, nothing else.\<close>

definition same_job :: "Download \<Rightarrow> Download \<Rightarrow> bool" where
  "same_job a b \<longleftrightarrow> (\<exists>sds bits rar. b = a\<lparr>dl_seeders := sds, dl_bitmaps := bits, dl_rarity := rar\<rparr> \<and> length sds = length (dl_seeders a))"

lemma same_jobI:
  "b = a\<lparr>dl_seeders := sds, dl_bitmaps := bits, dl_rarity := rar\<rparr> \<Longrightarrow> length sds = length (dl_seeders a) \<Longrightarrow> same_job a b"
  unfolding same_job_def by blast

lemma same_job_refl [simp]: "same_job a a"
  by (rule same_jobI [where sds = "dl_seeders a" and bits = "dl_bitmaps a" and rar = "dl_rarity a"]) simp_all

lemma same_job_trans: "same_job a b \<Longrightarrow> same_job b c \<Longrightarrow> same_job a c"
  unfolding same_job_def [of a b] same_job_def [of b c]
proof (elim exE conjE)
  fix sds bits rar sds' bits' rar'
  assume "b = a\<lparr>dl_seeders := sds, dl_bitmaps := bits, dl_rarity := rar\<rparr>" "length sds = length (dl_seeders a)"
    "c = b\<lparr>dl_seeders := sds', dl_bitmaps := bits', dl_rarity := rar'\<rparr>" "length sds' = length (dl_seeders b)"
  then show "same_job a c"
    by (intro same_jobI [where sds = sds' and bits = bits' and rar = rar']) simp_all
qed

lemma same_job_fields:
  "same_job a b \<Longrightarrow> dl_group b = dl_group a \<and> dl_name b = dl_name a \<and> dl_destination b = dl_destination a \<and>
     dl_metadata b = dl_metadata a \<and> length (dl_seeders b) = length (dl_seeders a) \<and> dl_verified b = dl_verified a \<and>
     dl_cancelled b = dl_cancelled a \<and> dl_finished b = dl_finished a \<and> dl_failed b = dl_failed a \<and>
     dl_completed b = dl_completed a \<and> dl_resumed b = dl_resumed a"
  by (auto simp: same_job_def)

lemma seederAt_job:
  assumes "seederAt P now env tc i dl = (a, tc', dl')"
  shows "same_job dl dl' \<and> dl_bitmaps dl' = dl_bitmaps dl \<and> dl_rarity dl' = dl_rarity dl"
proof -
  obtain sds where "dl' = dl\<lparr>dl_seeders := sds\<rparr>" "length sds = length (dl_seeders dl)"
    using seederAt_keeps [OF assms] by metis
  then show ?thesis
    by (auto intro: same_jobI [where sds = sds and bits = "dl_bitmaps dl" and rar = "dl_rarity dl"])
qed

lemma add_bitmap_nth: "q < length r \<Longrightarrow> add_bitmap r bits ! q = r ! q + (if q < length bits \<and> bits ! q then 1 else 0)"
  by (simp add: add_bitmap_def)

lemma length_add_bitmap [simp]: "length (add_bitmap r bits) = length r"
  by (simp add: add_bitmap_def)

lemma length_filter_one_more:
  assumes "n < m" "\<And>i. i \<noteq> n \<Longrightarrow> Q' i = Q i" "\<not> Q n"
  shows "length (filter Q' [0..<m]) = length (filter Q [0..<m]) + (if Q' n then 1 else 0)"
proof -
  have "[0..<m] = [0..<n] @ n # [Suc n..<m]"
    using assms(1) by (metis upt_add_eq_append upt_conv_Cons zero_le le_add_diff_inverse less_imp_le)
  moreover have "filter Q' [0..<n] = filter Q [0..<n]" "filter Q' [Suc n..<m] = filter Q [Suc n..<m]"
    using assms(2) by (auto intro!: filter_cong)
  ultimately show ?thesis
    using assms(3) by simp
qed

lemma bitmaps_step:
  assumes "bitmaps_ok n dl" "n < length (dl_seeders dl)" "fetch_bitmap P env (tc, dl) n = (tc', dl')"
  shows "bitmaps_ok (Suc n) dl' \<and> same_job dl dl'"
proof -
  obtain a tc1 dl1 where s: "seederAt P (be_now (env n)) (be_locate (env n)) tc n dl = (a, tc1, dl1)"
    by (metis prod_cases3)
  note job = seederAt_job [OF s]
  note fields = same_job_fields [OF conjunct1 [OF job]]
  have ok: "bitmaps_ok n dl1"
    using assms(1) job fields by (simp add: bitmaps_ok_def holders_def)
  obtain result bits where f: "PeerClient_fetchBitmap P (be_peer (env n)) a (pieceCount (dl_metadata dl)) = (result, bits)"
    by fastforce
  show ?thesis
  proof (cases "result = Success")
    case False
    then have "dl' = dl1"
      using assms(3) s f by (simp add: fetch_bitmap_def)
    with ok job show ?thesis
      by (simp add: bitmaps_ok_def)
  next
    case True
    then have dl': "dl' = dl1\<lparr>dl_bitmaps := (dl_bitmaps dl1)[n := bits], dl_rarity := add_bitmap (dl_rarity dl1) bits\<rparr>"
      using assms(3) s f by (simp add: fetch_bitmap_def)
    have len: "length bits = pieceCount (dl_metadata dl)"
      using f True fetchBitmap_Success by simp
    have n: "n < length (dl_bitmaps dl1)" "n < length (dl_seeders dl1)" "dl_bitmaps dl1 ! n = []"
      using ok assms(2) fields by (simp_all add: bitmaps_ok_def)
    have "length (holders dl' q) = length (holders dl1 q) + (if bits ! q then 1 else 0)" if "q < pieceCount (dl_metadata dl)" for q
      using length_filter_one_more [OF n(2), of "\<lambda>s. q < length (dl_bitmaps dl' ! s) \<and> dl_bitmaps dl' ! s ! q"
          "\<lambda>s. q < length (dl_bitmaps dl1 ! s) \<and> dl_bitmaps dl1 ! s ! q"] n len that
      by (simp add: holders_def dl')
    then have "bitmaps_ok (Suc n) dl'"
      using ok len fields n(1) by (auto simp: bitmaps_ok_def dl' add_bitmap_nth nth_list_update)
    moreover have "same_job dl1 dl'"
      unfolding dl' by (rule same_jobI [where sds = "dl_seeders dl1" and bits = "(dl_bitmaps dl1)[n := bits]" and rar = "add_bitmap (dl_rarity dl1) bits"]) simp_all
    ultimately show ?thesis
      using job same_job_trans by blast
  qed
qed

lemma bitmaps_prefix:
  assumes "bitmaps_ok 0 dl" "n \<le> length (dl_seeders dl)"
  shows "bitmaps_ok n (snd (foldl (fetch_bitmap P env) (tc, dl) [0..<n])) \<and>
    same_job dl (snd (foldl (fetch_bitmap P env) (tc, dl) [0..<n]))"
  using assms(2)
proof (induction n)
  case (Suc n)
  obtain tc1 dl1 where l: "foldl (fetch_bitmap P env) (tc, dl) [0..<n] = (tc1, dl1)"
    by fastforce
  with Suc have "bitmaps_ok n dl1" "same_job dl dl1"
    by simp_all
  moreover obtain tc2 dl2 where s: "fetch_bitmap P env (tc1, dl1) n = (tc2, dl2)"
    by fastforce
  ultimately show ?case
    using bitmaps_step [OF _ _ s] Suc.prems same_job_fields [of dl dl1] same_job_trans [of dl dl1 dl2] by (simp add: l s)
qed (use assms(1) in simp)

lemma fetchBitmaps_ok:
  assumes "Download_fetchBitmaps P env tc dl = (tc', dl')"
  shows "bitmaps_ok (length (dl_seeders dl')) dl' \<and> same_job dl dl'"
proof -
  let ?dl0 = "dl\<lparr>dl_bitmaps := replicate (length (dl_seeders dl)) [], dl_rarity := replicate (pieceCount (dl_metadata dl)) 0\<rparr>"
  have "bitmaps_ok 0 ?dl0"
    by (simp add: bitmaps_ok_def holders_def)
  from bitmaps_prefix [OF this, of "length (dl_seeders dl)" P env tc] assms have "bitmaps_ok (length (dl_seeders dl)) dl'" "same_job ?dl0 dl'"
    by (simp_all add: Download_fetchBitmaps_def)
  moreover have "same_job dl ?dl0"
    by (rule same_jobI [where sds = "dl_seeders dl" and bits = "replicate (length (dl_seeders dl)) []"
        and rar = "replicate (pieceCount (dl_metadata dl)) 0"]) simp_all
  ultimately show ?thesis
    using same_job_trans same_job_fields by metis
qed

section \<open>Resuming\<close>

lemma piece_checks_good:
  assumes "sized m" "q < pieceCount m" "piece_checks P evs content m q"
  shows "good P m content q"
proof -
  note q = piece_index [OF assms(1,2)]
  obtain data where "PieceFile_read evs content (of_nat q) (unat (pieceLength m (of_nat q))) = Some data"
      "sha1Hex P data = fm_pieceHashes m ! q"
    using assms(3) by (auto simp: piece_checks_def split: option.splits)
  with read_piece [OF this(1), of "fm_size m"] q(1,2) assms(1) show ?thesis
    by (simp add: good_def piece_bytes_def sized_def)
qed

lemma prepare_True:
  assumes "Download_prepare P env fs dl = (True, fs', dl')"
  shows "\<exists>content verified. fs_files fs' (partPath dl) = Some content \<and> length content = unat (fm_size (dl_metadata dl)) \<and>
    verified = map (\<lambda>q. fs_files fs (partPath dl) \<noteq> None \<and> piece_checks P (pp_reads env q) content (dl_metadata dl) q)
      [0..<pieceCount (dl_metadata dl)] \<and>
    dl' = dl\<lparr>dl_verified := verified, dl_resumed := dl_resumed dl + length (filter id verified),
      dl_completed := dl_resumed dl + length (filter id verified)\<rparr>"
  using assms by (auto simp: Download_prepare_def PieceFile_openForWriting_def resized_def Let_def split: if_splits option.splits)

section \<open>Where the workers start\<close>

lemma begun_state:
  assumes "Download_begin P env tc fs files dl = Inr (fs1, order, t0)"
  obtains content verified dl1 dl2 tc3 where "length content = unat (fm_size (dl_metadata dl))"
    "verified = map (\<lambda>q. fs_files fs (partPath dl) \<noteq> None \<and> piece_checks P (pp_reads (rn_prepare env) q) content (dl_metadata dl) q)
       [0..<pieceCount (dl_metadata dl)]"
    "dl1 = dl\<lparr>dl_verified := verified, dl_resumed := dl_resumed dl + length (filter id verified),
       dl_completed := dl_resumed dl + length (filter id verified)\<rparr>"
    "bitmaps_ok (length (dl_seeders dl2)) dl2" "same_job dl1 dl2" "order = rarestFirst dl2"
    "t0 = fetch_start order tc3 content (SharedFiles_add (dl_group dl) (dl_name dl)
       \<lparr>lf_path = partPath dl, lf_metadata = dl_metadata dl, lf_available = verified\<rparr> files) dl2"
proof -
  obtain dl1 where prep: "Download_prepare P (rn_prepare env) fs dl = (True, fs1, dl1)"
    using assms by (auto simp: Download_begin_def Let_def split: prod.splits bool.splits)
  obtain tc2 dl2 where bitmaps: "Download_fetchBitmaps P (rn_bitmaps env) tc dl1 = (tc2, dl2)"
    by fastforce
  obtain content verified where p: "fs_files fs1 (partPath dl) = Some content" "length content = unat (fm_size (dl_metadata dl))"
      "verified = map (\<lambda>q. fs_files fs (partPath dl) \<noteq> None \<and> piece_checks P (pp_reads (rn_prepare env) q) content (dl_metadata dl) q)
        [0..<pieceCount (dl_metadata dl)]"
      "dl1 = dl\<lparr>dl_verified := verified, dl_resumed := dl_resumed dl + length (filter id verified),
        dl_completed := dl_resumed dl + length (filter id verified)\<rparr>"
    using prepare_True [OF prep] by blast
  note job = fetchBitmaps_ok [OF bitmaps]
  have dl2: "dl_metadata dl2 = dl_metadata dl" "dl_group dl2 = dl_group dl" "dl_name dl2 = dl_name dl"
      "partPath dl2 = partPath dl" "dl_verified dl2 = verified"
    using same_job_fields [OF conjunct2 [OF job]] p(4) by (simp_all add: partPath_def)
  obtain tc3 where "order = rarestFirst dl2"
      "t0 = fetch_start order tc3 content (SharedFiles_add (dl_group dl) (dl_name dl)
         \<lparr>lf_path = partPath dl, lf_metadata = dl_metadata dl, lf_available = verified\<rparr> files) dl2"
    using assms prep bitmaps dl2 p(1) by (auto simp: Download_begin_def Let_def split: prod.splits)
  with p(2-4) job that show ?thesis
    by blast
qed

text \<open>Whatever the metadata: where the workers start, and how many pieces they have to fetch.\<close>

lemma begun_shape:
  assumes "Download_begin P env tc fs files dl = Inr (fs1, order, t0)"
  shows "claims_ok order t0" "distinct order" "\<forall>q\<in>set order. q < pieceCount (dl_metadata dl)"
    "length order \<le> pieceCount (dl_metadata dl)" "dl_metadata (tr_download t0) = dl_metadata dl"
    "same_job dl (tr_download t0\<lparr>dl_verified := dl_verified dl, dl_resumed := dl_resumed dl, dl_completed := dl_completed dl\<rparr>)"
    "length (dl_seeders (tr_download t0)) = length (dl_seeders dl)"
    "tr_workers t0 = replicate (min MAX_THREADS (min (length (dl_seeders dl)) (length order))) W_loop"
    "bitmaps_ok (length (dl_seeders dl)) (tr_download t0)" "order = rarestFirst (tr_download t0)"
    "tries_ok (PASSES_PER_PIECE * length (dl_seeders dl)) (length (tr_workers t0)) t0"
    "dl_resumed dl = 0 \<Longrightarrow> counted_ok (pieceCount (dl_metadata dl) - length order) order t0"
proof -
  let ?m = "dl_metadata dl"
  obtain content verified dl1 dl2 tc3 where s: "length content = unat (fm_size ?m)"
      "verified = map (\<lambda>q. fs_files fs (partPath dl) \<noteq> None \<and> piece_checks P (pp_reads (rn_prepare env) q) content ?m q) [0..<pieceCount ?m]"
      "dl1 = dl\<lparr>dl_verified := verified, dl_resumed := dl_resumed dl + length (filter id verified),
        dl_completed := dl_resumed dl + length (filter id verified)\<rparr>"
      "bitmaps_ok (length (dl_seeders dl2)) dl2" "same_job dl1 dl2" "order = rarestFirst dl2"
      "t0 = fetch_start order tc3 content (SharedFiles_add (dl_group dl) (dl_name dl)
        \<lparr>lf_path = partPath dl, lf_metadata = ?m, lf_available = verified\<rparr> files) dl2"
    using assms by (rule begun_state)
  have dl2: "dl_metadata dl2 = ?m" "dl_verified dl2 = verified" "length (dl_seeders dl2) = length (dl_seeders dl)"
      "dl_completed dl2 = dl_resumed dl + length (filter id verified)"
    using same_job_fields [OF s(5)] s(3) by simp_all
  have len: "length verified = pieceCount ?m"
    using s(2) by simp
  show "claims_ok order t0"
    unfolding s(7) by (rule claims_start)
  show "distinct order" "\<forall>q\<in>set order. q < pieceCount ?m"
    using s(6) rarestFirst_distinct rarestFirst_set [of dl2] dl2(2) len by auto
  have count: "length order + length (filter id verified) = pieceCount ?m"
    using length_rarestFirst [of dl2] dl2(2) len s(6) by simp
  then show "length order \<le> pieceCount ?m" "dl_resumed dl = 0 \<Longrightarrow> counted_ok (pieceCount ?m - length order) order t0"
    using dl2(4) by (auto simp: counted_ok_def s(7) fetch_start_def sum_list_replicate)
  show "length (dl_seeders (tr_download t0)) = length (dl_seeders dl)" "dl_metadata (tr_download t0) = ?m"
    "tr_workers t0 = replicate (min MAX_THREADS (min (length (dl_seeders dl)) (length order))) W_loop"
    "bitmaps_ok (length (dl_seeders dl)) (tr_download t0)" "order = rarestFirst (tr_download t0)"
    using dl2 s(4,6,7) by (simp_all add: fetch_start_def)
  show "tries_ok (PASSES_PER_PIECE * length (dl_seeders dl)) (length (tr_workers t0)) t0"
    using tries_start [of dl2 order tc3 content] dl2(3) by (simp add: s(7) fetch_start_def)
  obtain sds bits rar where "dl2 = dl1\<lparr>dl_seeders := sds, dl_bitmaps := bits, dl_rarity := rar\<rparr>" "length sds = length (dl_seeders dl1)"
    using s(5) by (auto simp: same_job_def)
  then show "same_job dl (tr_download t0\<lparr>dl_verified := dl_verified dl, dl_resumed := dl_resumed dl, dl_completed := dl_completed dl\<rparr>)"
    using s(3) by (intro same_jobI [where sds = sds and bits = bits and rar = rar]) (simp_all add: s(7) fetch_start_def)
qed

text \<open>With the metadata of an actual file: the pieces that are there are good.\<close>

lemma begun:
  assumes "Download_begin P env tc fs files dl = Inr (fs1, order, t0)"
    and "sized (dl_metadata dl)" "hash_lengths P (dl_metadata dl)"
  shows "plan_ok P (dl_metadata dl) order" "claims_ok order t0"
    "pieces_ok P (dl_metadata dl) (dl_group dl) (dl_name dl) (Some (partPath dl)) order t0"
    "accounted P (dl_metadata dl) order t0"
proof -
  let ?m = "dl_metadata dl"
  note shape = begun_shape [OF assms(1)]
  show "plan_ok P ?m order" "claims_ok order t0"
    using shape(1-3) assms(2,3) by (simp_all add: plan_ok_def)
  obtain content verified dl1 dl2 tc3 where s: "length content = unat (fm_size ?m)"
      "verified = map (\<lambda>q. fs_files fs (partPath dl) \<noteq> None \<and> piece_checks P (pp_reads (rn_prepare env) q) content ?m q) [0..<pieceCount ?m]"
      "dl1 = dl\<lparr>dl_verified := verified, dl_resumed := dl_resumed dl + length (filter id verified),
        dl_completed := dl_resumed dl + length (filter id verified)\<rparr>"
      "bitmaps_ok (length (dl_seeders dl2)) dl2" "same_job dl1 dl2" "order = rarestFirst dl2"
      "t0 = fetch_start order tc3 content (SharedFiles_add (dl_group dl) (dl_name dl)
        \<lparr>lf_path = partPath dl, lf_metadata = ?m, lf_available = verified\<rparr> files) dl2"
    using assms(1) by (rule begun_state)
  have dl2: "dl_metadata dl2 = ?m" "dl_group dl2 = dl_group dl" "dl_name dl2 = dl_name dl" "dl_verified dl2 = verified"
    using same_job_fields [OF s(5)] s(3) by simp_all
  have set: "set order = {q. q < pieceCount ?m \<and> \<not> verified ! q}"
    using s(2,6) rarestFirst_set [of dl2] dl2(4) by simp
  have good: "good P ?m content q" if "q < pieceCount ?m" "verified ! q" for q
    by (rule piece_checks_good [OF assms(2) that(1), of _ "pp_reads (rn_prepare env) q"]) (use that s(2) in simp)
  have "settled P ?m order t0 q" if "published (dl_group dl) (dl_name dl) (Some (partPath dl)) (tr_shared t0) q" for q
  proof -
    have "q < pieceCount ?m" "verified ! q"
      using that s(2) by (auto simp: published_def s(7) fetch_start_def shared.lookup_add)
    moreover from this have "order ! p \<noteq> q" if "p < length order" for p
      using set nth_mem [OF that] by auto
    ultimately show ?thesis
      using good by (auto simp: settled_def s(7) fetch_start_def)
  qed
  then show "pieces_ok P ?m (dl_group dl) (dl_name dl) (Some (partPath dl)) order t0"
    using dl2 s(1) by (auto simp: pieces_ok_def s(7) fetch_start_def)
  show "accounted P ?m order t0"
    using set good by (auto simp: accounted_def s(7) fetch_start_def)
qed

end
