(* ===== verification/Download_Outcome.thy ===== *)
theory Download_Outcome
  imports Download_Lemmas
begin

text \<open>
  The end of a download: what \<open>complete\<close> leaves, and that pieces which all match make up the file.
\<close>

section \<open>The whole file\<close>

lemma piece_nth:
  assumes "sized m" "length content = unat (fm_size m)" "i < length content"
  shows "i div 524288 < pieceCount m" "content ! i = piece_bytes m content (i div 524288) ! (i mod 524288)"
    "i mod 524288 < length (piece_bytes m content (i div 524288))"
proof -
  have "i div 524288 \<le> (length content - 1) div 524288"
    using assms(3) by (intro div_le_mono) simp
  also have "\<dots> < (length content + 524287) div 524288"
    using assms(3) by (simp add: less_eq_Suc_le div_le_mono flip: div_add_self2)
  finally show q: "i div 524288 < pieceCount m"
    using assms(1,2) by (simp add: sized_def valid_def pieceCount_def unat_pieceCountForSize)
  have split: "i = i div 524288 * 524288 + i mod 524288" "i mod 524288 < 524288"
    by simp_all
  have in_piece: "i mod 524288 < unat (pieceLength m (of_nat (i div 524288)))"
    using piece_index(3) [OF assms(1) q] split assms(2,3) by linarith
  have rest: "i mod 524288 < length content - i div 524288 * 524288"
    using split(1) assms(3) by linarith
  from in_piece split assms(3) show "content ! i = piece_bytes m content (i div 524288) ! (i mod 524288)"
    by (simp add: piece_bytes_def)
  show "i mod 524288 < length (piece_bytes m content (i div 524288))"
    using in_piece rest by (simp add: piece_bytes_def)
qed

lemma content_from_pieces:
  assumes "sized m" "length a = unat (fm_size m)" "length b = unat (fm_size m)"
    and "\<And>q. q < pieceCount m \<Longrightarrow> piece_bytes m a q = piece_bytes m b q"
  shows "a = b"
proof (rule nth_equalityI)
  show "length a = length b"
    using assms(2,3) by simp
  show "a ! i = b ! i" if "i < length a" for i
    using piece_nth [OF assms(1,2) that] piece_nth [OF assms(1,3), of i] assms(2-4) that by simp
qed

text \<open>Metadata that hashing a file produced.\<close>

lemma hashed_metadata:
  assumes "PieceFile_hash P (Some original) False = Some m" "length original < 2 ^ 63"
  shows "sized m" "unat (fm_size m) = length original" "fm_fullHash m = sha1Hex P original"
    "\<And>q. q < pieceCount m \<Longrightarrow> fm_pieceHashes m ! q = sha1Hex P (piece_bytes m original q)"
proof -
  have m: "m = \<lparr>fm_size = of_nat (length original), fm_fullHash = sha1Hex P original,
      fm_pieceHashes = map (sha1Hex P) (piece_chunks original)\<rparr>"
    using assms(1) by (simp add: PieceFile_hash_eq)
  have u: "unat (of_nat (length original) :: u64) = length original"
    using assms(2) by (simp add: unat_of_nat)
  show sz: "sized m" "unat (fm_size m) = length original" "fm_fullHash m = sha1Hex P original"
    using hash_valid [of original P] assms(2) u by (simp_all add: sized_def m)
  show "fm_pieceHashes m ! q = sha1Hex P (piece_bytes m original q)" if q: "q < pieceCount m" for q
  proof -
    have "q < length (piece_chunks original)"
      using q by (simp add: m pieceCount_def)
    then show ?thesis
      using nth_piece_chunks [of q original] piece_index(3) [OF sz(1) q] sz(2)
      by (simp add: m piece_bytes_def min_def)
  qed
qed

text \<open>If nothing but the file's own pieces has their hashes, these are hashes of data of the pieces' lengths.\<close>

lemma unique_hash_lengths:
  assumes "sized m" "unat (fm_size m) = length original"
    and "\<And>q x. q < pieceCount m \<Longrightarrow> sha1Hex P x = fm_pieceHashes m ! q \<Longrightarrow> x = piece_bytes m original q"
  shows "hash_lengths P m"
  unfolding hash_lengths_def
proof (intro allI impI)
  fix q d
  assume q: "q < pieceCount m" "sha1Hex P d = fm_pieceHashes m ! q"
  then show "length d = unat (pieceLength m (of_nat q))"
    using assms(3) [OF q] piece_index(3,4) [OF assms(1) q(1)] assms(2) by (auto simp: piece_bytes_def)
qed

section \<open>The last step\<close>

lemma complete_C:
  assumes "Download_complete P env tc fs files dl = (tc', fs', files', dl')" "Download_state dl' = CHR ''C''"
  shows "\<exists>content. fs_files fs (partPath dl) = Some content \<and> of_nat (length content) = fm_size (dl_metadata dl) \<and>
    sha1Hex P content = fm_fullHash (dl_metadata dl) \<and>
    fs_files fs' = (fs_files fs)(dl_destination dl \<mapsto> content, partPath dl := None) \<and>
    SharedFiles_find (dl_group dl) (dl_name dl) files' =
      Some \<lparr>lf_path = dl_destination dl, lf_metadata = dl_metadata dl, lf_available = replicate (pieceCount (dl_metadata dl)) True\<rparr>"
proof (cases "fs_files fs (partPath dl)")
  case None
  then show ?thesis
    using assms by (auto simp: Download_complete_def PieceFile_hash_def Download_state_def Download_finish_def)
next
  case (Some content)
  show ?thesis
  proof (cases "co_bad env")
    case True
    then show ?thesis
      using assms Some by (auto simp: Download_complete_def PieceFile_hash_def Download_state_def Download_finish_def)
  next
    case False
    then show ?thesis
      using assms Some
      by (auto simp: Download_complete_def PieceFile_hash_eq Download_state_def Download_finish_def Let_def rename_file_def
          shared.lookup_add split: if_splits prod.splits)
  qed
qed

lemma complete_succeeds:
  assumes "fs_files fs (partPath dl) = Some content" "of_nat (length content) = fm_size (dl_metadata dl)"
    "sha1Hex P content = fm_fullHash (dl_metadata dl)" "\<not> co_bad env" "co_renames env"
  shows "Download_state (snd (snd (snd (Download_complete P env tc fs files dl)))) = CHR ''C''"
  using assms
  by (auto simp: Download_complete_def PieceFile_hash_eq Download_state_def Download_finish_def Let_def split: prod.split)

section \<open>What the workers never change\<close>

definition job_of :: "Download \<Rightarrow> string \<times> string \<times> string \<times> FileMetadata" where
  "job_of dl = (dl_group dl, dl_name dl, dl_destination dl, dl_metadata dl)"

lemma seederAt_job_of: "seederAt P now env tc i dl = (a, tc', dl') \<Longrightarrow> job_of dl' = job_of dl"
  by (auto simp: seederAt_def job_of_def Let_def split: if_splits prod.splits sum.splits)

lemma worker_step_job: "worker_step P order env w t = (w', t') \<Longrightarrow> job_of (tr_download t') = job_of (tr_download t)"
  by (cases w) (auto simp: worker_step_def Let_def markVerified_def job_of_def [of "_\<lparr>dl_completed := _\<rparr>"] job_of_def [of "_\<lparr>dl_integrity := _\<rparr>"]
      job_of_def [of "tr_download t"] dest: seederAt_job_of fetch_step_held split: prod.splits if_splits)

lemma transfer_step_job: "job_of (tr_download (transfer_step P order t ev)) = job_of (tr_download t)"
  by (cases ev) (auto simp: transfer_step_def Download_cancel_def job_of_def [of "_\<lparr>dl_cancelled := _\<rparr>"] job_of_def [of "tr_download t"]
      dest: worker_step_job split: prod.splits)

lemma transfer_run_job: "job_of (tr_download (transfer_run P order evs t)) = job_of (tr_download t)"
  by (rule run_keeps [of "\<lambda>t'. job_of (tr_download t') = job_of (tr_download t)"]) (simp_all add: transfer_step_job)

end
