(* ===== verification/Delivery.thy ===== *)
theory Delivery
  imports Frames Piece_File
begin

text \<open>
  A kernel that moves what it is asked to move: scripts of system-call results under which a series of
  transfers of given lengths all succeed, in whatever portions and with whatever interruptions.  With
  such scripts a frame that was written arrives, and a piece is read or written whole.
\<close>

fun serves :: "io_event list \<Rightarrow> nat list \<Rightarrow> bool" where
  "serves evs [] = True"
| "serves evs (0 # ns) = serves evs ns"
| "serves [] (Suc n # ns) = False"
| "serves (Io_eintr # evs) (Suc n # ns) = serves evs (Suc n # ns)"
| "serves (Io_fail # evs) (Suc n # ns) = False"
| "serves (Io_count k # evs) (Suc n # ns) = (k \<noteq> 0 \<and> serves evs ((Suc n - min k (Suc n)) # ns))"

lemma sendAll_serves:
  "serves evs (length data # ns) \<Longrightarrow> \<exists>evs'. sendAll evs data = (True, data, evs') \<and> serves evs' ns"
proof (induction evs data rule: sendAll.induct)
  case (5 n evs c data)
  then have n: "n \<noteq> 0" "serves evs (length (drop n (c # data)) # ns)"
    by (simp_all add: min_def split: if_splits)
  with "5.IH" obtain evs' where "sendAll evs (drop n (c # data)) = (True, drop n (c # data), evs')" "serves evs' ns"
    by blast
  with n(1) show ?case
    by (simp add: Let_def)
qed auto

lemma receiveAll_serves:
  "serves evs (len # ns) \<Longrightarrow> len \<le> length input \<Longrightarrow>
     \<exists>evs'. receiveAll evs input len = (Some (take len input), drop len input, evs') \<and> serves evs' ns"
proof (induction evs input len rule: receiveAll.induct)
  case (5 n evs input len)
  define count where "count = min n (min (Suc len) (length input))"
  have count: "count = min n (Suc len)" "count \<noteq> 0" "count \<le> Suc len"
    using "5.prems" by (auto simp: count_def)
  then have "serves evs ((Suc len - count) # ns)" "Suc len - count \<le> length (drop count input)"
    using "5.prems" by auto
  with "5.IH" [OF count_def count(2)] obtain evs' where
    "receiveAll evs (drop count input) (Suc len - count) =
       (Some (take (Suc len - count) (drop count input)), drop (Suc len - count) (drop count input), evs')"
    "serves evs' ns"
    by blast
  moreover have "take count input @ take (Suc len - count) (drop count input) = take (Suc len) input"
    using count(3) by (metis le_add_diff_inverse take_add)
  moreover have "drop (Suc len - count) (drop count input) = drop (Suc len) input"
    using count(3) by simp
  ultimately show ?case
    using count(2) by (simp add: Let_def flip: count_def)
qed auto

lemma serves_count: "0 < n \<Longrightarrow> n \<le> k \<Longrightarrow> serves (Io_count k # evs) (n # ns) = serves evs ns"
  by (cases n) simp_all

text \<open>Both ends of a frame.\<close>

lemma Socket_sendFrame_serves:
  assumes "int (length payload) \<le> MAX_FRAME" "serves (so_sends s) (4 # length payload # ns)"
  shows "\<exists>s'. Socket_sendFrame s payload = (True, s') \<and> so_out s' = so_out s @ frame_bytes payload \<and>
    so_in s' = so_in s \<and> so_recvs s' = so_recvs s \<and> serves (so_sends s') ns"
proof -
  obtain evs1 where "sendAll (so_sends s) (be32 (int (length payload))) = (True, be32 (int (length payload)), evs1)"
      "serves evs1 (length payload # ns)"
    using sendAll_serves [of "so_sends s" "be32 (int (length payload))" "length payload # ns"] assms(2) by auto
  moreover from this(2) obtain evs2 where "sendAll evs1 payload = (True, payload, evs2)" "serves evs2 ns"
    using sendAll_serves by blast
  ultimately show ?thesis
    using assms(1) by (simp add: Socket_sendFrame_def sendFrame_def frame_bytes_def)
qed

lemma Socket_receiveFrame_serves:
  assumes "int (length payload) \<le> MAX_FRAME" "serves (so_recvs s) (4 # length payload # ns)" "so_in s = frame_bytes payload @ rest"
  shows "\<exists>s'. Socket_receiveFrame s = (Some payload, s') \<and> so_in s' = rest \<and> so_out s' = so_out s \<and>
    so_sends s' = so_sends s \<and> serves (so_recvs s') ns"
proof -
  let ?prefix = "be32 (int (length payload))"
  obtain evs1 where "receiveAll (so_recvs s) (so_in s) 4 = (Some ?prefix, payload @ rest, evs1)" "serves evs1 (length payload # ns)"
    using receiveAll_serves [OF assms(2), of "so_in s"] assms(3) by (auto simp: frame_bytes_def)
  moreover from this(2) obtain evs2 where "receiveAll evs1 (payload @ rest) (length payload) = (Some payload, rest, evs2)" "serves evs2 ns"
    using receiveAll_serves [of evs1 "length payload" ns "payload @ rest"] by auto
  moreover have "be32_value ?prefix = int (length payload)"
    using assms(1) by (intro be32_value_be32) (simp_all add: MAX_FRAME_def)
  ultimately show ?thesis
    using assms(1) by (simp add: Socket_receiveFrame_def receiveFrame_def)
qed

section \<open>Pieces\<close>

lemma pread_loop_serves:
  "serves evs (len # ns) \<Longrightarrow> 0 \<le> offset \<Longrightarrow> nat offset + len \<le> length content \<Longrightarrow>
     pread_loop evs content offset len = Some (take len (drop (nat offset) content))"
proof (induction evs content offset len rule: pread_loop.induct)
  case (5 n evs content offset len)
  define there where "there = (if offset < 0 then [] else drop (nat offset) content)"
  define count where "count = min n (min (Suc len) (length there))"
  have there: "there = drop (nat offset) content" "Suc len \<le> length there"
    using "5.prems" by (auto simp: there_def)
  then have count: "count = min n (Suc len)" "count \<noteq> 0" "count \<le> Suc len"
    using "5.prems"(1) by (auto simp: count_def)
  have off: "nat (offset + int count) = nat offset + count" "0 \<le> offset + int count"
    using "5.prems"(2) by simp_all
  have "pread_loop evs content (offset + int count) (Suc len - count) =
      Some (take (Suc len - count) (drop (nat (offset + int count)) content))"
    by (rule "5.IH" [OF there_def count_def count(2)]) (use "5.prems" count off in auto)
  moreover have "take count there @ take (Suc len - count) (drop (nat offset + count) content) = take (Suc len) there"
    using count(3) unfolding there(1) by (metis add.commute drop_drop le_add_diff_inverse take_add)
  moreover have "pread_loop (Io_count n # evs) content offset (Suc len) = (if count = 0 then None
      else map_option ((@) (take count there)) (pread_loop evs content (offset + int count) (Suc len - count)))"
    by (simp only: pread_loop.simps Let_def there_def count_def)
  ultimately show ?case
    using count(2) off(1) there(1) by simp
qed auto

lemma pwrite_loop_serves:
  "serves evs (length data # ns) \<Longrightarrow> 0 \<le> offset \<Longrightarrow> fst (pwrite_loop evs content offset data)"
proof (induction evs content offset data rule: pwrite_loop.induct)
  case (5 n evs content offset c data)
  define count where "count = min n (length (c # data))"
  have n: "count \<noteq> 0" "serves evs (length (drop count (c # data)) # ns)"
    using "5.prems"(1) by (auto simp: count_def min_def split: if_splits)
  have "fst (pwrite_loop evs (write_at (nat offset) (take count (c # data)) content) (offset + int count) (drop count (c # data)))"
    by (rule "5.IH" [OF count_def _ n(2)]) (use n(1) "5.prems"(2) in auto)
  with n(1) "5.prems"(2) show ?case
    by (simp only: pwrite_loop.simps Let_def flip: count_def) simp
qed auto

end
