(* ===== verification/Peer_Exchange.thy ===== *)
theory Peer_Exchange
  imports Peer_Client Delivery Piece_Writes
begin

text \<open>
  One exchange between a downloader and an honest seeder over a connection that moves the bytes: it
  succeeds, with what the seeder serves.
\<close>

text \<open>Both ends of one connection: each side receives what the other writes, and the kernels move it.\<close>

definition linked :: "platform \<Rightarrow> string \<Rightarrow> seeder_env \<Rightarrow> shared_files \<Rightarrow> Socket \<Rightarrow> peer_env \<Rightarrow> SeederAccess \<Rightarrow> string \<Rightarrow> u64 \<Rightarrow> bool" where
  "linked P peerKey se files ssock ce a operation piece \<longleftrightarrow>
     (\<exists>sock frame nonce. pe_socket ce = Some sock \<and> so_out ssock = [] \<and>
        makeRequest P (pe_entropy ce) (pe_clock ce) (sa_ticket a) (sa_key a) operation piece = Some (frame, nonce) \<and>
        int (length frame) \<le> MAX_FRAME \<and> so_in ssock = frame_bytes frame \<and>
        so_in sock = so_out (peer_connection P peerKey se files ssock) \<and>
        serves (so_sends sock) [4, length frame] \<and> serves (so_recvs ssock) [4, length frame] \<and>
        serves (so_sends ssock) [4, length (respond P peerKey se files frame)] \<and>
        serves (so_recvs sock) [4, length (respond P peerKey se files frame)])"

lemma reply_length:
  "encrypt P r key aad plain = Some m \<Longrightarrow> length (peer_encode REPLY m) = 2 * length plain + 61"
  by (drule encrypt_SomeD) (simp add: peer_encode_def REPLY_def length_toHex)

lemma request_answered:
  assumes laws: "gcm_correct P" "gcm_total P"
    and access: "access_for P peerKey ticket a" "length (sa_key a) = 32" "in_time (pe_clock ce) (sv_clock se) ticket"
    and op: "NL \<notin> set operation"
    and served: "SharedFiles_find (tk_group ticket) (tk_file ticket) files = Some f" "servePiece se f operation piece = Some reply"
      "length reply \<le> 8000000" "sv_entropy se \<noteq> None"
    and linked: "linked P peerKey se files ssock ce a operation piece"
  shows "\<exists>sock'. PeerClient_request P ce a operation piece = (Success, reply, Some sock')"
proof -
  obtain sock frame nonce where
    c: "pe_socket ce = Some sock" "so_out ssock = []"
      "makeRequest P (pe_entropy ce) (pe_clock ce) (sa_ticket a) (sa_key a) operation piece = Some (frame, nonce)"
      "int (length frame) \<le> MAX_FRAME" "so_in ssock = frame_bytes frame"
      "so_in sock = so_out (peer_connection P peerKey se files ssock)"
      "serves (so_sends sock) [4, length frame]" "serves (so_recvs ssock) [4, length frame]"
      "serves (so_sends ssock) [4, length (respond P peerKey se files frame)]"
      "serves (so_recvs sock) [4, length (respond P peerKey se files frame)]"
    using linked unfolding linked_def by blast
  let ?answer = "respond P peerKey se files frame"
  obtain m where "frame = peer_encode (requestAad (sa_ticket a)) m" "nonce = gm_nonce m"
    using c(3) by (auto simp: makeRequest_def Let_def split: option.splits)
  then have "length (replyAad (requestAad (sa_ticket a)) (toHex nonce)) \<le> length frame + 3"
    by (simp add: peer_encode_def replyAad_def REPLY_def)
  then have "fitsInt (length (replyAad (requestAad (sa_ticket a)) (toHex nonce)))" "fitsInt (length reply)"
    using c(4) served(3) by (simp_all add: fitsInt_def INT_MAX_def MAX_FRAME_def)
  then obtain sent where sent: "encrypt P (sv_entropy se) (sa_key a) (replyAad (requestAad (sa_ticket a)) (toHex nonce)) reply = Some sent"
    using encrypt_total [OF laws(2) access(2)] served(4) by (metis not_None_eq)
  have answer: "?answer = peer_encode REPLY sent"
    using respond_to_request [OF laws(1) access(1,3) op c(3) served(1)] served(2) sent by simp
  have small: "int (length ?answer) \<le> MAX_FRAME"
    using reply_length [OF sent] served(3) by (simp add: answer MAX_FRAME_def)
  obtain sock1 where sock1: "Socket_sendFrame sock frame = (True, sock1)" "so_in sock1 = so_in sock" "so_recvs sock1 = so_recvs sock"
    using Socket_sendFrame_serves [OF c(4,7)] by blast
  obtain ssock1 where ssock1: "Socket_receiveFrame ssock = (Some frame, ssock1)" "so_out ssock1 = []" "so_sends ssock1 = so_sends ssock"
    using Socket_receiveFrame_serves [OF c(4,8), of "[]"] c(2,5) by auto
  obtain ssock2 where "Socket_sendFrame ssock1 ?answer = (True, ssock2)" "so_out ssock2 = frame_bytes ?answer"
    using Socket_sendFrame_serves [OF small, of ssock1] ssock1(2,3) c(9) by auto
  then have "so_in sock1 = frame_bytes ?answer @ []"
    using c(6) sock1(2) ssock1(1) by (simp add: peer_connection_def)
  then obtain sock2 where "Socket_receiveFrame sock1 = (Some ?answer, sock2)"
    using Socket_receiveFrame_serves [OF small, of sock1] sock1(3) c(10) by auto
  with c(1,3) sock1(1) answer sealed_reply_opens [OF laws(1) sent] show ?thesis
    by (simp add: PeerClient_request_def)
qed

section \<open>A piece from an honest seeder\<close>

lemma read_piece_whole:
  assumes "sized m" "q < pieceCount m" "length content = unat (fm_size m)" "serves evs [unat (pieceLength m (of_nat q))]"
  shows "PieceFile_read evs content (of_nat q) (unat (pieceLength m (of_nat q))) = Some (piece_bytes m content q)"
proof -
  note q = piece_index [OF assms(1,2)]
  show ?thesis
    unfolding PieceFile_read_def piece_bytes_def q(5)
    using pread_loop_serves [OF assms(4), of "int (q * 524288)" content] q(3,4) assms(3)
    by (simp only: nat_int of_nat_0_le_iff)
qed

lemma servePiece_whole:
  assumes "sized m" "q < pieceCount m" "length content = unat (fm_size m)"
    and "lf_metadata f = m" "q < length (lf_available f)" "lf_available f ! q"
    and "sv_disk se (lf_path f) = Some content" "serves (sv_reads se) [unat (pieceLength m (of_nat q))]"
  shows "servePiece se f ''GET'' (of_nat q) = Some (piece_bytes m content q)"
  using read_piece_whole [OF assms(1-3,8)] piece_index(1) [OF assms(1,2)] assms(4-7) by (simp add: servePiece_def)

text \<open>What the seeder of an access holds: the whole of the file that has this metadata.\<close>

definition seeds :: "shared_files \<Rightarrow> seeder_env \<Rightarrow> PeerTicket \<Rightarrow> FileMetadata \<Rightarrow> string \<Rightarrow> bool" where
  "seeds files se ticket m content \<longleftrightarrow>
     (\<exists>f. SharedFiles_find (tk_group ticket) (tk_file ticket) files = Some f \<and> lf_metadata f = m \<and>
        lf_available f = replicate (pieceCount m) True \<and> sv_disk se (lf_path f) = Some content)"

text \<open>The answer to a fetch comes from an honest seeder: the access is for its key and the ticket in force,
  the kernels move the bytes on both sides, the seeder's disk and random generator work.\<close>

definition honest_answer :: "platform \<Rightarrow> FileMetadata \<Rightarrow> string \<Rightarrow> peer_env \<Rightarrow> SeederAccess \<Rightarrow> string \<Rightarrow> u64 \<Rightarrow> bool" where
  "honest_answer P m content ce a operation piece \<longleftrightarrow>
     (\<exists>peerKey ticket files se ssock. access_for P peerKey ticket a \<and> length (sa_key a) = 32 \<and>
        in_time (pe_clock ce) (sv_clock se) ticket \<and> seeds files se ticket m content \<and> sv_entropy se \<noteq> None \<and>
        serves (sv_reads se) [unat (pieceLength m piece)] \<and> linked P peerKey se files ssock ce a operation piece)"

lemma honest_piece:
  assumes laws: "gcm_correct P" "gcm_total P"
    and whole: "sized m" "q < pieceCount m" "length content = unat (fm_size m)" "good_hash = sha1Hex P (piece_bytes m content q)"
    and honest: "honest_answer P m content ce a ''GET'' (of_nat q)"
  shows "PeerClient_fetchPiece P ce a (of_nat q) good_hash = (Success, piece_bytes m content q)"
proof -
  obtain peerKey ticket files se ssock f where
    h: "access_for P peerKey ticket a" "length (sa_key a) = 32" "in_time (pe_clock ce) (sv_clock se) ticket"
      "SharedFiles_find (tk_group ticket) (tk_file ticket) files = Some f" "lf_metadata f = m"
      "lf_available f = replicate (pieceCount m) True" "sv_disk se (lf_path f) = Some content" "sv_entropy se \<noteq> None"
      "serves (sv_reads se) [unat (pieceLength m (of_nat q))]" "linked P peerKey se files ssock ce a ''GET'' (of_nat q)"
    using honest unfolding honest_answer_def seeds_def by blast
  have served: "servePiece se f ''GET'' (of_nat q) = Some (piece_bytes m content q)"
    by (rule servePiece_whole [OF whole(1-3) h(5) _ _ h(7,9)]) (use whole(2) h(6) in simp_all)
  have "length (piece_bytes m content q) \<le> 8000000"
    using piece_index(3) [OF whole(1,2)] by (simp add: piece_bytes_def)
  then obtain sock' where "PeerClient_request P ce a ''GET'' (of_nat q) = (Success, piece_bytes m content q, Some sock')"
    using request_answered [OF laws h(1-3) _ h(4) served _ h(8,10)] by auto
  then show ?thesis
    by (simp add: PeerClient_fetchPiece_def whole(4))
qed

end
