(* ===== verification/Password.thy ===== *)
theory Password
  imports Crypto
begin

text \<open>
  \<open>tracker/state/password.cpp\<close>: the stored form of a password and its check.
\<close>

definition ITERATIONS :: int where "ITERATIONS = 20000"
definition DIGEST_SIZE :: nat where "DIGEST_SIZE = 32"

definition password_hash :: "platform \<Rightarrow> string \<Rightarrow> string \<Rightarrow> string" where
  "password_hash P password salt =
     (if length salt \<noteq> 16 then []
      else let digest = pbkdf2Sha256 P password salt ITERATIONS DIGEST_SIZE in
        if digest = [] then []
        else ''pbkdf2-sha256$'' @ to_string_int ITERATIONS @ ''$'' @ toHex salt @ ''$'' @ toHex digest)"

definition password_verify :: "platform \<Rightarrow> string \<Rightarrow> string \<Rightarrow> bool" where
  "password_verify P password stored =
     (case split stored CHR ''$'' of
        [f0, f1, f2, f3] \<Rightarrow>
          (if f0 \<noteq> ''pbkdf2-sha256'' then False
           else case parseU64 f1 of
             None \<Rightarrow> False
           | Some iterations \<Rightarrow>
               if iterations = 0 \<or> iterations > 1000000 then False
               else case fromHex f2 of
                 None \<Rightarrow> False
               | Some salt \<Rightarrow>
                   (case fromHex f3 of
                      None \<Rightarrow> False
                    | Some expected \<Rightarrow>
                        if length salt \<noteq> 16 \<or> length expected \<noteq> DIGEST_SIZE then False
                        else constantTimeEqual P
                               (pbkdf2Sha256 P password salt (uint iterations) DIGEST_SIZE) expected))
      | _ \<Rightarrow> False)"

lemma hash_fields:
  assumes "length salt = 16" "digest = pbkdf2Sha256 P password salt 20000 32" "digest \<noteq> []"
  shows "split (password_hash P password salt) CHR ''$'' =
    [''pbkdf2-sha256'', to_string_int 20000, toHex salt, toHex digest]"
proof -
  have "password_hash P password salt =
      join [''pbkdf2-sha256'', to_string_int 20000, toHex salt, toHex digest] CHR ''$''"
    using assms by (simp add: password_hash_def ITERATIONS_def DIGEST_SIZE_def)
  then show ?thesis
    by (simp only:) (rule split_join, auto dest: to_string_int_chars [rotated] toHex_chars)
qed

text \<open>
  Checking a password against the hash of another one compares the two digests under the
  stored salt; nothing else in the stored form matters.
\<close>

lemma verify_hash:
  assumes "password_hash P password salt \<noteq> []"
  shows "password_verify P attempt (password_hash P password salt) \<longleftrightarrow>
    constantTimeEqual P (pbkdf2Sha256 P attempt salt 20000 32) (pbkdf2Sha256 P password salt 20000 32)"
proof -
  let ?digest = "pbkdf2Sha256 P password salt 20000 32"
  from assms have salt: "length salt = 16" and digest: "?digest \<noteq> []"
    by (auto simp: password_hash_def ITERATIONS_def DIGEST_SIZE_def Let_def split: if_splits)
  from digest have "length ?digest = 32"
    by (rule length_pbkdf2Sha256)
  moreover have "parseU64 (to_string_int 20000) = Some 20000"
    using parseU64_to_string_int [of 20000] by simp
  ultimately show ?thesis
    unfolding password_verify_def hash_fields [OF salt refl digest]
    using salt by (simp add: fromHex_toHex DIGEST_SIZE_def word_less_alt)
qed

lemma verify_own_hash:
  "memcmp_correct P \<Longrightarrow> password_hash P password salt \<noteq> [] \<Longrightarrow>
     password_verify P password (password_hash P password salt)"
  by (simp add: verify_hash constantTimeEqual_iff)

end
