(* ===== verification/Tracker_State.thy ===== *)
theory Tracker_State
  imports Password Std_Map File_Metadata Peer_Ticket
begin

text \<open>
  \<open>tracker/state/tracker_state.hpp\<close> and \<open>.cpp\<close>: the tracker's data and every command that reads
  or changes it.  A handler takes the request and the state and returns the reply, the request
  (two handlers erase an argument in it) and the new state; the lock makes each command one
  step.  The dispatch table is an association list, \<open>apply\<close> looks a command up in it.
\<close>

section \<open>Data\<close>

record ApplyContext =
  cx_salt :: string
  cx_newSession :: u64
  cx_now :: int

text \<open>\<open>std::memcpy\<close> of eight bytes into a \<open>u64\<close>, on the little-endian hosts the project builds for.\<close>

definition le64 :: "string \<Rightarrow> u64" where
  "le64 bytes = word_of_int (foldr (\<lambda>c v. of_char c + 256 * v) bytes 0)"

unbundle bit_operations_syntax

definition ApplyContext_fresh :: "entropy \<Rightarrow> entropy \<Rightarrow> int \<Rightarrow> ApplyContext" where
  "ApplyContext_fresh r1 r2 now =
     (let salt = randomBytes 16 r1;
          bytes = randomBytes 8 r2;
          newSession = (if length bytes = 8 then le64 bytes else 0)
      in \<lparr>cx_salt = salt, cx_newSession = newSession AND 0x7fffffffffffffff, cx_now = now\<rparr>)"

record CommandResult =
  cr_response :: string
  cr_session :: u64

record Seeder =
  sd_endpoint :: Endpoint
  sd_peerKey :: string

record SharedFile =
  sf_metadata :: FileMetadata
  sf_seeders :: "(string, Seeder) omap"

record Group =
  gr_owner :: string
  gr_members :: "string list"
  gr_pending :: "string list"
  gr_files :: "(string, SharedFile) omap"

record TrackerState =
  ts_users :: "(string, string) omap"
  ts_sessions :: "(u64, string) omap"
  ts_groups :: "(string, Group) omap"

definition TrackerState_init :: TrackerState where
  "TrackerState_init = \<lparr>ts_users = [], ts_sessions = [], ts_groups = []\<rparr>"

record Request =
  rq_session :: u64
  rq_user :: string
  rq_args :: "string list"
  rq_context :: ApplyContext

definition reply :: "Request \<Rightarrow> string \<Rightarrow> CommandResult" where
  "reply request response = \<lparr>cr_response = response, cr_session = rq_session request\<rparr>"

type_synonym outcome = "CommandResult \<times> Request \<times> TrackerState"
type_synonym handler = "Request \<Rightarrow> TrackerState \<Rightarrow> outcome"

text \<open>A reply that leaves the request as it is.\<close>

abbreviation answer :: "Request \<Rightarrow> TrackerState \<Rightarrow> string \<Rightarrow> outcome" where
  "answer request st response \<equiv> (reply request response, request, st)"

definition userOf :: "TrackerState \<Rightarrow> u64 \<Rightarrow> string" where
  "userOf st session = (case om_find (ts_sessions st) session of None \<Rightarrow> [] | Some user \<Rightarrow> user)"

definition findGroup :: "TrackerState \<Rightarrow> string \<Rightarrow> Group option" where
  "findGroup st name = om_find (ts_groups st) name"

text \<open>Writing through the pointer that \<open>findGroup\<close> returns.\<close>

definition putGroup :: "string \<Rightarrow> Group \<Rightarrow> TrackerState \<Rightarrow> TrackerState" where
  "putGroup name g st = st\<lparr>ts_groups := om_insert name g (ts_groups st)\<rparr>"

definition removeSharesOf :: "string \<Rightarrow> Group \<Rightarrow> Group" where
  "removeSharesOf user g =
     g\<lparr>gr_files := om_filter (\<lambda>f. sf_seeders f \<noteq> [])
         (om_map (\<lambda>f. f\<lparr>sf_seeders := om_erase user (sf_seeders f)\<rparr>) (gr_files g))\<rparr>"

section \<open>Accounts and sessions\<close>

definition createUser :: "platform \<Rightarrow> handler" where
  "createUser P request st =
     (let name = rq_args request ! 0; secret = rq_args request ! 1 in
      if om_find (ts_users st) name \<noteq> None then answer request st ''ERR user already exists''
      else
        let stored = password_hash P secret (cx_salt (rq_context request));
            request' = request\<lparr>rq_args := (rq_args request)[1 := secureErase secret]\<rparr> in
        if stored = [] then answer request' st ''ERR secure random generation failed''
        else answer request' (st\<lparr>ts_users := om_insert name stored (ts_users st)\<rparr>) ''OK user created'')"

definition login :: "platform \<Rightarrow> handler" where
  "login P request st =
     (let name = rq_args request ! 0; secret = rq_args request ! 1 in
      if rq_user request \<noteq> [] then answer request st ''ERR logout before logging in again''
      else case om_find (ts_users st) name of
        None \<Rightarrow> answer request st ''ERR no such user''
      | Some stored \<Rightarrow>
          let valid_password = password_verify P secret stored;
              request' = request\<lparr>rq_args := (rq_args request)[1 := secureErase secret]\<rparr> in
          if \<not> valid_password then answer request' st ''ERR invalid password''
          else
            let session = (if rq_session request = 0 then cx_newSession (rq_context request)
                           else rq_session request) in
            if rq_session request = 0 \<and> (session = 0 \<or> om_find (ts_sessions st) session \<noteq> None)
            then (\<lparr>cr_response = ''ERR secure random generation failed'', cr_session = 0\<rparr>, request', st)
            else (\<lparr>cr_response = ''OK logged in'', cr_session = session\<rparr>, request',
                  st\<lparr>ts_sessions := om_insert session name (ts_sessions st)\<rparr>))"

definition logout :: handler where
  "logout request st =
     (if rq_user request = [] then answer request st ''ERR not logged in''
      else (\<lparr>cr_response = ''OK logged out'', cr_session = 0\<rparr>, request,
            st\<lparr>ts_groups := om_map (removeSharesOf (rq_user request)) (ts_groups st),
               ts_sessions := om_erase (rq_session request) (ts_sessions st)\<rparr>))"

section \<open>Groups and membership\<close>

definition createGroup :: handler where
  "createGroup request st =
     (let name = rq_args request ! 0 in
      if om_find (ts_groups st) name \<noteq> None then answer request st ''ERR group already exists''
      else answer request
        (putGroup name \<lparr>gr_owner = rq_user request, gr_members = os_insert (rq_user request) [],
                        gr_pending = [], gr_files = []\<rparr> st)
        ''OK group created'')"

definition joinGroup :: handler where
  "joinGroup request st =
     (let name = rq_args request ! 0; user = rq_user request in
      case findGroup st name of
        None \<Rightarrow> answer request st ''ERR no such group''
      | Some g \<Rightarrow>
          if user \<in> set (gr_members g) then answer request st ''ERR already a member''
          else if user \<in> set (gr_pending g) then answer request st ''ERR request already pending''
          else answer request (putGroup name (g\<lparr>gr_pending := os_insert user (gr_pending g)\<rparr>) st)
                 ''OK join requested'')"

definition leaveGroup :: handler where
  "leaveGroup request st =
     (let name = rq_args request ! 0; user = rq_user request in
      case findGroup st name of
        None \<Rightarrow> answer request st ''ERR no such group''
      | Some g \<Rightarrow>
          if gr_owner g = user then answer request st ''ERR owner cannot leave group''
          else if user \<notin> set (gr_members g) then answer request st ''ERR not a member''
          else answer request
                 (putGroup name (removeSharesOf user (g\<lparr>gr_members := os_erase user (gr_members g)\<rparr>)) st)
                 ''OK left group'')"

text \<open>\<open>response += " " + item\<close> for every item.\<close>

definition listing :: "string list \<Rightarrow> string" where
  "listing items = ''OK'' @ concat (map (\<lambda>item. CHR '' '' # item) items)"

definition listGroups :: handler where
  "listGroups request st = answer request st (listing (om_keys (ts_groups st)))"

definition listRequests :: handler where
  "listRequests request st =
     (case findGroup st (rq_args request ! 0) of
        None \<Rightarrow> answer request st ''ERR no such group''
      | Some g \<Rightarrow>
          if gr_owner g \<noteq> rq_user request then answer request st ''ERR only owner may list requests''
          else answer request st (listing (gr_pending g)))"

definition acceptRequest :: handler where
  "acceptRequest request st =
     (let name = rq_args request ! 0; user = rq_args request ! 1 in
      case findGroup st name of
        None \<Rightarrow> answer request st ''ERR no such group''
      | Some g \<Rightarrow>
          if gr_owner g \<noteq> rq_user request then answer request st ''ERR only owner may accept requests''
          else if user \<notin> set (gr_pending g) then answer request st ''ERR no such pending request''
          else answer request
                 (putGroup name (g\<lparr>gr_pending := os_erase user (gr_pending g),
                                   gr_members := os_insert user (gr_members g)\<rparr>) st)
                 ''OK request accepted'')"

definition removeMember :: handler where
  "removeMember request st =
     (let name = rq_args request ! 0; user = rq_args request ! 1 in
      case findGroup st name of
        None \<Rightarrow> answer request st ''ERR no such group''
      | Some g \<Rightarrow>
          if gr_owner g \<noteq> rq_user request then answer request st ''ERR only owner may remove members''
          else if user = gr_owner g then answer request st ''ERR owner cannot be removed''
          else if user \<notin> set (gr_members g) then answer request st ''ERR not a member''
          else answer request
                 (putGroup name (removeSharesOf user (g\<lparr>gr_members := os_erase user (gr_members g)\<rparr>)) st)
                 ''OK member removed'')"

section \<open>Files\<close>

text \<open>The checks of \<open>upload_file\<close>'s arguments: the file name, metadata, address and peer key.\<close>

definition uploadArguments ::
  "platform \<Rightarrow> string list \<Rightarrow> (string \<times> FileMetadata \<times> Endpoint \<times> string) option" where
  "uploadArguments P args =
     (if length args \<noteq> 8 then None
      else
        let endpoint = Endpoint_parse P (args ! 5 @ '':'' @ args ! 6) in
        case fromHex (args ! 1) of
          None \<Rightarrow> None
        | Some name \<Rightarrow>
            if name = [] then None
            else case parseU64 (args ! 2) of
              None \<Rightarrow> None
            | Some sz \<Rightarrow>
                let metadata = \<lparr>fm_size = sz, fm_fullHash = args ! 3,
                                fm_pieceHashes = parsePieceHashList (args ! 4)\<rparr> in
                if \<not> valid metadata then None
                else case endpoint of
                  None \<Rightarrow> None
                | Some e \<Rightarrow>
                    (case fromHex (args ! 7) of
                       None \<Rightarrow> None
                     | Some peerKey \<Rightarrow>
                         if length peerKey \<noteq> 32 then None else Some (name, metadata, e, peerKey)))"

definition emptyFile :: SharedFile where
  "emptyFile = \<lparr>sf_metadata = \<lparr>fm_size = 0, fm_fullHash = [], fm_pieceHashes = []\<rparr>, sf_seeders = []\<rparr>"

definition uploadFile :: "platform \<Rightarrow> handler" where
  "uploadFile P request st =
     (let args = rq_args request; gname = (if args = [] then [] else args ! 0) in
      case findGroup st gname of
        None \<Rightarrow> answer request st ''ERR no such group''
      | Some g \<Rightarrow>
          if rq_user request \<notin> set (gr_members g) then answer request st ''ERR not a group member''
          else case uploadArguments P args of
            None \<Rightarrow> answer request st ''ERR invalid upload metadata''
          | Some (name, metadata, endpoint, peerKey) \<Rightarrow>
              let file = (case om_find (gr_files g) name of None \<Rightarrow> emptyFile | Some f \<Rightarrow> f);
                  store = (\<lambda>f. putGroup gname (g\<lparr>gr_files := om_insert name f (gr_files g)\<rparr>) st);
                  share = (\<lambda>f. f\<lparr>sf_seeders := om_insert (rq_user request)
                             \<lparr>sd_endpoint = endpoint, sd_peerKey = peerKey\<rparr> (sf_seeders f)\<rparr>) in
              if fm_fullHash (sf_metadata file) = []
              then answer request (store (share (file\<lparr>sf_metadata := metadata\<rparr>))) ''OK file shared''
              else if \<not> sameContent (sf_metadata file) metadata
              then answer request (store file) ''ERR conflicting file metadata''
              else answer request (store (share file)) ''OK file shared'')"

definition listFiles :: handler where
  "listFiles request st =
     (case findGroup st (rq_args request ! 0) of
        None \<Rightarrow> answer request st ''ERR no such group''
      | Some g \<Rightarrow>
          if rq_user request \<notin> set (gr_members g) then answer request st ''ERR not a group member''
          else answer request st (listing (map toHex (om_keys (gr_files g)))))"

text \<open>The access the tracker writes for one seeder.\<close>

definition seederAccess :: "platform \<Rightarrow> PeerTicket \<Rightarrow> Seeder \<Rightarrow> SeederAccess" where
  "seederAccess P ticket seeder =
     \<lparr>sa_endpoint = sd_endpoint seeder, sa_ticket = PeerTicket_encode ticket,
      sa_key = PeerTicket_key P ticket (sd_peerKey seeder)\<rparr>"

definition downloadFile :: "platform \<Rightarrow> handler" where
  "downloadFile P request st =
     (case findGroup st (rq_args request ! 0) of
        None \<Rightarrow> answer request st ''ERR no such group''
      | Some g \<Rightarrow>
          if rq_user request \<notin> set (gr_members g) then answer request st ''ERR not a group member''
          else case fromHex (rq_args request ! 1) of
            None \<Rightarrow> answer request st ''ERR invalid file name''
          | Some name \<Rightarrow>
              (case om_find (gr_files g) name of
                 None \<Rightarrow> answer request st ''ERR file has no online seeders''
               | Some file \<Rightarrow>
                   if sf_seeders file = [] then answer request st ''ERR file has no online seeders''
                   else
                     let metadata = sf_metadata file;
                         ticket = \<lparr>tk_user = rq_user request, tk_group = rq_args request ! 0,
                                   tk_file = name,
                                   tk_expires = cx_now (rq_context request) + LIFETIME_SECONDS\<rparr>;
                         accesses = map (\<lambda>(user, seeder). seederAccess P ticket seeder) (sf_seeders file) in
                     if list_ex (\<lambda>a. sa_key a = []) accesses
                     then answer request st ''ERR could not issue peer tickets''
                     else answer request st
                       (''META '' @ to_string_u64 (fm_size metadata) @ '' '' @ fm_fullHash metadata @ '' '' @
                        pieceHashList metadata @ '' '' @
                        join (sort (map SeederAccess_encode accesses)) CHR '','')))"

definition stopShare :: handler where
  "stopShare request st =
     (let gname = rq_args request ! 0 in
      case (findGroup st gname, fromHex (rq_args request ! 1)) of
        (Some g, Some name) \<Rightarrow>
          (case om_find (gr_files g) name of
             None \<Rightarrow> answer request st ''ERR you are not sharing this file''
           | Some file \<Rightarrow>
               if om_find (sf_seeders file) (rq_user request) = None
               then answer request st ''ERR you are not sharing this file''
               else
                 let file' = file\<lparr>sf_seeders := om_erase (rq_user request) (sf_seeders file)\<rparr>;
                     files = (if sf_seeders file' = [] then om_erase name (gr_files g)
                              else om_insert name file' (gr_files g)) in
                 answer request (putGroup gname (g\<lparr>gr_files := files\<rparr>) st) ''OK sharing stopped'')
      | _ \<Rightarrow> answer request st ''ERR invalid group/file'')"

section \<open>Dispatch\<close>

record Command =
  cm_handler :: handler
  cm_needsLogin :: bool
  cm_arity :: int
  cm_usage :: string

definition commands :: "platform \<Rightarrow> (string \<times> Command) list" where
  "commands P =
    [(''create_user'', \<lparr>cm_handler = createUser P, cm_needsLogin = False, cm_arity = 2,
        cm_usage = ''create_user <user> <password>''\<rparr>),
     (''login'', \<lparr>cm_handler = login P, cm_needsLogin = False, cm_arity = 2,
        cm_usage = ''login <user> <password>''\<rparr>),
     (''logout'', \<lparr>cm_handler = logout, cm_needsLogin = False, cm_arity = 0, cm_usage = ''logout''\<rparr>),
     (''create_group'', \<lparr>cm_handler = createGroup, cm_needsLogin = True, cm_arity = 1,
        cm_usage = ''create_group <group>''\<rparr>),
     (''join_group'', \<lparr>cm_handler = joinGroup, cm_needsLogin = True, cm_arity = 1,
        cm_usage = ''join_group <group>''\<rparr>),
     (''leave_group'', \<lparr>cm_handler = leaveGroup, cm_needsLogin = True, cm_arity = 1,
        cm_usage = ''leave_group <group>''\<rparr>),
     (''list_groups'', \<lparr>cm_handler = listGroups, cm_needsLogin = True, cm_arity = 0,
        cm_usage = ''list_groups''\<rparr>),
     (''list_requests'', \<lparr>cm_handler = listRequests, cm_needsLogin = True, cm_arity = 1,
        cm_usage = ''list_requests <group>''\<rparr>),
     (''accept_request'', \<lparr>cm_handler = acceptRequest, cm_needsLogin = True, cm_arity = 2,
        cm_usage = ''accept_request <group> <user>''\<rparr>),
     (''remove_member'', \<lparr>cm_handler = removeMember, cm_needsLogin = True, cm_arity = 2,
        cm_usage = ''remove_member <group> <user>''\<rparr>),
     (''upload_file'', \<lparr>cm_handler = uploadFile P, cm_needsLogin = True, cm_arity = -1,
        cm_usage = ''upload_file''\<rparr>),
     (''list_files'', \<lparr>cm_handler = listFiles, cm_needsLogin = True, cm_arity = 1,
        cm_usage = ''list_files <group>''\<rparr>),
     (''download_file'', \<lparr>cm_handler = downloadFile P, cm_needsLogin = True, cm_arity = 2,
        cm_usage = ''download_file <group> <file>''\<rparr>),
     (''stop_share'', \<lparr>cm_handler = stopShare, cm_needsLogin = True, cm_arity = 2,
        cm_usage = ''stop_share <group> <file>''\<rparr>)]"

definition apply_command ::
  "platform \<Rightarrow> u64 \<Rightarrow> string \<Rightarrow> ApplyContext \<Rightarrow> TrackerState \<Rightarrow> CommandResult \<times> TrackerState" where
  "apply_command P session commandLine context st =
     (case words_of commandLine of
        [] \<Rightarrow> (\<lparr>cr_response = ''ERR empty command'', cr_session = session\<rparr>, st)
      | name # args \<Rightarrow>
          (case map_of (commands P) name of
             None \<Rightarrow> (\<lparr>cr_response = ''ERR unknown command'', cr_session = session\<rparr>, st)
           | Some spec \<Rightarrow>
               let request = \<lparr>rq_session = session, rq_user = userOf st session, rq_args = args,
                              rq_context = context\<rparr> in
               if cm_needsLogin spec \<and> rq_user request = []
               then (reply request ''ERR login required'', st)
               else if cm_arity spec \<ge> 0 \<and> int (length (rq_args request)) \<noteq> cm_arity spec
               then (reply request (''ERR usage: '' @ cm_usage spec), st)
               else let (result, _, st') = cm_handler spec request st in (result, st')))"

end
