(* ===== verification/Tracker_Invariant.thy ===== *)
theory Tracker_Invariant
  imports Tracker_State
begin

text \<open>
  What the tracker keeps true of its state, for every sequence of commands: the containers are
  ordered; a session belongs to a registered user and is never 0; every group's owner is a
  member, members and applicants are registered and disjoint; a listed file has a valid
  metadata record and at least one seeder; a seeder is a logged-in member with a parsed
  address and a 32-byte peer key.  One lemma per handler, then one for \<open>apply\<close>.
\<close>

named_theorems handler_defs "the handlers' definitions"

declare createUser_def [handler_defs] login_def [handler_defs] logout_def [handler_defs]
  createGroup_def [handler_defs] joinGroup_def [handler_defs] leaveGroup_def [handler_defs]
  listGroups_def [handler_defs] listRequests_def [handler_defs] acceptRequest_def [handler_defs]
  removeMember_def [handler_defs] uploadFile_def [handler_defs] listFiles_def [handler_defs]
  downloadFile_def [handler_defs] stopShare_def [handler_defs]

section \<open>The invariant\<close>

definition registered :: "TrackerState \<Rightarrow> string set" where
  "registered st = {u. om_find (ts_users st) u \<noteq> None}"

definition online :: "TrackerState \<Rightarrow> string set" where
  "online st = {u. \<exists>s. om_find (ts_sessions st) s = Some u}"

definition seeder_ok :: "platform \<Rightarrow> Seeder \<Rightarrow> bool" where
  "seeder_ok P sd \<longleftrightarrow> length (sd_peerKey sd) = 32 \<and> endpoint_ok P (sd_endpoint sd)"

text \<open>A file whose seeders all lie in the set \<open>S\<close>.\<close>

definition file_ok :: "platform \<Rightarrow> string set \<Rightarrow> SharedFile \<Rightarrow> bool" where
  "file_ok P S f \<longleftrightarrow> valid (sf_metadata f) \<and> om_ok (sf_seeders f) \<and> sf_seeders f \<noteq> [] \<and>
     (\<forall>u sd. om_find (sf_seeders f) u = Some sd \<longrightarrow> u \<in> S \<and> seeder_ok P sd)"

definition group_ok :: "platform \<Rightarrow> string set \<Rightarrow> string set \<Rightarrow> Group \<Rightarrow> bool" where
  "group_ok P U L g \<longleftrightarrow>
     os_ok (gr_members g) \<and> os_ok (gr_pending g) \<and> om_ok (gr_files g) \<and>
     gr_owner g \<in> set (gr_members g) \<and> set (gr_members g) \<inter> set (gr_pending g) = {} \<and>
     set (gr_members g) \<union> set (gr_pending g) \<subseteq> U \<and>
     (\<forall>name f. om_find (gr_files g) name = Some f \<longrightarrow> name \<noteq> [] \<and> file_ok P (set (gr_members g) \<inter> L) f)"

definition tracker_ok :: "platform \<Rightarrow> TrackerState \<Rightarrow> bool" where
  "tracker_ok P st \<longleftrightarrow>
     om_ok (ts_users st) \<and> om_ok (ts_sessions st) \<and> om_ok (ts_groups st) \<and>
     om_find (ts_sessions st) 0 = None \<and> online st \<subseteq> registered st \<and> [] \<notin> registered st \<and>
     (\<forall>name g. om_find (ts_groups st) name = Some g \<longrightarrow> group_ok P (registered st) (online st) g)"

lemma tracker_ok_init: "tracker_ok P TrackerState_init"
  by (simp add: tracker_ok_def TrackerState_init_def registered_def online_def)

lemma file_ok_mono: "file_ok P S f \<Longrightarrow> S \<subseteq> S' \<Longrightarrow> file_ok P S' f"
  by (auto simp: file_ok_def)

lemma group_ok_mono:
  assumes "group_ok P U L g" "U \<subseteq> U'" "L \<subseteq> L'"
  shows "group_ok P U' L' g"
  using assms file_ok_mono [of P "set (gr_members g) \<inter> L" _ "set (gr_members g) \<inter> L'"]
  unfolding group_ok_def by blast

lemma tracker_okD:
  assumes "tracker_ok P st"
  shows "om_ok (ts_users st)" "om_ok (ts_sessions st)" "om_ok (ts_groups st)"
    "om_find (ts_sessions st) 0 = None" "online st \<subseteq> registered st" "[] \<notin> registered st"
    "findGroup st name = Some g \<Longrightarrow> group_ok P (registered st) (online st) g"
  using assms by (auto simp: tracker_ok_def findGroup_def)

lemma userOf_online: "userOf st s = u \<Longrightarrow> u \<noteq> [] \<Longrightarrow> u \<in> online st"
  by (auto simp: userOf_def online_def split: option.splits)

lemma userOf_empty_iff: "tracker_ok P st \<Longrightarrow> userOf st s = [] \<longleftrightarrow> om_find (ts_sessions st) s = None"
  using tracker_okD(5,6) [of P st]
  by (force simp: userOf_def online_def split: option.splits)

section \<open>Updates of one group\<close>

lemma putGroup_simps [simp]:
  "ts_users (putGroup n g st) = ts_users st" "ts_sessions (putGroup n g st) = ts_sessions st"
  "registered (putGroup n g st) = registered st" "online (putGroup n g st) = online st"
  "userOf (putGroup n g st) s = userOf st s"
  by (simp_all add: putGroup_def registered_def online_def userOf_def)

lemma findGroup_putGroup: "findGroup (putGroup n g st) n' = (if n' = n then Some g else findGroup st n')"
  by (simp add: findGroup_def putGroup_def om_find_insert)

lemma tracker_ok_putGroup:
  assumes "tracker_ok P st" "group_ok P (registered st) (online st) g"
  shows "tracker_ok P (putGroup n g st)"
  using assms unfolding tracker_ok_def
  by (auto simp: putGroup_def registered_def online_def om_find_insert om_ok_insert split: if_splits)

section \<open>Dropping a user's shares\<close>

lemma removeSharesOf_simps [simp]:
  "gr_owner (removeSharesOf u g) = gr_owner g" "gr_members (removeSharesOf u g) = gr_members g"
  "gr_pending (removeSharesOf u g) = gr_pending g"
  by (simp_all add: removeSharesOf_def)

lemma find_removeSharesOf:
  assumes "om_ok (gr_files g)"
  shows "om_find (gr_files (removeSharesOf u g)) name =
    (case om_find (gr_files g) name of
       None \<Rightarrow> None
     | Some f \<Rightarrow> let f' = f\<lparr>sf_seeders := om_erase u (sf_seeders f)\<rparr> in
         if sf_seeders f' = [] then None else Some f')"
  using assms by (simp add: removeSharesOf_def om_find_filter Let_def split: option.splits)

lemma om_ok_removeSharesOf: "om_ok (gr_files g) \<Longrightarrow> om_ok (gr_files (removeSharesOf u g))"
  by (simp add: removeSharesOf_def om_ok_om_filter)

lemma file_ok_erase:
  assumes "file_ok P S f" "om_erase u (sf_seeders f) \<noteq> []"
  shows "file_ok P (S - {u}) (f\<lparr>sf_seeders := om_erase u (sf_seeders f)\<rparr>)"
  using assms by (auto simp: file_ok_def om_ok_erase om_find_erase split: if_splits)

lemma removeSharesOf_files_ok:
  assumes "om_ok (gr_files g)" and "\<And>name f. om_find (gr_files g) name = Some f \<Longrightarrow> name \<noteq> [] \<and> file_ok P S f"
    and "om_find (gr_files (removeSharesOf u g)) name = Some f'"
  shows "name \<noteq> [] \<and> file_ok P (S - {u}) f'"
  using assms by (auto simp: find_removeSharesOf Let_def file_ok_erase split: option.splits if_splits)

text \<open>A user who seeds nothing in the group has nothing to drop.\<close>

lemma removeSharesOf_none:
  assumes "om_ok (gr_files g)" and "\<And>name f. om_find (gr_files g) name = Some f \<Longrightarrow> file_ok P S f" and "u \<notin> S"
  shows "removeSharesOf u g = g"
proof -
  have same: "om_erase u (sf_seeders f) = sf_seeders f \<and> sf_seeders f \<noteq> []" if "(name, f) \<in> set (gr_files g)" for name f
  proof -
    from that assms(1) have "om_find (gr_files g) name = Some f"
      by (simp add: om_mem_find)
    with assms(2) have f: "file_ok P S f" by blast
    with assms(3) have "om_find (sf_seeders f) u = None"
      by (cases "om_find (sf_seeders f) u") (auto simp: file_ok_def)
    with f show ?thesis by (simp add: om_erase_absent file_ok_def)
  qed
  then have "om_map (\<lambda>f. f\<lparr>sf_seeders := om_erase u (sf_seeders f)\<rparr>) (gr_files g) = gr_files g"
    unfolding om_map_def by (intro map_idI) (auto split: prod.splits)
  moreover have "om_filter (\<lambda>f. sf_seeders f \<noteq> []) (gr_files g) = gr_files g"
    unfolding om_filter_def using same by (intro filter_True) auto
  ultimately show ?thesis
    by (simp add: removeSharesOf_def)
qed

lemma group_ok_remove:
  assumes "group_ok P U L g" "u \<noteq> gr_owner g"
  shows "group_ok P U L (removeSharesOf u (g\<lparr>gr_members := os_erase u (gr_members g)\<rparr>))"
proof -
  let ?g = "g\<lparr>gr_members := os_erase u (gr_members g)\<rparr>"
  have "name \<noteq> [] \<and> file_ok P (set (gr_members g) \<inter> L - {u}) f"
    if "om_find (gr_files (removeSharesOf u ?g)) name = Some f" for name f
    by (rule removeSharesOf_files_ok [OF _ _ that]) (use assms in \<open>auto simp: group_ok_def\<close>)
  moreover have "(set (gr_members g) - {u}) \<inter> L = set (gr_members g) \<inter> L - {u}" by blast
  ultimately show ?thesis
    using assms by (auto simp: group_ok_def os_ok_erase om_ok_removeSharesOf)
qed

lemma group_ok_logout:
  assumes "group_ok P U L g"
  shows "group_ok P U (L - {u}) (removeSharesOf u g)"
proof -
  have "name \<noteq> [] \<and> file_ok P (set (gr_members g) \<inter> L - {u}) f"
    if "om_find (gr_files (removeSharesOf u g)) name = Some f" for name f
    by (rule removeSharesOf_files_ok [OF _ _ that]) (use assms in \<open>auto simp: group_ok_def\<close>)
  moreover have "set (gr_members g) \<inter> (L - {u}) = set (gr_members g) \<inter> L - {u}" by blast
  ultimately show ?thesis
    using assms by (auto simp: group_ok_def om_ok_removeSharesOf)
qed

section \<open>Every handler keeps the invariant\<close>

text \<open>The requests \<open>apply\<close> hands to a handler.\<close>

definition request_ok :: "TrackerState \<Rightarrow> Request \<Rightarrow> bool" where
  "request_ok st rq \<longleftrightarrow> rq_user rq = userOf st (rq_session rq) \<and>
     (\<forall>w \<in> set (rq_args rq). w \<noteq> [] \<and> list_all (\<lambda>c. \<not> is_space c) w)"

lemma createUser_ok:
  assumes "tracker_ok P st" "request_ok st rq" "length (rq_args rq) = 2" "createUser P rq st = (r, rq', st')"
  shows "tracker_ok P st'"
proof -
  have name: "rq_args rq ! 0 \<noteq> []"
    using assms(2,3) by (auto simp: request_ok_def)
  have mono: "group_ok P (insert u (registered st)) (online st) g" if "findGroup st n = Some g" for u n g
    by (rule group_ok_mono [OF tracker_okD(7) [OF assms(1) that]]) auto
  from assms(4) consider "st' = st"
    | h where "st' = st\<lparr>ts_users := om_insert (rq_args rq ! 0) h (ts_users st)\<rparr>"
    by (auto simp: createUser_def Let_def split: if_splits)
  then show ?thesis
  proof cases
    case 2
    then have "registered st' = insert (rq_args rq ! 0) (registered st)" "online st' = online st"
      by (auto simp: registered_def online_def om_find_insert)
    with assms(1) 2 name mono show ?thesis
      by (auto simp: tracker_ok_def om_ok_insert findGroup_def)
  qed (use assms(1) in simp)
qed

lemma login_ok:
  assumes "tracker_ok P st" "request_ok st rq" "login P rq st = (r, rq', st')"
  shows "tracker_ok P st'"
proof -
  from assms(3) consider "st' = st"
    | s where "st' = st\<lparr>ts_sessions := om_insert s (rq_args rq ! 0) (ts_sessions st)\<rparr>" "s \<noteq> 0"
        "om_find (ts_sessions st) s = None" "rq_args rq ! 0 \<in> registered st"
    using userOf_empty_iff [OF assms(1), of "rq_session rq"] assms(2)
    by (auto simp: login_def Let_def registered_def request_ok_def split: if_splits option.splits)
  then show ?thesis
  proof cases
    case (2 s)
    then have "registered st' = registered st" by (simp add: registered_def)
    moreover have "online st' = insert (rq_args rq ! 0) (online st)"
      using 2(1,3) by (auto simp: online_def om_find_insert) (metis option.distinct(1))
    moreover have "group_ok P (registered st) (insert (rq_args rq ! 0) (online st)) g"
      if "om_find (ts_groups st) n = Some g" for n g
      by (rule group_ok_mono [OF tracker_okD(7) [OF assms(1), unfolded findGroup_def, OF that]]) auto
    ultimately show ?thesis
      using assms(1) 2 by (auto simp: tracker_ok_def om_ok_insert om_find_insert)
  qed (use assms(1) in simp)
qed

lemma logout_ok:
  assumes "tracker_ok P st" "request_ok st rq" "logout rq st = (r, rq', st')"
  shows "tracker_ok P st'"
proof (cases "rq_user rq = []")
  case False
  let ?u = "rq_user rq"
  have st': "st' = st\<lparr>ts_groups := om_map (removeSharesOf ?u) (ts_groups st),
      ts_sessions := om_erase (rq_session rq) (ts_sessions st)\<rparr>"
    using False assms(3) by (auto simp: logout_def)
  have session: "om_find (ts_sessions st) (rq_session rq) = Some ?u"
    using False assms(2) by (auto simp: request_ok_def userOf_def split: option.splits)
  have sub: "online st - {?u} \<subseteq> online st'" "online st' \<subseteq> online st" "registered st' = registered st"
    using session by (auto simp: st' online_def registered_def om_find_erase split: if_splits) (metis option.inject)
  have "group_ok P (registered st') (online st') g'" if found: "om_find (ts_groups st') n = Some g'" for n g'
  proof -
    from found obtain g where "findGroup st n = Some g" and g': "g' = removeSharesOf ?u g"
      by (auto simp: st' findGroup_def)
    then have "group_ok P (registered st) (online st - {?u}) g'"
      using group_ok_logout [OF tracker_okD(7) [OF assms(1)]] by simp
    then show ?thesis
      by (rule group_ok_mono) (use sub in auto)
  qed
  with assms(1) sub show ?thesis
    by (auto simp: tracker_ok_def st' om_ok_erase om_find_erase)
qed (use assms in \<open>simp add: logout_def\<close>)

lemma createGroup_ok:
  assumes "tracker_ok P st" "request_ok st rq" "rq_user rq \<noteq> []" "createGroup rq st = (r, rq', st')"
  shows "tracker_ok P st'"
proof -
  have "rq_user rq \<in> registered st"
    using assms tracker_okD(5) [OF assms(1)] userOf_online by (auto simp: request_ok_def)
  then have "group_ok P (registered st) (online st) \<lparr>gr_owner = rq_user rq,
      gr_members = os_insert (rq_user rq) [], gr_pending = [], gr_files = []\<rparr>"
    by (simp add: group_ok_def os_ok_def)
  with assms(1,4) show ?thesis
    by (auto simp: createGroup_def Let_def tracker_ok_putGroup split: if_splits)
qed

lemma joinGroup_ok:
  assumes "tracker_ok P st" "request_ok st rq" "rq_user rq \<noteq> []" "joinGroup rq st = (r, rq', st')"
  shows "tracker_ok P st'"
proof -
  have "rq_user rq \<in> registered st"
    using assms tracker_okD(5) [OF assms(1)] userOf_online by (auto simp: request_ok_def)
  then have "group_ok P (registered st) (online st) (g\<lparr>gr_pending := os_insert (rq_user rq) (gr_pending g)\<rparr>)"
    if "findGroup st n = Some g" "rq_user rq \<notin> set (gr_members g)" for n g
    using tracker_okD(7) [OF assms(1) that(1)] that(2) by (auto simp: group_ok_def os_ok_insert)
  with assms(1,4) show ?thesis
    by (auto simp: joinGroup_def Let_def tracker_ok_putGroup split: if_splits option.splits)
qed

lemma leaveGroup_ok:
  assumes "tracker_ok P st" "leaveGroup rq st = (r, rq', st')"
  shows "tracker_ok P st'"
  using assms tracker_okD(7) [OF assms(1)]
  by (auto simp: leaveGroup_def Let_def intro!: tracker_ok_putGroup group_ok_remove split: if_splits option.splits)

lemma group_ok_accept:
  assumes "group_ok P U L g" "u \<in> set (gr_pending g)"
  shows "group_ok P U L (g\<lparr>gr_pending := os_erase u (gr_pending g), gr_members := os_insert u (gr_members g)\<rparr>)"
proof -
  have "set (gr_members g) \<inter> L \<subseteq> set (os_insert u (gr_members g)) \<inter> L" by auto
  then have "file_ok P (set (os_insert u (gr_members g)) \<inter> L) f"
    if "om_find (gr_files g) name = Some f" for name f
    using assms(1) that file_ok_mono unfolding group_ok_def by blast
  with assms show ?thesis
    unfolding group_ok_def by (auto simp: os_ok_insert os_ok_erase simp del: set_os_insert) auto
qed

lemma acceptRequest_ok:
  assumes "tracker_ok P st" "acceptRequest rq st = (r, rq', st')"
  shows "tracker_ok P st'"
proof -
  have "group_ok P (registered st) (online st)
      (g\<lparr>gr_pending := os_erase u (gr_pending g), gr_members := os_insert u (gr_members g)\<rparr>)"
    if "findGroup st n = Some g" "u \<in> set (gr_pending g)" for n g u
    using tracker_okD(7) [OF assms(1) that(1)] that(2) by (intro group_ok_accept)
  with assms show ?thesis
    by (auto simp: acceptRequest_def Let_def tracker_ok_putGroup split: if_splits option.splits)
qed

lemma removeMember_ok:
  assumes "tracker_ok P st" "removeMember rq st = (r, rq', st')"
  shows "tracker_ok P st'"
  using assms tracker_okD(7) [OF assms(1)]
  by (auto simp: removeMember_def Let_def intro!: tracker_ok_putGroup group_ok_remove split: if_splits option.splits)

lemma uploadArguments_ok:
  assumes "uploadArguments P args = Some (name, metadata, e, key)"
  shows "name \<noteq> []" "valid metadata" "length key = 32" "endpoint_ok P e"
  using assms
  by (auto simp: uploadArguments_def Let_def Endpoint_parse_ok split: if_splits option.splits)

lemma valid_fullHash: "valid m \<Longrightarrow> fm_fullHash m \<noteq> []"
  by (auto simp: valid_def isSha1Hex_nonempty)

lemma file_ok_share:
  assumes "valid (sf_metadata f)" "om_ok (sf_seeders f)"
    and "\<And>u sd. om_find (sf_seeders f) u = Some sd \<Longrightarrow> u \<in> S \<and> seeder_ok P sd"
    and "user \<in> S" "seeder_ok P sd"
  shows "file_ok P S (f\<lparr>sf_seeders := om_insert user sd (sf_seeders f)\<rparr>)"
proof -
  have "om_insert user sd (sf_seeders f) \<noteq> []"
    using om.find_insert_same [of user sd "sf_seeders f"] by (metis om_find_Nil option.distinct(1))
  with assms show ?thesis
    by (auto simp: file_ok_def om_ok_insert om_find_insert split: if_splits)
qed

lemma group_ok_putFile:
  assumes "group_ok P U L g" "name \<noteq> []" "file_ok P (set (gr_members g) \<inter> L) f"
  shows "group_ok P U L (g\<lparr>gr_files := om_insert name f (gr_files g)\<rparr>)"
  using assms by (auto simp: group_ok_def om_ok_insert om_find_insert split: if_splits)

lemma uploadFile_ok:
  assumes "tracker_ok P st" "request_ok st rq" "rq_user rq \<noteq> []" "uploadFile P rq st = (r, rq', st')"
  shows "tracker_ok P st'"
proof (cases "st' = st")
  case False
  define gname where "gname = (if rq_args rq = [] then [] else rq_args rq ! 0)"
  from False assms(4) obtain g name m e key where
    g: "findGroup st gname = Some g" and member: "rq_user rq \<in> set (gr_members g)" and
    args: "uploadArguments P (rq_args rq) = Some (name, m, e, key)"
    by (auto simp: uploadFile_def Let_def simp flip: gname_def split: if_splits option.splits)
  note ok = tracker_okD(7) [OF assms(1) g]
  have user: "rq_user rq \<in> set (gr_members g) \<inter> online st"
    using member assms(2,3) userOf_online by (auto simp: request_ok_def)
  have sd: "seeder_ok P \<lparr>sd_endpoint = e, sd_peerKey = key\<rparr>"
    using uploadArguments_ok [OF args] by (simp add: seeder_ok_def)
  let ?share = "\<lambda>f. f\<lparr>sf_seeders := om_insert (rq_user rq) \<lparr>sd_endpoint = e, sd_peerKey = key\<rparr> (sf_seeders f)\<rparr>"
  let ?S = "set (gr_members g) \<inter> online st"
  have present: "file_ok P ?S f \<and> file_ok P ?S (?share f) \<and> fm_fullHash (sf_metadata f) \<noteq> []"
    if "om_find (gr_files g) name = Some f" for f
  proof -
    have "file_ok P ?S f" using ok that by (auto simp: group_ok_def)
    moreover from this have "file_ok P ?S (?share f)"
      by (intro file_ok_share) (use user sd in \<open>auto simp: file_ok_def\<close>)
    ultimately show ?thesis by (auto simp: file_ok_def valid_fullHash)
  qed
  have fresh: "file_ok P ?S (?share (emptyFile\<lparr>sf_metadata := m\<rparr>))"
    using uploadArguments_ok(2) [OF args] user sd by (intro file_ok_share) (simp_all add: emptyFile_def)
  have "\<exists>f. file_ok P ?S f \<and> st' = putGroup gname (g\<lparr>gr_files := om_insert name f (gr_files g)\<rparr>) st"
  proof (cases "om_find (gr_files g) name")
    case None
    with assms(4) g member args fresh show ?thesis
      by (auto simp: uploadFile_def Let_def emptyFile_def simp flip: gname_def)
  next
    case (Some f)
    with assms(4) g member args present [OF Some] show ?thesis
      by (auto simp: uploadFile_def Let_def simp flip: gname_def split: if_splits)
  qed
  then show ?thesis
    using uploadArguments_ok(1) [OF args] ok assms(1)
    by (auto intro!: tracker_ok_putGroup group_ok_putFile)
qed (use assms in simp)

lemma stopShare_ok:
  assumes "tracker_ok P st" "stopShare rq st = (r, rq', st')"
  shows "tracker_ok P st'"
proof (cases "st' = st")
  case False
  let ?u = "rq_user rq"
  from False assms(2) obtain g name f where
    g: "findGroup st (rq_args rq ! 0) = Some g" and f: "om_find (gr_files g) name = Some f" and
    st': "st' = putGroup (rq_args rq ! 0) (g\<lparr>gr_files :=
      (if om_erase ?u (sf_seeders f) = [] then om_erase name (gr_files g)
       else om_insert name (f\<lparr>sf_seeders := om_erase ?u (sf_seeders f)\<rparr>) (gr_files g))\<rparr>) st"
    by (auto simp: stopShare_def Let_def split: if_splits option.splits)
  note ok = tracker_okD(7) [OF assms(1) g]
  have shared: "name \<noteq> []" "file_ok P (set (gr_members g) \<inter> online st) f"
    using ok f by (auto simp: group_ok_def)
  have "group_ok P (registered st) (online st) (g\<lparr>gr_files := om_erase name (gr_files g)\<rparr>)"
    using ok by (auto simp: group_ok_def om_ok_erase om_find_erase split: if_splits)
  moreover have "file_ok P (set (gr_members g) \<inter> online st) (f\<lparr>sf_seeders := om_erase ?u (sf_seeders f)\<rparr>)"
    if "om_erase ?u (sf_seeders f) \<noteq> []"
    using file_ok_mono [OF file_ok_erase [OF shared(2) that]] by blast
  ultimately show ?thesis
    using assms(1) ok shared by (auto simp: st' intro!: tracker_ok_putGroup group_ok_putFile)
qed (use assms in simp)

section \<open>The dispatcher\<close>

lemma commands_cases:
  assumes "map_of (commands P) name = Some spec"
  obtains "name = ''create_user''" "cm_handler spec = createUser P" "\<not> cm_needsLogin spec" "cm_arity spec = 2"
  | "name = ''login''" "cm_handler spec = login P" "\<not> cm_needsLogin spec" "cm_arity spec = 2"
  | "name = ''logout''" "cm_handler spec = logout" "\<not> cm_needsLogin spec" "cm_arity spec = 0"
  | "name = ''create_group''" "cm_handler spec = createGroup" "cm_needsLogin spec" "cm_arity spec = 1"
  | "name = ''join_group''" "cm_handler spec = joinGroup" "cm_needsLogin spec" "cm_arity spec = 1"
  | "name = ''leave_group''" "cm_handler spec = leaveGroup" "cm_needsLogin spec" "cm_arity spec = 1"
  | "name = ''list_groups''" "cm_handler spec = listGroups" "cm_needsLogin spec" "cm_arity spec = 0"
  | "name = ''list_requests''" "cm_handler spec = listRequests" "cm_needsLogin spec" "cm_arity spec = 1"
  | "name = ''accept_request''" "cm_handler spec = acceptRequest" "cm_needsLogin spec" "cm_arity spec = 2"
  | "name = ''remove_member''" "cm_handler spec = removeMember" "cm_needsLogin spec" "cm_arity spec = 2"
  | "name = ''upload_file''" "cm_handler spec = uploadFile P" "cm_needsLogin spec" "cm_arity spec = -1"
  | "name = ''list_files''" "cm_handler spec = listFiles" "cm_needsLogin spec" "cm_arity spec = 1"
  | "name = ''download_file''" "cm_handler spec = downloadFile P" "cm_needsLogin spec" "cm_arity spec = 2"
  | "name = ''stop_share''" "cm_handler spec = stopShare" "cm_needsLogin spec" "cm_arity spec = 2"
  using map_of_SomeD [OF assms] that unfolding commands_def by (simp only: set_simps insert_iff empty_iff prod.inject) (elim disjE conjE; simp)

text \<open>A command either answers an error of the dispatcher and changes nothing, or runs its handler.\<close>

lemma apply_cases:
  assumes "apply_command P session line cx st = (r, st')"
  obtains (error) "st' = st" "starts_with (cr_response r) ''ERR ''" "cr_session r = session"
  | (handled) name args spec rq rq' where "words_of line = name # args" "map_of (commands P) name = Some spec"
      "rq = \<lparr>rq_session = session, rq_user = userOf st session, rq_args = args, rq_context = cx\<rparr>"
      "request_ok st rq" "cm_needsLogin spec \<Longrightarrow> userOf st session \<noteq> []"
      "cm_arity spec < 0 \<or> int (length args) = cm_arity spec" "cm_handler spec rq st = (r, rq', st')"
proof (cases "words_of line")
  case Nil
  with assms error show ?thesis by (auto simp: apply_command_def starts_with_def)
next
  case (Cons name args)
  show ?thesis
  proof (cases "map_of (commands P) name")
    case None
    with assms Cons error show ?thesis by (auto simp: apply_command_def starts_with_def)
  next
    case (Some spec)
    let ?rq = "\<lparr>rq_session = session, rq_user = userOf st session, rq_args = args, rq_context = cx\<rparr>"
    have rq: "request_ok st ?rq"
      using words_of_words [of _ line] Cons by (auto simp: request_ok_def)
    show ?thesis
    proof (cases "cm_needsLogin spec \<and> userOf st session = [] \<or> 0 \<le> cm_arity spec \<and> int (length args) \<noteq> cm_arity spec")
      case True
      with assms Cons Some error show ?thesis
        by (auto simp: apply_command_def Let_def reply_def starts_with_def split: if_splits)
    next
      case False
      with assms Cons Some rq show ?thesis
        by (intro handled [OF Cons Some refl rq, of "fst (snd (cm_handler spec ?rq st))"])
          (auto simp: apply_command_def split: prod.splits if_splits)
    qed
  qed
qed

lemma listing_handlers_state:
  "listGroups rq st = (r, rq', st') \<Longrightarrow> st' = st"
  "listRequests rq st = (r, rq', st') \<Longrightarrow> st' = st"
  "listFiles rq st = (r, rq', st') \<Longrightarrow> st' = st"
  "downloadFile P rq st = (r, rq', st') \<Longrightarrow> st' = st"
  by (auto simp: handler_defs Let_def split: option.splits if_splits)

lemma apply_ok:
  assumes "tracker_ok P st" "apply_command P session line cx st = (r, st')"
  shows "tracker_ok P st'"
  using assms(2)
proof (cases rule: apply_cases)
  case error
  with assms(1) show ?thesis by simp
next
  case (handled name args spec rq rq')
  have user: "cm_needsLogin spec \<Longrightarrow> rq_user rq \<noteq> []" "cm_arity spec = 2 \<Longrightarrow> length (rq_args rq) = 2"
    using handled(3,5,6) by auto
  have run: "h rq st = (r, rq', st')" if "cm_handler spec = h" for h
    using handled(7) that by simp
  note st = assms(1) and rq = handled(4)
  from handled(2) show ?thesis
  proof (cases rule: commands_cases)
    case 1 show ?thesis by (rule createUser_ok [OF st rq user(2) [OF 1(4)] run [OF 1(2)]])
  next
    case 2 show ?thesis by (rule login_ok [OF st rq run [OF 2(2)]])
  next
    case 3 show ?thesis by (rule logout_ok [OF st rq run [OF 3(2)]])
  next
    case 4 show ?thesis by (rule createGroup_ok [OF st rq user(1) [OF 4(3)] run [OF 4(2)]])
  next
    case 5 show ?thesis by (rule joinGroup_ok [OF st rq user(1) [OF 5(3)] run [OF 5(2)]])
  next
    case 6 show ?thesis by (rule leaveGroup_ok [OF st run [OF 6(2)]])
  next
    case 7 show ?thesis using st listing_handlers_state(1) [OF run [OF 7(2)]] by simp
  next
    case 8 show ?thesis using st listing_handlers_state(2) [OF run [OF 8(2)]] by simp
  next
    case 9 show ?thesis by (rule acceptRequest_ok [OF st run [OF 9(2)]])
  next
    case 10 show ?thesis by (rule removeMember_ok [OF st run [OF 10(2)]])
  next
    case 11 show ?thesis by (rule uploadFile_ok [OF st rq user(1) [OF 11(3)] run [OF 11(2)]])
  next
    case 12 show ?thesis using st listing_handlers_state(3) [OF run [OF 12(2)]] by simp
  next
    case 13 show ?thesis using st listing_handlers_state(4) [OF run [OF 13(2)]] by simp
  next
    case 14 show ?thesis by (rule stopShare_ok [OF st run [OF 14(2)]])
  qed
qed

end
