(* ===== verification/Machine.thy ===== *)
theory Machine
  imports Prelude
begin

text \<open>
  Components that answer one input at a time: a step takes an input and the state and gives an
  output and the next state.  The locale is the interface the components' history theorems use:
  an invariant that holds at the start and is kept by every step, for the inputs that
  \<open>admits\<close> lets through.
\<close>

definition after :: "('i \<Rightarrow> 's \<Rightarrow> 'o \<times> 's) \<Rightarrow> 's \<Rightarrow> 'i list \<Rightarrow> 's" where
  "after step s is = foldl (\<lambda>s i. snd (step i s)) s is"

lemma after_Nil [simp]: "after step s [] = s"
  by (simp add: after_def)

lemma after_snoc [simp]: "after step s (is @ [i]) = snd (step i (after step s is))"
  by (simp add: after_def)

lemma after_Cons: "after step s (i # is) = after step (snd (step i s)) is"
  by (simp add: after_def)

lemma after_append: "after step s (is @ js) = after step (after step s is) js"
  by (simp add: after_def)

lemma after_keeps:
  assumes "Q s" "\<And>s i. Q s \<Longrightarrow> Q (snd (step i s))"
  shows "Q (after step s is)"
  using assms by (induction "is" rule: rev_induct) simp_all

text \<open>A property that is false at the start and true at the end became true at some last input.\<close>

lemma last_change:
  assumes "\<not> Q (after step s [])" "Q (after step s h)"
  obtains h1 i h2 where "h = h1 @ i # h2" "\<not> Q (after step s h1)" "Q (after step s (h1 @ [i]))"
    "\<And>j k. h2 = j @ k \<Longrightarrow> Q (after step s (h1 @ i # j))"
  using assms(2)
proof (induction h arbitrary: thesis rule: rev_induct)
  case Nil
  with assms(1) show ?case by simp
next
  case (snoc i h)
  show ?case
  proof (cases "Q (after step s h)")
    case False
    with snoc.prems(1) [of h i "[]"] snoc.prems(2) show ?thesis by simp
  next
    case True
    from snoc.IH [OF _ True] obtain h1 i' h2 where h: "h = h1 @ i' # h2" "\<not> Q (after step s h1)"
      "Q (after step s (h1 @ [i']))" "\<And>j k. h2 = j @ k \<Longrightarrow> Q (after step s (h1 @ i' # j))"
      by blast
    have "Q (after step s (h1 @ i' # j))" if jk: "h2 @ [i] = j @ k" for j k
    proof (cases k rule: rev_cases)
      case Nil
      with jk h(1) snoc.prems(2) show ?thesis by auto
    next
      case (snoc k' x)
      with jk h(4) [of j k'] show ?thesis by simp
    qed
    with h show ?thesis by (intro snoc.prems(1) [of h1 i' "h2 @ [i]"]) auto
  qed
qed

locale machine =
  fixes step :: "'i \<Rightarrow> 's \<Rightarrow> 'o \<times> 's"
    and start :: 's
    and inv :: "'s \<Rightarrow> bool"
    and admits :: "'i \<Rightarrow> bool"
  assumes inv_start: "inv start"
    and inv_step: "inv s \<Longrightarrow> admits i \<Longrightarrow> step i s = (out, s') \<Longrightarrow> inv s'"
begin

lemma inv_after: "list_all admits h \<Longrightarrow> inv (after step start h)"
  by (induction h rule: rev_induct)
    (auto simp: inv_start intro: inv_step [OF _ _ surjective_pairing])

text \<open>What became true over a history became true in one step, taken from a state that keeps the invariant.\<close>

lemma cause:
  assumes "list_all admits h" "\<not> Q start" "Q (after step start h)"
  shows "\<exists>h1 i h2. h = h1 @ i # h2 \<and> inv (after step start h1) \<and> \<not> Q (after step start h1) \<and>
    Q (snd (step i (after step start h1)))"
proof -
  from assms(2,3) obtain h1 i h2 where
    h: "h = h1 @ i # h2" "\<not> Q (after step start h1)" "Q (after step start (h1 @ [i]))"
    using last_change [of Q step start h] by (metis after_Nil)
  moreover from this assms(1) have "inv (after step start h1)"
    by (intro inv_after) simp
  ultimately show ?thesis
    by (intro exI [of _ h1] exI [of _ i] exI [of _ h2]) simp
qed

end

end
