(* ===== verification/Tracker_Spec.thy ===== *)
theory Tracker_Spec
  imports Tracker_Invariant Machine
begin

text \<open>
  What one command may do, as a relation: \<open>effect\<close> is the tracker's abstract specification, one
  rule per kind of transition, with the caller's identity and the conditions under which it is
  allowed.  The main lemma says that \<open>apply\<close> on a state that keeps the invariant takes one of
  these transitions and no other; every property of the tracker is a case analysis of it.
\<close>

section \<open>The reply of a granted download\<close>

definition downloadTicket :: "string \<Rightarrow> string \<Rightarrow> string \<Rightarrow> int \<Rightarrow> PeerTicket" where
  "downloadTicket user gname name now =
     \<lparr>tk_user = user, tk_group = gname, tk_file = name, tk_expires = now + LIFETIME_SECONDS\<rparr>"

definition accessesFor :: "platform \<Rightarrow> PeerTicket \<Rightarrow> SharedFile \<Rightarrow> SeederAccess list" where
  "accessesFor P ticket f = map (\<lambda>(u, sd). seederAccess P ticket sd) (sf_seeders f)"

definition metaReply :: "platform \<Rightarrow> PeerTicket \<Rightarrow> SharedFile \<Rightarrow> string" where
  "metaReply P ticket f =
     ''META '' @ to_string_u64 (fm_size (sf_metadata f)) @ '' '' @ fm_fullHash (sf_metadata f) @ '' '' @
     pieceHashList (sf_metadata f) @ '' '' @
     join (sort (map SeederAccess_encode (accessesFor P ticket f))) CHR '',''"

section \<open>The transitions\<close>

definition withFile :: "string \<Rightarrow> SharedFile \<Rightarrow> Group \<Rightarrow> Group" where
  "withFile name f g = g\<lparr>gr_files := om_insert name f (gr_files g)\<rparr>"

definition expelled :: "string \<Rightarrow> Group \<Rightarrow> Group" where
  "expelled v g = removeSharesOf v (g\<lparr>gr_members := os_erase v (gr_members g)\<rparr>)"

definition withoutShare :: "string \<Rightarrow> string \<Rightarrow> SharedFile \<Rightarrow> Group \<Rightarrow> Group" where
  "withoutShare u name f g =
     (let f' = f\<lparr>sf_seeders := om_erase u (sf_seeders f)\<rparr> in
      g\<lparr>gr_files := if sf_seeders f' = [] then om_erase name (gr_files g) else om_insert name f' (gr_files g)\<rparr>)"

text \<open>The arguments of \<open>upload_file\<close>: group, file name, size, SHA-1, piece hashes, address, port, peer key.\<close>

definition offer ::
  "platform \<Rightarrow> string list \<Rightarrow> string \<Rightarrow> string \<Rightarrow> FileMetadata \<Rightarrow> Seeder \<Rightarrow> bool" where
  "offer P args n name m sd \<longleftrightarrow>
     (\<exists>x sz full hashes ip port key. args = [n, x, sz, full, hashes, ip, port, key] \<and> fromHex x = Some name \<and> name \<noteq> [] \<and>
        parseU64 sz = Some (fm_size m) \<and> fm_fullHash m = full \<and> fm_pieceHashes m = parsePieceHashList hashes \<and> valid m \<and>
        Endpoint_parse P (ip @ '':'' @ port) = Some (sd_endpoint sd) \<and> fromHex key = Some (sd_peerKey sd) \<and>
        length (sd_peerKey sd) = 32)"

text \<open>\<open>ws\<close> are the words of the line, the command's name first.\<close>

inductive effect ::
  "platform \<Rightarrow> ApplyContext \<Rightarrow> u64 \<Rightarrow> string \<Rightarrow> string list \<Rightarrow> TrackerState \<Rightarrow> CommandResult \<Rightarrow> TrackerState \<Rightarrow> bool"
  for P cx s u ws st where
  refused: "effect P cx s u ws st r st"
    if "starts_with (cr_response r) ''ERR ''" "cr_session r = s"
| lists_groups: "effect P cx s u ws st r st"
    if "ws = [''list_groups'']" "u \<noteq> []" "cr_response r = listing (om_keys (ts_groups st))" "cr_session r = s"
| lists_requests: "effect P cx s u ws st r st"
    if "ws = [''list_requests'', n]" "u \<noteq> []" "findGroup st n = Some g" "gr_owner g = u"
      "cr_response r = listing (gr_pending g)" "cr_session r = s"
| lists_files: "effect P cx s u ws st r st"
    if "ws = [''list_files'', n]" "u \<noteq> []" "findGroup st n = Some g" "u \<in> set (gr_members g)"
      "cr_response r = listing (map toHex (om_keys (gr_files g)))" "cr_session r = s"
| granted: "effect P cx s u ws st r st"
    if "ws = [''download_file'', n, x]" "u \<noteq> []" "findGroup st n = Some g" "u \<in> set (gr_members g)"
      "fromHex x = Some name" "om_find (gr_files g) name = Some f" "sf_seeders f \<noteq> []"
      "\<forall>a\<in>set (accessesFor P (downloadTicket u n name (cx_now cx)) f). sa_key a \<noteq> []"
      "cr_response r = metaReply P (downloadTicket u n name (cx_now cx)) f" "cr_session r = s"
| registers: "effect P cx s u ws st r (st\<lparr>ts_users := om_insert v h (ts_users st)\<rparr>)"
    if "ws = [''create_user'', v, pw]" "v \<notin> registered st" "v \<noteq> []" "h = password_hash P pw (cx_salt cx)" "h \<noteq> []"
      "cr_response r = ''OK user created''" "cr_session r = s"
| signs_in: "effect P cx s u ws st r (st\<lparr>ts_sessions := om_insert s' v (ts_sessions st)\<rparr>)"
    if "ws = [''login'', v, pw]" "u = []" "om_find (ts_users st) v = Some h" "password_verify P pw h" "s' \<noteq> 0"
      "om_find (ts_sessions st) s' = None" "s' = (if s = 0 then cx_newSession cx else s)"
      "cr_response r = ''OK logged in''" "cr_session r = s'"
| signs_out: "effect P cx s u ws st r
      (st\<lparr>ts_groups := om_map (removeSharesOf u) (ts_groups st), ts_sessions := om_erase s (ts_sessions st)\<rparr>)"
    if "ws = [''logout'']" "u \<noteq> []" "cr_response r = ''OK logged out''" "cr_session r = 0"
| founds: "effect P cx s u ws st r
      (putGroup n \<lparr>gr_owner = u, gr_members = [u], gr_pending = [], gr_files = []\<rparr> st)"
    if "ws = [''create_group'', n]" "u \<noteq> []" "findGroup st n = None" "cr_response r = ''OK group created''" "cr_session r = s"
| asks: "effect P cx s u ws st r (putGroup n (g\<lparr>gr_pending := os_insert u (gr_pending g)\<rparr>) st)"
    if "ws = [''join_group'', n]" "u \<noteq> []" "findGroup st n = Some g" "u \<notin> set (gr_members g)" "u \<notin> set (gr_pending g)"
      "cr_response r = ''OK join requested''" "cr_session r = s"
| leaves: "effect P cx s u ws st r (putGroup n (expelled u g) st)"
    if "ws = [''leave_group'', n]" "u \<noteq> []" "findGroup st n = Some g" "u \<in> set (gr_members g)" "u \<noteq> gr_owner g"
      "cr_response r = ''OK left group''" "cr_session r = s"
| accepts: "effect P cx s u ws st r
      (putGroup n (g\<lparr>gr_pending := os_erase v (gr_pending g), gr_members := os_insert v (gr_members g)\<rparr>) st)"
    if "ws = [''accept_request'', n, v]" "u \<noteq> []" "findGroup st n = Some g" "gr_owner g = u" "v \<in> set (gr_pending g)"
      "cr_response r = ''OK request accepted''" "cr_session r = s"
| expels: "effect P cx s u ws st r (putGroup n (expelled v g) st)"
    if "ws = [''remove_member'', n, v]" "u \<noteq> []" "findGroup st n = Some g" "gr_owner g = u" "v \<in> set (gr_members g)" "v \<noteq> u"
      "cr_response r = ''OK member removed''" "cr_session r = s"
| shares: "effect P cx s u ws st r
      (putGroup n (withFile name (f\<lparr>sf_seeders := om_insert u sd (sf_seeders f)\<rparr>) g) st)"
    if "ws = ''upload_file'' # args" "offer P args n name m sd" "u \<noteq> []" "findGroup st n = Some g" "u \<in> set (gr_members g)"
      "om_find (gr_files g) name = Some f \<or> om_find (gr_files g) name = None \<and> f = \<lparr>sf_metadata = m, sf_seeders = []\<rparr>"
      "sf_metadata f = m" "cr_response r = ''OK file shared''" "cr_session r = s"
| unshares: "effect P cx s u ws st r (putGroup n (withoutShare u name f g) st)"
    if "ws = [''stop_share'', n, x]" "u \<noteq> []" "findGroup st n = Some g" "fromHex x = Some name"
      "om_find (gr_files g) name = Some f" "om_find (sf_seeders f) u = Some sd"
      "cr_response r = ''OK sharing stopped''" "cr_session r = s"

section \<open>Every handler takes one of them\<close>

lemma reply_simps [simp]: "cr_response (reply rq x) = x" "cr_session (reply rq x) = rq_session rq"
  by (simp_all add: reply_def)

lemma listing_ok: "starts_with (listing xs) ''OK''"
  by (simp add: listing_def)

lemma listing_starts [simp]: "\<not> starts_with (listing xs) ''META''" "\<not> starts_with (listing xs) ''ERR''"
  by (simp_all add: listing_def)

lemma putGroup_same: "tracker_ok P st \<Longrightarrow> findGroup st n = Some g \<Longrightarrow> putGroup n g st = st"
  by (simp add: putGroup_def findGroup_def om_insert_same tracker_okD(3))

text \<open>The shape the lemmas below share: the handler's outcome is an effect for its request.\<close>

abbreviation takes :: "platform \<Rightarrow> string \<Rightarrow> Request \<Rightarrow> TrackerState \<Rightarrow> outcome \<Rightarrow> bool" where
  "takes P name rq st out \<equiv>
     effect P (rq_context rq) (rq_session rq) (rq_user rq) (name # rq_args rq) st (fst out) (snd (snd out))"

lemma createUser_takes:
  assumes "tracker_ok P st" "request_ok st rq" "rq_args rq = [v, pw]"
  shows "takes P ''create_user'' rq st (createUser P rq st)"
proof -
  have "v \<noteq> []"
    using assms(2,3) by (auto simp: request_ok_def)
  then show ?thesis
    using assms(3) by (auto simp: createUser_def Let_def registered_def intro: registers refused)
qed

lemma login_takes:
  assumes "tracker_ok P st" "request_ok st rq" "rq_args rq = [v, pw]"
  shows "takes P ''login'' rq st (login P rq st)"
proof -
  have "om_find (ts_sessions st) (rq_session rq) = None" if "rq_user rq = []"
    using that assms userOf_empty_iff by (metis request_ok_def)
  then show ?thesis
    using assms(3) by (auto simp: login_def Let_def intro: refused signs_in split: option.splits)
qed

lemma logout_takes: "rq_args rq = [] \<Longrightarrow> takes P ''logout'' rq st (logout rq st)"
  by (auto simp: logout_def intro: refused signs_out)

lemma createGroup_takes: "rq_user rq \<noteq> [] \<Longrightarrow> rq_args rq = [n] \<Longrightarrow> takes P ''create_group'' rq st (createGroup rq st)"
  by (auto simp: createGroup_def Let_def findGroup_def intro: refused founds)

lemma joinGroup_takes: "rq_user rq \<noteq> [] \<Longrightarrow> rq_args rq = [n] \<Longrightarrow> takes P ''join_group'' rq st (joinGroup rq st)"
  by (auto simp: joinGroup_def Let_def intro: refused asks split: option.splits)

lemma leaveGroup_takes: "rq_user rq \<noteq> [] \<Longrightarrow> rq_args rq = [n] \<Longrightarrow> takes P ''leave_group'' rq st (leaveGroup rq st)"
  by (auto simp: leaveGroup_def Let_def simp flip: expelled_def
      intro: refused leaves split: option.splits)

lemma acceptRequest_takes:
  "rq_user rq \<noteq> [] \<Longrightarrow> rq_args rq = [n, v] \<Longrightarrow> takes P ''accept_request'' rq st (acceptRequest rq st)"
  by (auto simp: acceptRequest_def Let_def intro: refused accepts split: option.splits)

lemma removeMember_takes:
  "rq_user rq \<noteq> [] \<Longrightarrow> rq_args rq = [n, v] \<Longrightarrow> takes P ''remove_member'' rq st (removeMember rq st)"
  by (auto simp: removeMember_def Let_def simp flip: expelled_def
      intro: refused expels split: option.splits)

lemma listings_take:
  assumes "rq_user rq \<noteq> []"
  shows "rq_args rq = [] \<Longrightarrow> takes P ''list_groups'' rq st (listGroups rq st)"
    "rq_args rq = [n] \<Longrightarrow> takes P ''list_requests'' rq st (listRequests rq st)"
    "rq_args rq = [n] \<Longrightarrow> takes P ''list_files'' rq st (listFiles rq st)"
  using assms by (auto simp: listGroups_def listRequests_def listFiles_def
      intro: refused lists_groups lists_requests lists_files split: option.splits)

lemma uploadArguments_offer:
  "uploadArguments P args = Some (name, m, e, key) \<longleftrightarrow> offer P args (args ! 0) name m \<lparr>sd_endpoint = e, sd_peerKey = key\<rparr>"
proof
  assume u: "uploadArguments P args = Some (name, m, e, key)"
  then have "length args = 8"
    by (simp add: uploadArguments_def split: if_splits)
  then obtain n x sz full hashes ip port k where args: "args = [n, x, sz, full, hashes, ip, port, k]"
    by (auto simp: eval_nat_numeral length_Suc_conv)
  with u show "offer P args (args ! 0) name m \<lparr>sd_endpoint = e, sd_peerKey = key\<rparr>"
    by (auto simp: uploadArguments_def offer_def Let_def split: if_splits option.splits)
next
  assume "offer P args (args ! 0) name m \<lparr>sd_endpoint = e, sd_peerKey = key\<rparr>"
  then obtain n x sz full hashes ip port k where args: "args = [n, x, sz, full, hashes, ip, port, k]"
    and a: "fromHex x = Some name" "name \<noteq> []" "parseU64 sz = Some (fm_size m)" "fm_fullHash m = full"
      "fm_pieceHashes m = parsePieceHashList hashes" "valid m" "Endpoint_parse P (ip @ '':'' @ port) = Some e"
      "fromHex k = Some key" "length key = 32"
    by (auto simp: offer_def)
  from a(4,5) have meta: "\<lparr>fm_size = fm_size m, fm_fullHash = full, fm_pieceHashes = parsePieceHashList hashes\<rparr> = m"
    by (cases m) simp
  show "uploadArguments P args = Some (name, m, e, key)"
    using args a by (simp add: uploadArguments_def Let_def meta)
qed

lemma uploadFile_takes:
  assumes "tracker_ok P st" "rq_user rq \<noteq> []"
  shows "takes P ''upload_file'' rq st (uploadFile P rq st)"
proof -
  define n where "n = (if rq_args rq = [] then [] else rq_args rq ! 0)"
  show ?thesis
  proof (cases "findGroup st n")
    case (Some g)
    note ok = tracker_okD(7) [OF assms(1) Some]
    show ?thesis
    proof (cases "rq_user rq \<in> set (gr_members g)")
      case member: True
      show ?thesis
      proof (cases "uploadArguments P (rq_args rq)")
        case args: (Some a)
        then obtain name m e key where a: "uploadArguments P (rq_args rq) = Some (name, m, e, key)"
          by (cases a) auto
        note good = uploadArguments_ok [OF a]
        from a have offer: "offer P (rq_args rq) n name m \<lparr>sd_endpoint = e, sd_peerKey = key\<rparr>"
          unfolding uploadArguments_offer by (auto simp: n_def offer_def)
        show ?thesis
        proof (cases "om_find (gr_files g) name")
          case None
          then show ?thesis
            using Some member a good offer assms(2)
            by (auto simp: uploadFile_def Let_def emptyFile_def simp flip: n_def withFile_def
                intro!: shares [where f = "\<lparr>sf_metadata = m, sf_seeders = []\<rparr>", simplified])
        next
          case shared: (Some f)
          have "withFile name f g = g" "fm_fullHash (sf_metadata f) \<noteq> []"
            using ok shared by (auto simp: group_ok_def om_insert_same file_ok_def withFile_def valid_fullHash)
          then show ?thesis
            using Some member a good offer assms(2) shared putGroup_same [OF assms(1) Some]
            by (auto simp: uploadFile_def Let_def sameContent_iff simp flip: n_def withFile_def
                intro: refused intro!: shares [OF refl _ _ _ _ disjI1])
        qed
      qed (use Some member in \<open>auto simp: uploadFile_def Let_def simp flip: n_def intro: refused\<close>)
    qed (use Some in \<open>auto simp: uploadFile_def Let_def simp flip: n_def intro: refused\<close>)
  qed (auto simp: uploadFile_def Let_def simp flip: n_def intro: refused)
qed

lemma downloadFile_takes:
  assumes "rq_user rq \<noteq> []" "rq_args rq = [n, x]"
  shows "takes P ''download_file'' rq st (downloadFile P rq st)"
proof (cases "findGroup st n")
  case (Some g)
  show ?thesis
  proof (cases "fromHex x")
    case name: (Some name)
    show ?thesis
    proof (cases "om_find (gr_files g) name")
      case listed: (Some f)
      let ?t = "downloadTicket (rq_user rq) n name (cx_now (rq_context rq))"
      have "effect P (rq_context rq) (rq_session rq) (rq_user rq) [''download_file'', n, x] st (reply rq (metaReply P ?t f)) st"
        if "rq_user rq \<in> set (gr_members g)" "sf_seeders f \<noteq> []" "\<not> list_ex (\<lambda>a. sa_key a = []) (accessesFor P ?t f)"
        by (rule granted [OF refl assms(1) Some that(1) name listed that(2)])
          (use that(3) in \<open>auto simp: list_ex_iff\<close>)
      then show ?thesis
        using Some name listed assms(2)
        by (auto simp: downloadFile_def Let_def metaReply_def accessesFor_def downloadTicket_def intro: refused)
    qed (use Some name assms(2) in \<open>auto simp: downloadFile_def intro: refused\<close>)
  qed (use Some assms(2) in \<open>auto simp: downloadFile_def intro: refused\<close>)
qed (use assms(2) in \<open>auto simp: downloadFile_def intro: refused\<close>)

lemma stopShare_takes:
  assumes "rq_user rq \<noteq> []" "rq_args rq = [n, x]"
  shows "takes P ''stop_share'' rq st (stopShare rq st)"
proof -
  have stop: "effect P (rq_context rq) (rq_session rq) (rq_user rq) [''stop_share'', n, x] st
      (reply rq ''OK sharing stopped'') (putGroup n g' st)"
    if "findGroup st n = Some g" "fromHex x = Some name" "om_find (gr_files g) name = Some f"
      "om_find (sf_seeders f) (rq_user rq) = Some sd" "g' = withoutShare (rq_user rq) name f g" for g name f sd g'
    unfolding that(5) by (rule unshares [OF refl assms(1) that(1-4)]) simp_all
  show ?thesis
    using assms(2)
    by (auto simp: stopShare_def Let_def withoutShare_def intro: refused split: option.splits intro!: stop)
qed

section \<open>The main lemma\<close>

theorem apply_effect:
  assumes ok: "tracker_ok P st" and run: "apply_command P s line cx st = (r, st')"
  shows "effect P cx s (userOf st s) (words_of line) st r st'"
  using run
proof (cases rule: apply_cases)
  case error
  then show ?thesis by (auto intro: refused)
next
  case (handled name args spec rq rq')
  have rq: "rq_context rq = cx" "rq_session rq = s" "rq_user rq = userOf st s" "rq_args rq = args"
    and user: "cm_needsLogin spec \<Longrightarrow> rq_user rq \<noteq> []"
    using handled(3,5) by auto
  have goal: "?thesis" if "takes P name rq st (h rq st)" "cm_handler spec = h" for h
    using that handled(7) by (simp add: rq handled(1))
  have args: "cm_arity spec = 0 \<Longrightarrow> rq_args rq = []"
    "cm_arity spec = 1 \<Longrightarrow> \<exists>a. rq_args rq = [a]" "cm_arity spec = 2 \<Longrightarrow> \<exists>a b. rq_args rq = [a, b]"
    using handled(6) by (auto simp: rq length_Suc_conv eval_nat_numeral nat_eq_iff [symmetric])
  note st = ok and good = handled(4)
  from handled(2) show ?thesis
  proof (cases rule: commands_cases)
    case 1 then show ?thesis using goal createUser_takes [OF st good] args(3) by blast
  next
    case 2 then show ?thesis using goal login_takes [OF st good] args(3) by blast
  next
    case 3 then show ?thesis using goal logout_takes args(1) by blast
  next
    case 4 then show ?thesis using goal createGroup_takes user args(2) by blast
  next
    case 5 then show ?thesis using goal joinGroup_takes user args(2) by blast
  next
    case 6 then show ?thesis using goal leaveGroup_takes user args(2) by blast
  next
    case 7 then show ?thesis using goal listings_take(1) user args(1) by blast
  next
    case 8 then show ?thesis using goal listings_take(2) user args(2) by blast
  next
    case 9 then show ?thesis using goal acceptRequest_takes user args(3) by blast
  next
    case 10 then show ?thesis using goal removeMember_takes user args(3) by blast
  next
    case 11 then show ?thesis using goal uploadFile_takes [OF st] user by blast
  next
    case 12 then show ?thesis using goal listings_take(3) user args(2) by blast
  next
    case 13 then show ?thesis using goal downloadFile_takes user args(3) by blast
  next
    case 14 then show ?thesis using goal stopShare_takes user args(3) by blast
  qed
qed

end
