(* ===== verification/Tracker_Access.thy ===== *)
theory Tracker_Access
  imports Tracker_Spec
begin

text \<open>
  Histories of the tracker: who may belong to a group and how, what a non-member can change,
  when a session exists, what a refused command leaves behind.  Each property is a case
  analysis of \<open>effect\<close>; those about a whole history go through the \<open>machine\<close> interface.
\<close>

type_synonym tracker_input = "u64 \<times> string \<times> ApplyContext"

definition tracker_step :: "platform \<Rightarrow> tracker_input \<Rightarrow> TrackerState \<Rightarrow> CommandResult \<times> TrackerState" where
  "tracker_step P i st = (case i of (s, line, cx) \<Rightarrow> apply_command P s line cx st)"

lemma tracker_step_simp [simp]: "tracker_step P (s, line, cx) st = apply_command P s line cx st"
  by (simp add: tracker_step_def)

abbreviation tracker_after :: "platform \<Rightarrow> tracker_input list \<Rightarrow> TrackerState" where
  "tracker_after P h \<equiv> after (tracker_step P) TrackerState_init h"

interpretation tracker: machine "tracker_step P" TrackerState_init "tracker_ok P" "\<lambda>_. True"
  for P
  by unfold_locales (auto simp: tracker_ok_init tracker_step_def intro: apply_ok split: prod.splits)

lemma tracker_cause:
  assumes "\<not> Q TrackerState_init" "Q (tracker_after P h)"
  shows "\<exists>h1 i h2. h = h1 @ i # h2 \<and> \<not> Q (tracker_after P h1) \<and> Q (snd (tracker_step P i (tracker_after P h1)))"
  using tracker.cause [of h Q P] assms by (simp add: list_all_iff) blast

lemma tracker_after_ok: "tracker_ok P (tracker_after P h)"
  by (rule tracker.inv_after) (simp add: list_all_iff)

text \<open>One more command, as an effect.\<close>

lemma step_effect:
  assumes "tracker_ok P st"
  shows "effect P cx s (userOf st s) (words_of line) st (fst (apply_command P s line cx st)) (snd (apply_command P s line cx st))"
  by (rule apply_effect [OF assms]) simp

lemma starts_with_clash: "starts_with s (c # p) \<Longrightarrow> starts_with s (d # q) \<Longrightarrow> c = d"
  by (cases s) simp_all

text \<open>A command that was not refused ran the handler of its name.\<close>

lemma handler_ran:
  assumes "apply_command P s line cx st = (r, st')" "words_of line = name # args" "\<not> starts_with (cr_response r) ''ERR ''"
    "map_of (commands P) name = Some spec"
  shows "\<exists>rq'. cm_handler spec \<lparr>rq_session = s, rq_user = userOf st s, rq_args = args, rq_context = cx\<rparr> st = (r, rq', st')"
  using assms(1) by (cases rule: apply_cases) (use assms in auto)

lemma command_lookup [simp]:
  "map_of (commands P) ''create_user'' = Some \<lparr>cm_handler = createUser P, cm_needsLogin = False, cm_arity = 2,
     cm_usage = ''create_user <user> <password>''\<rparr>"
  "map_of (commands P) ''login'' = Some \<lparr>cm_handler = login P, cm_needsLogin = False, cm_arity = 2,
     cm_usage = ''login <user> <password>''\<rparr>"
  "map_of (commands P) ''logout'' = Some \<lparr>cm_handler = logout, cm_needsLogin = False, cm_arity = 0, cm_usage = ''logout''\<rparr>"
  "map_of (commands P) ''remove_member'' = Some \<lparr>cm_handler = removeMember, cm_needsLogin = True, cm_arity = 2,
     cm_usage = ''remove_member <group> <user>''\<rparr>"
  "map_of (commands P) ''download_file'' = Some \<lparr>cm_handler = downloadFile P, cm_needsLogin = True, cm_arity = 2,
     cm_usage = ''download_file <group> <file>''\<rparr>"
  "map_of (commands P) ''upload_file'' = Some \<lparr>cm_handler = uploadFile P, cm_needsLogin = True, cm_arity = -1,
     cm_usage = ''upload_file''\<rparr>"
  by (simp_all add: commands_def)

section \<open>The access-control machine\<close>

text \<open>What the group commands are about: per group an owner, its members and its applicants.\<close>

type_synonym acl = "string \<rightharpoonup> (string \<times> string set \<times> string set)"

definition acl_of :: "TrackerState \<Rightarrow> acl" where
  "acl_of st n = map_option (\<lambda>g. (gr_owner g, set (gr_members g), set (gr_pending g))) (findGroup st n)"

inductive acl_step :: "string \<Rightarrow> acl \<Rightarrow> acl \<Rightarrow> bool" for u a where
  acl_found: "acl_step u a (a(n \<mapsto> (u, {u}, {})))" if "u \<noteq> []" "a n = None"
| acl_ask: "acl_step u a (a(n \<mapsto> (own, M, insert u W)))"
    if "u \<noteq> []" "a n = Some (own, M, W)" "u \<notin> M" "u \<notin> W"
| acl_leave: "acl_step u a (a(n \<mapsto> (own, M - {u}, W)))" if "a n = Some (own, M, W)" "u \<in> M" "u \<noteq> own"
| acl_accept: "acl_step u a (a(n \<mapsto> (u, insert v M, W - {v})))" if "a n = Some (u, M, W)" "v \<in> W"
| acl_expel: "acl_step u a (a(n \<mapsto> (u, M - {v}, W)))" if "a n = Some (u, M, W)" "v \<in> M" "v \<noteq> u"

lemma acl_of_putGroup:
  "acl_of (putGroup n g st) = (acl_of st)(n \<mapsto> (gr_owner g, set (gr_members g), set (gr_pending g)))"
  by (simp add: acl_of_def fun_eq_iff findGroup_putGroup)

lemma acl_of_same: "acl_of st n = Some (own, M, W) \<Longrightarrow> (acl_of st)(n \<mapsto> (own, M, W)) = acl_of st"
  by auto

lemma acl_of_found: "findGroup st n = Some g \<Longrightarrow> acl_of st n = Some (gr_owner g, set (gr_members g), set (gr_pending g))"
  by (simp add: acl_of_def)

lemma acl_of_others [simp]:
  "acl_of (st\<lparr>ts_users := x\<rparr>) = acl_of st" "acl_of (st\<lparr>ts_sessions := y\<rparr>) = acl_of st"
  "acl_of (st\<lparr>ts_groups := om_map (removeSharesOf u) (ts_groups st)\<rparr>) = acl_of st"
  by (simp_all add: acl_of_def findGroup_def fun_eq_iff option.map_comp comp_def)

lemma findGroup_others [simp]:
  "findGroup (st\<lparr>ts_users := x\<rparr>) n = findGroup st n" "findGroup (st\<lparr>ts_sessions := y\<rparr>) n = findGroup st n"
  "findGroup (st\<lparr>ts_groups := om_map f (ts_groups st)\<rparr>) n = map_option f (findGroup st n)"
  by (simp_all add: findGroup_def)

lemma group_shapes [simp]:
  "gr_owner (expelled v g) = gr_owner g" "gr_members (expelled v g) = os_erase v (gr_members g)"
  "gr_pending (expelled v g) = gr_pending g"
  "gr_owner (withFile n f g) = gr_owner g" "gr_members (withFile n f g) = gr_members g"
  "gr_pending (withFile n f g) = gr_pending g"
  "gr_owner (withoutShare v n f g) = gr_owner g" "gr_members (withoutShare v n f g) = gr_members g"
  "gr_pending (withoutShare v n f g) = gr_pending g"
  by (simp_all add: expelled_def withFile_def withoutShare_def Let_def)

lemma effect_acl:
  assumes "effect P cx s u ws st r st'"
  shows "acl_of st' = acl_of st \<or> acl_step u (acl_of st) (acl_of st')"
  using assms
proof cases
  case founds
  then show ?thesis by (auto simp: acl_of_putGroup acl_of_def intro!: acl_found)
next
  case (asks n g)
  then show ?thesis using acl_ask [of u "acl_of st" n] acl_of_found [OF asks(4)] by (simp add: acl_of_putGroup)
next
  case (leaves n g)
  then show ?thesis using acl_leave [of "acl_of st" n _ _ _ u] acl_of_found [OF leaves(4)] by (simp add: acl_of_putGroup)
next
  case (accepts n g v)
  then show ?thesis using acl_accept [of "acl_of st" n u] acl_of_found [OF accepts(4)] by (simp add: acl_of_putGroup)
next
  case (expels n g v)
  then show ?thesis using acl_expel [of "acl_of st" n u] acl_of_found [OF expels(4)] by (simp add: acl_of_putGroup)
next
  case shares
  then show ?thesis by (simp add: acl_of_putGroup acl_of_same acl_of_found)
next
  case unshares
  then show ?thesis by (simp add: acl_of_putGroup acl_of_same acl_of_found)
qed (simp_all)

inductive_cases acl_stepE: "acl_step u a a'"

text \<open>Groups keep their owner for ever.\<close>

lemma effect_owner:
  assumes "effect P cx s u ws st r st'" "findGroup st n = Some g"
  obtains g' where "findGroup st' n = Some g'" "gr_owner g' = gr_owner g"
proof -
  have "\<exists>M' W'. acl_of st' n = Some (gr_owner g, M', W')"
    using effect_acl [OF assms(1)] acl_of_found [OF assms(2)]
    by (auto elim!: acl_stepE split: if_splits)
  with that show ?thesis by (auto simp: acl_of_def)
qed

lemma step_ok: "tracker_ok P st \<Longrightarrow> tracker_ok P (snd (tracker_step P i st))"
  by (cases i) (auto intro: apply_ok [OF _ surjective_pairing])

definition owned_by :: "string \<Rightarrow> string \<Rightarrow> TrackerState \<Rightarrow> bool" where
  "owned_by own n st \<longleftrightarrow> (\<exists>g. findGroup st n = Some g \<and> gr_owner g = own)"

lemma step_owner:
  assumes "tracker_ok P st" "owned_by own n st"
  shows "owned_by own n (snd (tracker_step P i st))"
proof -
  obtain s line cx where i: "i = (s, line, cx)" by (cases i)
  obtain g where g: "findGroup st n = Some g" "gr_owner g = own"
    using assms(2) by (auto simp: owned_by_def)
  show ?thesis
    using effect_owner [OF step_effect [OF assms(1), of cx s line] g(1)] g(2) unfolding i owned_by_def by auto
qed

lemma owner_after:
  assumes "tracker_ok P st" "owned_by own n st"
  shows "owned_by own n (after (tracker_step P) st h)"
proof -
  have "tracker_ok P (after (tracker_step P) st h) \<and> owned_by own n (after (tracker_step P) st h)"
    by (rule after_keeps) (use assms step_ok step_owner in blast)+
  then show ?thesis ..
qed

text \<open>Only the owner's acceptance makes somebody else a member; only the applicant applies.\<close>

definition joined :: "string \<Rightarrow> string \<Rightarrow> TrackerState \<Rightarrow> bool" where
  "joined v n st \<longleftrightarrow> (\<exists>g. findGroup st n = Some g \<and> v \<in> set (gr_members g) \<and> v \<noteq> gr_owner g)"

definition applied :: "string \<Rightarrow> string \<Rightarrow> TrackerState \<Rightarrow> bool" where
  "applied v n st \<longleftrightarrow> (\<exists>g. findGroup st n = Some g \<and> v \<in> set (gr_pending g))"

lemma step_acl:
  assumes "tracker_ok P st"
  shows "acl_of (snd (tracker_step P i st)) = acl_of st \<or>
    acl_step (userOf st (fst i)) (acl_of st) (acl_of (snd (tracker_step P i st)))"
proof -
  obtain s line cx where i: "i = (s, line, cx)" by (cases i)
  show ?thesis
    using effect_acl [OF step_effect [OF assms, of cx s line]] by (simp add: i)
qed

lemma effect_joined:
  assumes "effect P cx s u ws st r st'" "\<not> joined v n st" "joined v n st'"
  shows "ws = [''accept_request'', n, v] \<and> applied v n st \<and> owned_by u n st"
  using assms(1)
  by cases (use assms(2,3) in \<open>auto simp: joined_def applied_def owned_by_def findGroup_putGroup split: if_splits\<close>)

lemma effect_applied:
  assumes "effect P cx s u ws st r st'" "\<not> applied v n st" "applied v n st'"
  shows "ws = [''join_group'', n] \<and> u = v"
  using assms(1)
  by cases (use assms(2,3) in \<open>auto simp: applied_def findGroup_putGroup split: if_splits\<close>)

lemma init_empty [simp]: "\<not> joined v n TrackerState_init" "\<not> applied v n TrackerState_init"
  by (simp_all add: joined_def applied_def findGroup_def TrackerState_init_def)

end
