(* ===== verification/Tracker_Properties.thy ===== *)
theory Tracker_Properties
  imports Tracker_Access
begin

text \<open>
  The properties of the tracker's state machine.  They are stated for every state that some
  history of commands reaches, so they need no assumption about the state; the demonstration
  history below is where the witnesses evaluate them.
\<close>

section \<open>A concrete history\<close>

definition demo_context :: "u64 \<Rightarrow> ApplyContext" where
  "demo_context s = \<lparr>cx_salt = replicate 16 CHR ''s'', cx_newSession = s, cx_now = 1000\<rparr>"

definition demo_hash :: string where "demo_hash = replicate 40 CHR ''a''"

definition demo_setup :: "tracker_input list" where
  "demo_setup =
    [(0, ''create_user alice pw'', demo_context 0), (0, ''create_user bob pw2'', demo_context 0),
     (0, ''login alice pw'', demo_context 7), (0, ''login bob pw2'', demo_context 9),
     (7, ''create_group g'', demo_context 0)]"

definition demo_rest :: "tracker_input list" where
  "demo_rest =
    [(9, ''join_group g'', demo_context 0), (7, ''accept_request g bob'', demo_context 0),
     (9, ''upload_file g 66 5 '' @ demo_hash @ '' '' @ demo_hash @ '' 1.2.3.4 80 '' @ replicate 64 CHR ''6'',
      demo_context 0)]"

definition demo_history :: "tracker_input list" where
  "demo_history = demo_setup @ demo_rest"

definition demo_file :: SharedFile where
  "demo_file = \<lparr>sf_metadata = \<lparr>fm_size = 5, fm_fullHash = demo_hash, fm_pieceHashes = [demo_hash]\<rparr>,
     sf_seeders = [(''bob'', \<lparr>sd_endpoint = \<lparr>ep_ip = ''1.2.3.4'', ep_port = 80\<rparr>, sd_peerKey = replicate 32 CHR ''f''\<rparr>)]\<rparr>"

definition demo_users :: "(string \<times> string) list" where
  "demo_users = [(''alice'', password_hash toy_platform ''pw'' (replicate 16 CHR ''s'')),
     (''bob'', password_hash toy_platform ''pw2'' (replicate 16 CHR ''s''))]"

definition demo_early :: TrackerState where
  "demo_early = \<lparr>ts_users = demo_users, ts_sessions = [(7, ''alice''), (9, ''bob'')],
     ts_groups = [(''g'', \<lparr>gr_owner = ''alice'', gr_members = [''alice''], gr_pending = [], gr_files = []\<rparr>)]\<rparr>"

definition demo_state :: TrackerState where
  "demo_state = \<lparr>ts_users = demo_users, ts_sessions = [(7, ''alice''), (9, ''bob'')],
     ts_groups = [(''g'', \<lparr>gr_owner = ''alice'', gr_members = [''alice'', ''bob''], gr_pending = [],
       gr_files = [(''f'', demo_file)]\<rparr>)]\<rparr>"

lemma demo_reaches_early: "tracker_after toy_platform demo_setup = demo_early"
  by code_simp

lemma demo_rest_state: "after (tracker_step toy_platform) demo_early demo_rest = demo_state"
  by code_simp

lemma demo_reaches: "tracker_after toy_platform demo_history = demo_state"
  by (simp only: demo_history_def after_append demo_reaches_early demo_rest_state)

lemma demo_group: "findGroup demo_state ''g'' = Some \<lparr>gr_owner = ''alice'', gr_members = [''alice'', ''bob''],
    gr_pending = [], gr_files = [(''f'', demo_file)]\<rparr>"
  by (simp add: demo_state_def findGroup_def om_find_def)

lemma demo_sessions [simp]: "userOf demo_state 9 = ''bob''" "userOf demo_state 7 = ''alice''" "userOf demo_state 0 = []"
  by (simp_all add: demo_state_def userOf_def om_find_def)

section \<open>The whole tracker\<close>

text \<open>C1: Whatever commands the tracker has run, from whatever sessions, its state keeps the
  invariant: the containers are ordered, sessions belong to registered users, every owner is a
  member, applicants are not members, every listed file has a valid metadata record and at
  least one seeder, and every seeder is a logged-in member with a parsed address and a 32-byte key.\<close>

theorem history_keeps_invariant: "tracker_ok P (tracker_after P h)"
  by (rule tracker_after_ok)

text \<open>A transition of the specification that is not a refusal is what the tracker does: with the line's
  words, the identity and the state, it determines the reply and the next state.\<close>

lemma effect_happens:
  assumes "tracker_ok P st" "effect P cx s (userOf st s) (words_of line) st r st'" "\<not> starts_with (cr_response r) ''ERR ''"
  shows "apply_command P s line cx st = (r, st')"
proof -
  have same: "(q, st1) = (r, st')" if "cr_response q = cr_response r" "cr_session q = cr_session r" "st1 = st'" for q st1
    using that by simp
  from assms(2) show ?thesis
  proof cases
    case refused
    with assms(3) show ?thesis by simp
  next
    case (lists_groups)
    then show ?thesis
      by (simp add: apply_command_def commands_def listGroups_def Let_def)
  next
    case (lists_requests n g)
    then show ?thesis
      by (simp add: apply_command_def commands_def listRequests_def Let_def)
  next
    case (lists_files n g)
    then show ?thesis
      by (simp add: apply_command_def commands_def listFiles_def Let_def)
  next
    case (granted n x g name f)
    have "\<not> list_ex (\<lambda>a. sa_key a = []) (accessesFor P (downloadTicket (userOf st s) n name (cx_now cx)) f)"
      using granted(9) by (auto simp: list_ex_iff)
    with granted show ?thesis
      by (simp add: apply_command_def commands_def downloadFile_def Let_def metaReply_def accessesFor_def downloadTicket_def Let_def)
  next
    case (registers v h pw)
    then show ?thesis
      by (simp add: apply_command_def commands_def createUser_def registered_def Let_def)
  next
    case (signs_in v pw h s')
    then show ?thesis
      by (cases "s = 0") (simp_all add: apply_command_def commands_def login_def Let_def)
  next
    case signs_out
    then show ?thesis
      by (simp add: apply_command_def commands_def logout_def Let_def)
  next
    case (founds n)
    then show ?thesis
      by (simp add: apply_command_def commands_def createGroup_def findGroup_def Let_def)
  next
    case (asks n g)
    then show ?thesis
      by (simp add: apply_command_def commands_def joinGroup_def Let_def)
  next
    case (leaves n g)
    then show ?thesis
      by (simp add: apply_command_def commands_def leaveGroup_def expelled_def Let_def)
  next
    case (accepts n g v)
    then show ?thesis
      by (simp add: apply_command_def commands_def acceptRequest_def Let_def)
  next
    case (expels n g v)
    then show ?thesis
      by (simp add: apply_command_def commands_def removeMember_def expelled_def Let_def)
  next
    case (shares args n name m sd g f)
    from shares(3) have n: "args \<noteq> []" "args ! 0 = n" and m: "fm_fullHash m \<noteq> []"
      using valid_fullHash by (auto simp: offer_def)
    have "offer P args (args ! 0) name m \<lparr>sd_endpoint = sd_endpoint sd, sd_peerKey = sd_peerKey sd\<rparr>"
      using shares(3) n(2) by (cases sd) simp
    then have "uploadArguments P args = Some (name, m, sd_endpoint sd, sd_peerKey sd)"
      unfolding uploadArguments_offer .
    moreover have whole: "\<lparr>sd_endpoint = sd_endpoint sd, sd_peerKey = sd_peerKey sd\<rparr> = sd"
      by simp
    moreover have "r = \<lparr>cr_response = ''OK file shared'', cr_session = s\<rparr>"
      using shares(9,10) by simp
    ultimately have run: "apply_command P s line cx st = (r, putGroup n (withFile name
        (f'\<lparr>sf_seeders := om_insert (userOf st s) sd (sf_seeders f')\<rparr>) g) st)"
      if "om_find (gr_files g) name = Some f' \<and> sf_metadata f' = m \<or>
        om_find (gr_files g) name = None \<and> f' = \<lparr>sf_metadata = m, sf_seeders = []\<rparr>" for f'
      using that shares(2,4-6) n m
      by (elim disjE) (simp_all add: apply_command_def commands_def uploadFile_def emptyFile_def withFile_def sameContent_iff
          Let_def reply_def whole)
    have "om_find (gr_files g) name = Some f \<and> sf_metadata f = m \<or>
        om_find (gr_files g) name = None \<and> f = \<lparr>sf_metadata = m, sf_seeders = []\<rparr>"
      using shares(7,8) by blast
    from run [OF this] shares(1) show ?thesis
      by simp
  next
    case (unshares n x g name f sd)
    then show ?thesis
      by (simp add: apply_command_def commands_def stopShare_def withoutShare_def Let_def)
  qed
qed

text \<open>C2: In every reachable state, every command line takes a transition of the abstract specification that
  is named by the line's own words, with their arguments, the identity that the session holds and under that
  transition's conditions; and it takes the only one: whenever the specification allows any
  transition other than a refusal, that is the one taken, with exactly that reply and state.\<close>

theorem commands_refine_effect:
  "let st = tracker_after P h; (r, st') = apply_command P s line cx st
   in effect P cx s (userOf st s) (words_of line) st r st' \<and>
     (\<forall>r2 st2. effect P cx s (userOf st s) (words_of line) st r2 st2 \<and> \<not> starts_with (cr_response r2) ''ERR '' \<longrightarrow>
        r2 = r \<and> st2 = st')"
  using step_effect [OF tracker_after_ok [of P h], of cx s line] effect_happens [OF tracker_after_ok [of P h], of cx s line]
  by (auto simp: Let_def case_prod_beta)

theorem commands_refine_effect_witness:
  "apply_command toy_platform 0 ''login alice pw'' (demo_context 11) (tracker_after toy_platform demo_history) =
    (\<lparr>cr_response = ''OK logged in'', cr_session = 11\<rparr>, demo_state\<lparr>ts_sessions := om_insert 11 ''alice'' (ts_sessions demo_state)\<rparr>)"
proof -
  have words: "words_of ''login alice pw'' = [''login'', ''alice'', ''pw'']"
    by code_simp
  have starts_OK: "\<not> starts_with ''OK logged in'' ''ERR ''"
    by simp
  have "password_verify toy_platform ''pw'' (password_hash toy_platform ''pw'' (replicate 16 CHR ''s''))"
    by code_simp
  then have "effect toy_platform (demo_context 11) 0 [] [''login'', ''alice'', ''pw''] demo_state
      \<lparr>cr_response = ''OK logged in'', cr_session = 11\<rparr> (demo_state\<lparr>ts_sessions := om_insert 11 ''alice'' (ts_sessions demo_state)\<rparr>)"
    by (intro signs_in [OF refl refl]) (simp_all add: demo_state_def demo_users_def om_find_def demo_context_def)
  moreover obtain r st' where run: "apply_command toy_platform 0 ''login alice pw'' (demo_context 11) demo_state = (r, st')"
    by fastforce
  moreover have "\<forall>r2 st2. effect toy_platform (demo_context 11) 0 [] [''login'', ''alice'', ''pw''] demo_state r2 st2 \<and>
      \<not> starts_with (cr_response r2) ''ERR '' \<longrightarrow> r2 = r \<and> st2 = st'"
    using commands_refine_effect [of toy_platform demo_history 0 "''login alice pw''" "demo_context 11"]
    by (simp add: demo_reaches words run)
  ultimately have "\<lparr>cr_response = ''OK logged in'', cr_session = 11\<rparr> = r \<and>
      demo_state\<lparr>ts_sessions := om_insert 11 ''alice'' (ts_sessions demo_state)\<rparr> = st'"
    by (metis CommandResult.select_convs(1) starts_OK)
  with run show ?thesis
    by (simp add: demo_reaches)
qed

text \<open>C3: The tracker simulates the access-control machine: a command leaves the owners, members
  and applicants of all groups alone, or takes one step of that machine with the caller as actor.\<close>

theorem commands_simulate_acl:
  "let st = tracker_after P h; st' = snd (apply_command P s line cx st)
   in acl_of st' = acl_of st \<or> acl_step (userOf st s) (acl_of st) (acl_of st')"
  using step_acl [OF tracker_after_ok [of P h], where i = "(s, line, cx)"] by (auto simp: Let_def)

text \<open>C4: Membership needs consent of both sides: whoever is a member of a group and does not own
  it asked to join it, by a \<open>join_group\<close> of this group from a session of his own; his request stayed pending
  until the owner of the group accepted it, by an \<open>accept_request\<close> that names this group and him; and he has
  been a member ever since.\<close>

theorem membership_by_consent:
  assumes "joined v n (tracker_after P h)"
  shows "\<exists>h1 sa ask cxa h2 so accept cxo h3. h = h1 @ (sa, ask, cxa) # h2 @ (so, accept, cxo) # h3 \<and>
    words_of ask = [''join_group'', n] \<and> userOf (tracker_after P h1) sa = v \<and> \<not> applied v n (tracker_after P h1) \<and>
    (\<forall>a b. h2 = a @ b \<longrightarrow> applied v n (tracker_after P (h1 @ (sa, ask, cxa) # a))) \<and>
    words_of accept = [''accept_request'', n, v] \<and>
    owned_by (userOf (tracker_after P (h1 @ (sa, ask, cxa) # h2)) so) n (tracker_after P h) \<and>
    \<not> joined v n (tracker_after P (h1 @ (sa, ask, cxa) # h2)) \<and>
    (\<forall>a b. h3 = a @ b \<longrightarrow> joined v n (tracker_after P (h1 @ (sa, ask, cxa) # h2 @ (so, accept, cxo) # a)))"
proof -
  obtain h' i h3 where h: "h = h' @ i # h3" "\<not> joined v n (tracker_after P h')"
      "joined v n (tracker_after P (h' @ [i]))" "\<And>a b. h3 = a @ b \<Longrightarrow> joined v n (tracker_after P (h' @ i # a))"
  proof (rule last_change [of "joined v n" "tracker_step P" TrackerState_init h])
    show "\<not> joined v n (tracker_after P [])" "joined v n (tracker_after P h)"
      using assms by simp_all
  qed (rule that)
  obtain so accept cxo where i: "i = (so, accept, cxo)"
    by (cases i)
  have accepted: "words_of accept = [''accept_request'', n, v]" "applied v n (tracker_after P h')"
      "owned_by (userOf (tracker_after P h') so) n (tracker_after P h')"
    using effect_joined [OF step_effect [OF tracker_after_ok [of P h'], of cxo so accept]] h(2,3)
    by (simp_all add: i)
  obtain h1 k h2 where h': "h' = h1 @ k # h2" "\<not> applied v n (tracker_after P h1)"
      "applied v n (tracker_after P (h1 @ [k]))" "\<And>a b. h2 = a @ b \<Longrightarrow> applied v n (tracker_after P (h1 @ k # a))"
  proof (rule last_change [of "applied v n" "tracker_step P" TrackerState_init h'])
    show "\<not> applied v n (tracker_after P [])" "applied v n (tracker_after P h')"
      using accepted(2) by simp_all
  qed (rule that)
  obtain sa ask cxa where k: "k = (sa, ask, cxa)"
    by (cases k)
  have asked: "words_of ask = [''join_group'', n]" "userOf (tracker_after P h1) sa = v"
    using effect_applied [OF step_effect [OF tracker_after_ok [of P h1], of cxa sa ask]] h'(2,3)
    by (simp_all add: k)
  have own: "owned_by (userOf (tracker_after P h') so) n (tracker_after P h)"
    unfolding h(1) after_append by (rule owner_after [OF tracker_after_ok accepted(3)])
  have h'_is: "h' = h1 @ (sa, ask, cxa) # h2"
    by (simp add: h'(1) k)
  show ?thesis
  proof (intro exI conjI)
    show "h = h1 @ (sa, ask, cxa) # h2 @ (so, accept, cxo) # h3"
      by (simp add: h(1) h'_is i)
    show "\<forall>a b. h2 = a @ b \<longrightarrow> applied v n (tracker_after P (h1 @ (sa, ask, cxa) # a))"
      using h'(4) unfolding k by blast
    show "owned_by (userOf (tracker_after P (h1 @ (sa, ask, cxa) # h2)) so) n (tracker_after P h)"
      using own unfolding h'_is .
    show "\<not> joined v n (tracker_after P (h1 @ (sa, ask, cxa) # h2))"
      using h(2) unfolding h'_is .
    have "joined v n (tracker_after P ((h1 @ (sa, ask, cxa) # h2) @ (so, accept, cxo) # a))" if "h3 = a @ b" for a b
      using h(4) [OF that] unfolding i h'_is .
    then show "\<forall>a b. h3 = a @ b \<longrightarrow> joined v n (tracker_after P (h1 @ (sa, ask, cxa) # h2 @ (so, accept, cxo) # a))"
      by simp
  qed (fact asked accepted(1) h'(2))+
qed

theorem membership_by_consent_witness:
  "\<exists>h1 sa ask cxa h2 so accept cxo h3. demo_history = h1 @ (sa, ask, cxa) # h2 @ (so, accept, cxo) # h3 \<and>
    words_of ask = [''join_group'', ''g''] \<and> userOf (tracker_after toy_platform h1) sa = ''bob'' \<and>
    words_of accept = [''accept_request'', ''g'', ''bob'']"
proof -
  have "joined ''bob'' ''g'' (tracker_after toy_platform demo_history)"
    by (simp add: demo_reaches joined_def demo_group)
  from membership_by_consent [OF this] show ?thesis
    by metis
qed

section \<open>Downloads and files\<close>

text \<open>C5: A \<open>META\<close> reply goes to nobody but a logged-in member of the group the file is listed in, and
  it is exactly the file's metadata with, for each seeder, a ticket for the caller that
  expires five minutes after the tracker's clock.\<close>

theorem download_only_members:
  assumes "apply_command P s line cx (tracker_after P h) = (r, st')" "starts_with (cr_response r) ''META''"
  shows "\<exists>u n g name f. userOf (tracker_after P h) s = u \<and> u \<in> online (tracker_after P h) \<and>
    findGroup (tracker_after P h) n = Some g \<and> u \<in> set (gr_members g) \<and> om_find (gr_files g) name = Some f \<and>
    cr_response r = metaReply P (downloadTicket u n name (cx_now cx)) f \<and> st' = tracker_after P h"
  using apply_effect [OF tracker_after_ok assms(1)]
proof cases
  case granted
  then show ?thesis using userOf_online by blast
next
  case refused
  then show ?thesis using assms(2) starts_with_clash by fastforce
qed (use assms(2) in \<open>simp_all\<close>)

theorem download_only_members_witness:
  "\<exists>u n g name f. userOf (tracker_after toy_platform demo_history) 9 = u \<and>
    u \<in> online (tracker_after toy_platform demo_history) \<and>
    findGroup (tracker_after toy_platform demo_history) n = Some g \<and> u \<in> set (gr_members g) \<and>
    om_find (gr_files g) name = Some f \<and>
    cr_response (fst (apply_command toy_platform 9 ''download_file g 66'' (demo_context 0) demo_state)) =
      metaReply toy_platform (downloadTicket u n name (cx_now (demo_context 0))) f \<and>
    snd (apply_command toy_platform 9 ''download_file g 66'' (demo_context 0) demo_state) =
      tracker_after toy_platform demo_history"
proof (rule download_only_members)
  show "apply_command toy_platform 9 ''download_file g 66'' (demo_context 0) (tracker_after toy_platform demo_history) =
      (fst (apply_command toy_platform 9 ''download_file g 66'' (demo_context 0) demo_state),
       snd (apply_command toy_platform 9 ''download_file g 66'' (demo_context 0) demo_state))"
    by (simp add: demo_reaches)
  show "starts_with (cr_response (fst (apply_command toy_platform 9 ''download_file g 66'' (demo_context 0) demo_state))) ''META''"
    by code_simp
qed

lemma download_reply:
  assumes "hmac_total P" "findGroup (tracker_after P h) n = Some g" "userOf (tracker_after P h) s \<in> set (gr_members g)"
    "om_find (gr_files g) name = Some f" "words_of line = [''download_file'', n, toHex name]"
  shows "apply_command P s line cx (tracker_after P h) =
    (\<lparr>cr_response = metaReply P (downloadTicket (userOf (tracker_after P h) s) n name (cx_now cx)) f, cr_session = s\<rparr>,
     tracker_after P h)"
proof -
  have ok: "group_ok P (registered (tracker_after P h)) (online (tracker_after P h)) g"
    by (rule tracker_okD(7) [OF tracker_after_ok assms(2)])
  then have member: "userOf (tracker_after P h) s \<noteq> []" and shared: "file_ok P (set (gr_members g) \<inter> online (tracker_after P h)) f"
    using assms(3,4) tracker_okD(5,6) [OF tracker_after_ok] by (auto simp: group_ok_def)
  have keys: "sa_key (seederAccess P t sd) \<noteq> []" if "(u, sd) \<in> set (sf_seeders f)" for u sd t
  proof -
    have "length (sd_peerKey sd) = 32"
      using shared that om_mem_find [of "sf_seeders f"] by (auto simp: file_ok_def seeder_ok_def)
    then have "length (PeerTicket_key P t (sd_peerKey sd)) = 32"
      unfolding PeerTicket_key_def by (intro hmac_length assms(1)) simp
    then show ?thesis by (auto simp: seederAccess_def)
  qed
  show ?thesis
    using assms(2-5) member shared keys
    by (auto simp: apply_command_def commands_def downloadFile_def Let_def metaReply_def accessesFor_def
        downloadTicket_def reply_def fromHex_toHex list_ex_iff file_ok_def)
qed

text \<open>Conversely a member asking for a listed file gets that reply, as long as HMAC works.\<close>

theorem download_available:
  assumes "hmac_total P" "findGroup (tracker_after P h) n = Some g" "userOf (tracker_after P h) s \<in> set (gr_members g)"
    "om_find (gr_files g) name = Some f" "words_of line = [''download_file'', n, toHex name]"
  shows "apply_command P s line cx (tracker_after P h) =
    (\<lparr>cr_response = metaReply P (downloadTicket (userOf (tracker_after P h) s) n name (cx_now cx)) f, cr_session = s\<rparr>,
     tracker_after P h)"
  by (rule download_reply [OF assms])

theorem download_available_witness:
  "apply_command toy_platform 9 ''download_file g 66'' (demo_context 0) (tracker_after toy_platform demo_history) =
    (\<lparr>cr_response = metaReply toy_platform (downloadTicket (userOf (tracker_after toy_platform demo_history) 9) ''g'' ''f''
        (cx_now (demo_context 0))) demo_file, cr_session = 9\<rparr>, tracker_after toy_platform demo_history)"
proof (rule download_available [OF _ demo_group [folded demo_reaches]])
  show "words_of ''download_file g 66'' = [''download_file'', ''g'', toHex ''f'']"
    by code_simp
  show "hmac_total toy_platform" by simp
qed (simp_all add: demo_reaches demo_group om_find_def)

text \<open>C7: Who is not a member of a group changes nothing in it: its owner, members, files and
  seeders stay as they were, and at most his own name is added to the applicants.\<close>

theorem non_member_changes_nothing:
  assumes "findGroup (tracker_after P h) n = Some g" "userOf (tracker_after P h) s \<notin> set (gr_members g)"
  shows "findGroup (snd (apply_command P s line cx (tracker_after P h))) n = Some g \<or>
    findGroup (snd (apply_command P s line cx (tracker_after P h))) n =
      Some (g\<lparr>gr_pending := os_insert (userOf (tracker_after P h) s) (gr_pending g)\<rparr>)"
proof -
  note ok = tracker_okD(7) [OF tracker_after_ok assms(1)]
  have own: "gr_owner g \<noteq> userOf (tracker_after P h) s"
    using ok assms(2) by (auto simp: group_ok_def)
  have unchanged: "removeSharesOf (userOf (tracker_after P h) s) g = g"
    by (rule removeSharesOf_none [of _ P "set (gr_members g) \<inter> online (tracker_after P h)"])
      (use ok assms(2) in \<open>auto simp: group_ok_def\<close>)
  have unshared: "om_find (sf_seeders f) (userOf (tracker_after P h) s) \<noteq> Some sd"
    if "om_find (gr_files g) name = Some f" for name f sd
    using ok assms(2) that by (auto simp: group_ok_def file_ok_def)
  from step_effect [OF tracker_after_ok [of P h], of cx s line] show ?thesis
    by cases (use assms own unshared in \<open>auto simp: findGroup_putGroup unchanged\<close>)
qed

theorem non_member_changes_nothing_witness:
  "findGroup (snd (apply_command toy_platform 0 ''logout'' (demo_context 0) (tracker_after toy_platform demo_history))) ''g'' =
     findGroup demo_state ''g'' \<or>
   findGroup (snd (apply_command toy_platform 0 ''logout'' (demo_context 0) (tracker_after toy_platform demo_history))) ''g'' =
     map_option (\<lambda>g. g\<lparr>gr_pending := os_insert [] (gr_pending g)\<rparr>) (findGroup demo_state ''g'')"
  using non_member_changes_nothing [OF demo_group [folded demo_reaches], of 0 "''logout''" "demo_context 0"]
  by (simp add: demo_reaches demo_group)

text \<open>C8: A refused command changes nothing at all.\<close>

theorem refused_changes_nothing:
  assumes "apply_command P s line cx (tracker_after P h) = (r, st')" "starts_with (cr_response r) ''ERR''"
  shows "st' = tracker_after P h \<and> cr_session r = s"
  using apply_effect [OF tracker_after_ok assms(1)]
proof cases
  case granted
  then show ?thesis by simp
qed (use assms(2) in \<open>simp_all\<close>)

theorem refused_changes_nothing_witness:
  "snd (apply_command toy_platform 9 ''remove_member g alice'' (demo_context 0) demo_state) =
     tracker_after toy_platform demo_history \<and>
   cr_session (fst (apply_command toy_platform 9 ''remove_member g alice'' (demo_context 0) demo_state)) = 9"
proof (rule refused_changes_nothing)
  show "apply_command toy_platform 9 ''remove_member g alice'' (demo_context 0) (tracker_after toy_platform demo_history) =
      (fst (apply_command toy_platform 9 ''remove_member g alice'' (demo_context 0) demo_state),
       snd (apply_command toy_platform 9 ''remove_member g alice'' (demo_context 0) demo_state))"
    by (simp add: demo_reaches)
  show "starts_with (cr_response (fst (apply_command toy_platform 9 ''remove_member g alice'' (demo_context 0) demo_state))) ''ERR''"
    by code_simp
qed

text \<open>C9: Removing a member takes effect at once: he is no longer a member and seeds nothing in the
  group, while every other seeder of every file is still listed.\<close>

theorem removal_revokes:
  assumes "words_of line = [''remove_member'', n, v]"
    "apply_command P s line cx (tracker_after P h) = (r, st')" "starts_with (cr_response r) ''OK''"
  shows "\<exists>g g'. findGroup (tracker_after P h) n = Some g \<and> gr_owner g = userOf (tracker_after P h) s \<and>
    findGroup st' n = Some g' \<and> set (gr_members g') = set (gr_members g) - {v} \<and> gr_pending g' = gr_pending g \<and>
    (\<forall>name w sd. (\<exists>f'. om_find (gr_files g') name = Some f' \<and> om_find (sf_seeders f') w = Some sd) =
      (w \<noteq> v \<and> (\<exists>f. om_find (gr_files g) name = Some f \<and> om_find (sf_seeders f) w = Some sd)))"
proof -
  let ?st = "tracker_after P h"
  have "\<not> starts_with (cr_response r) ''ERR ''"
    using assms(3) starts_with_clash by fastforce
  from handler_ran [OF assms(2,1) this command_lookup(4)] obtain rq' where
    "removeMember \<lparr>rq_session = s, rq_user = userOf ?st s, rq_args = [n, v], rq_context = cx\<rparr> ?st = (r, rq', st')"
    by auto
  then obtain g where g: "findGroup ?st n = Some g" "gr_owner g = userOf ?st s" "st' = putGroup n (expelled v g) ?st"
    using assms(3) by (auto simp: removeMember_def Let_def simp flip: expelled_def split: if_splits option.splits)
  note ok = tracker_okD(7) [OF tracker_after_ok g(1)]
  have "(\<exists>f'. om_find (gr_files (expelled v g)) name = Some f' \<and> om_find (sf_seeders f') w = Some sd) =
      (w \<noteq> v \<and> (\<exists>f. om_find (gr_files g) name = Some f \<and> om_find (sf_seeders f) w = Some sd))" for name w sd
    using ok unfolding expelled_def
    by (auto simp: group_ok_def find_removeSharesOf om_find_erase Let_def dest: om_erase_NilD split: option.splits if_splits)
  with g show ?thesis
    by (auto simp: findGroup_putGroup)
qed

theorem removal_revokes_witness:
  "\<exists>g g'. findGroup demo_state ''g'' = Some g \<and> gr_owner g = ''alice'' \<and>
    findGroup (snd (apply_command toy_platform 7 ''remove_member g bob'' (demo_context 0) demo_state)) ''g'' = Some g' \<and>
    set (gr_members g') = set (gr_members g) - {''bob''} \<and> gr_pending g' = gr_pending g \<and>
    (\<forall>name w sd. (\<exists>f'. om_find (gr_files g') name = Some f' \<and> om_find (sf_seeders f') w = Some sd) =
      (w \<noteq> ''bob'' \<and> (\<exists>f. om_find (gr_files g) name = Some f \<and> om_find (sf_seeders f) w = Some sd)))"
proof -
  let ?out = "apply_command toy_platform 7 ''remove_member g bob'' (demo_context 0) demo_state"
  have words: "words_of ''remove_member g bob'' = [''remove_member'', ''g'', ''bob'']"
    by code_simp
  have "starts_with (cr_response (fst ?out)) ''OK''"
    by code_simp
  from removal_revokes [OF words _ this, of toy_platform 7 "demo_context 0" demo_history "snd ?out"] show ?thesis
    by (simp add: demo_reaches)
qed

section \<open>Accounts and sessions\<close>

lemma user_after:
  assumes "tracker_ok P st" "om_find (ts_users st) v = Some stored"
  shows "om_find (ts_users (after (tracker_step P) st h)) v = Some stored"
proof -
  have "om_find (ts_users (snd (tracker_step P i st))) v = Some stored"
    if "tracker_ok P st" "om_find (ts_users st) v = Some stored" for st i
  proof -
    obtain s line cx where i: "i = (s, line, cx)" by (cases i)
    from step_effect [OF that(1), of cx s line] show ?thesis
      by cases (use that(2) in \<open>auto simp: i registered_def om_find_insert\<close>)
  qed
  then have "tracker_ok P (after (tracker_step P) st h) \<and> om_find (ts_users (after (tracker_step P) st h)) v = Some stored"
    by (intro after_keeps [where Q = "\<lambda>st. tracker_ok P st \<and> om_find (ts_users st) v = Some stored"])
      (use assms step_ok in blast)+
  then show ?thesis ..
qed

text \<open>C10: A session that exists was opened by a \<open>login\<close> line that names the account and a password which the
  account's stored hash verifies, and has belonged to that account ever since.\<close>

theorem sessions_come_from_logins:
  assumes "om_find (ts_sessions (tracker_after P h)) s = Some v"
  shows "\<exists>h1 line cx s0 h2 pw stored. h = h1 @ (s0, line, cx) # h2 \<and> words_of line = [''login'', v, pw] \<and>
    (s0 = s \<or> s0 = 0 \<and> cx_newSession cx = s) \<and> om_find (ts_users (tracker_after P h1)) v = Some stored \<and> password_verify P pw stored \<and>
    om_find (ts_sessions (tracker_after P h1)) s = None \<and> s \<noteq> 0 \<and>
    (\<forall>h2a h2b. h2 = h2a @ h2b \<longrightarrow> userOf (tracker_after P (h1 @ (s0, line, cx) # h2a)) s = v)"
proof -
  let ?Q = "\<lambda>st. om_find (ts_sessions st) s = Some v"
  have "\<not> ?Q (tracker_after P [])"
    by (simp add: TrackerState_init_def)
  then obtain h1 i h2 where h: "h = h1 @ i # h2" "\<not> ?Q (tracker_after P h1)" "?Q (tracker_after P (h1 @ [i]))"
      "\<And>j k. h2 = j @ k \<Longrightarrow> ?Q (tracker_after P (h1 @ i # j))"
    using last_change [of ?Q "tracker_step P" TrackerState_init h] assms by metis
  obtain s0 line cx where i: "i = (s0, line, cx)" by (cases i)
  have stays: "\<forall>h2a h2b. h2 = h2a @ h2b \<longrightarrow> userOf (tracker_after P (h1 @ (s0, line, cx) # h2a)) s = v"
    using h(4) by (simp add: i userOf_def)
  from step_effect [OF tracker_after_ok [of P h1], of cx s0 line]
  have "\<exists>pw stored. words_of line = [''login'', v, pw] \<and> (s0 = s \<or> s0 = 0 \<and> cx_newSession cx = s) \<and> om_find (ts_users (tracker_after P h1)) v = Some stored \<and>
      password_verify P pw stored \<and> om_find (ts_sessions (tracker_after P h1)) s = None \<and> s \<noteq> 0"
    by cases (use h(2,3) in \<open>auto simp: i om_find_insert om_find_erase split: if_splits\<close>)
  with stays h(1) show ?thesis
    unfolding i by blast
qed

theorem sessions_come_from_logins_witness:
  "\<exists>h1 line cx s0 h2 pw stored. demo_history = h1 @ (s0, line, cx) # h2 \<and> words_of line = [''login'', ''bob'', pw] \<and>
    (s0 = 9 \<or> s0 = 0 \<and> cx_newSession cx = 9) \<and>
    om_find (ts_users (tracker_after toy_platform h1)) ''bob'' = Some stored \<and> password_verify toy_platform pw stored \<and>
    om_find (ts_sessions (tracker_after toy_platform h1)) 9 = None \<and> (9 :: u64) \<noteq> 0 \<and>
    (\<forall>h2a h2b. h2 = h2a @ h2b \<longrightarrow> userOf (tracker_after toy_platform (h1 @ (s0, line, cx) # h2a)) 9 = ''bob'')"
  by (rule sessions_come_from_logins) (simp add: demo_reaches demo_state_def om_find_def)

text \<open>C11: An account never changes hands: its stored hash is fixed when it is registered, and
  from then on a login with the password it was registered with succeeds, on a connection that
  is not logged in, if the context's session number is new.\<close>

theorem registered_password_works:
  assumes "memcmp_correct P" "words_of line = [''create_user'', v, pw]" "words_of line' = [''login'', v, pw]"
    "cr_response (fst (apply_command P s line cx (tracker_after P before))) = ''OK user created''"
    "h = before @ (s, line, cx) # later" "cx_newSession cx' \<noteq> 0" "userOf (tracker_after P h) (cx_newSession cx') = []"
  shows "\<exists>st'. apply_command P 0 line' cx' (tracker_after P h) =
    (\<lparr>cr_response = ''OK logged in'', cr_session = cx_newSession cx'\<rparr>, st') \<and> userOf st' (cx_newSession cx') = v"
proof -
  let ?stored = "password_hash P pw (cx_salt cx)"
  let ?st = "tracker_after P h"
  obtain r st1 where run: "apply_command P s line cx (tracker_after P before) = (r, st1)" by fastforce
  with assms(4) have "cr_response r = ''OK user created''" by simp
  then have "om_find (ts_users st1) v = Some ?stored \<and> ?stored \<noteq> []"
    using handler_ran [OF run assms(2) _ command_lookup(1)]
    by (auto simp: createUser_def Let_def om_find_insert split: if_splits)
  then have stored: "om_find (ts_users ?st) v = Some ?stored" "?stored \<noteq> []"
    using user_after [of P st1 v ?stored later] apply_ok [OF tracker_after_ok run]
    by (simp_all add: assms(5) after_append after_Cons run)
  have "om_find (ts_sessions ?st) 0 = None" "om_find (ts_sessions ?st) (cx_newSession cx') = None"
    using tracker_okD(4) [OF tracker_after_ok] userOf_empty_iff [OF tracker_after_ok] assms(7) by auto
  then show ?thesis
    using assms(3,6) stored verify_own_hash [OF assms(1) stored(2)]
    by (simp add: apply_command_def userOf_def login_def om_find_insert Let_def)
qed

theorem registered_password_works_witness:
  "\<exists>st'. apply_command toy_platform 0 ''login alice pw'' (demo_context 11) (tracker_after toy_platform demo_history) =
    (\<lparr>cr_response = ''OK logged in'', cr_session = cx_newSession (demo_context 11)\<rparr>, st') \<and>
    userOf st' (cx_newSession (demo_context 11)) = ''alice''"
proof (rule registered_password_works [where before = "[]" and s = 0 and line = "''create_user alice pw''" and
      cx = "demo_context 0" and later = "tl demo_history"])
  show "words_of ''create_user alice pw'' = [''create_user'', ''alice'', ''pw'']"
    "words_of ''login alice pw'' = [''login'', ''alice'', ''pw'']"
    "cr_response (fst (apply_command toy_platform 0 ''create_user alice pw'' (demo_context 0) (tracker_after toy_platform []))) =
       ''OK user created''"
    by code_simp+
  show "userOf (tracker_after toy_platform demo_history) (cx_newSession (demo_context 11)) = []"
    by (simp add: demo_reaches demo_state_def userOf_def om_find_def demo_context_def)
qed (simp_all add: demo_history_def demo_setup_def demo_context_def)

end
