(* ===== verification/Peer_Properties.thy ===== *)
theory Peer_Properties
  imports Peer_Exchange Tracker_Properties
begin

text \<open>
  Properties of a downloader and a seeder: who is answered, what is answered, and that the tickets
  the tracker writes are the ones the seeder accepts.
\<close>

section \<open>A concrete seeder\<close>

definition seed_key :: string where "seed_key = replicate 32 CHR ''f''"

definition seed_ticket :: PeerTicket where
  "seed_ticket = downloadTicket ''bob'' ''g'' ''f'' 1000"

definition seed_seeder :: Seeder where
  "seed_seeder = \<lparr>sd_endpoint = \<lparr>ep_ip = ''1.2.3.4'', ep_port = 80\<rparr>, sd_peerKey = seed_key\<rparr>"

definition seed_access :: SeederAccess where
  "seed_access = seederAccess toy_platform seed_ticket seed_seeder"

definition seed_hash :: string where "seed_hash = sha1Hex toy_platform ''hello''"

definition seed_file :: LocalFile where
  "seed_file = \<lparr>lf_path = ''p'', lf_metadata = \<lparr>fm_size = 5, fm_fullHash = seed_hash, fm_pieceHashes = [seed_hash]\<rparr>,
     lf_available = [True]\<rparr>"

definition seed_files :: shared_files where
  "seed_files = SharedFiles_add ''g'' ''f'' seed_file []"

definition seed_env :: seeder_env where
  "seed_env = \<lparr>sv_clock = (\<lambda>_. 1002), sv_disk = (\<lambda>path. if path = ''p'' then Some ''hello'' else None),
     sv_reads = [Io_count 2, Io_eintr, Io_count 9], sv_entropy = Some (\<lambda>_. CHR ''r'')\<rparr>"

definition seed_socket :: "string \<Rightarrow> Socket" where
  "seed_socket input = \<lparr>so_sends = [Io_count 4, Io_count 300], so_recvs = [Io_count 4, Io_count 300],
     so_in = input, so_out = []\<rparr>"

definition seed_request :: "string \<Rightarrow> string" where
  "seed_request operation = fst (the (makeRequest toy_platform (Some (\<lambda>_. CHR ''q'')) 1001 (sa_ticket seed_access)
     (sa_key seed_access) operation 0))"

definition seed_reply :: "string \<Rightarrow> string" where
  "seed_reply operation = frame_bytes (respond toy_platform seed_key seed_env seed_files (seed_request operation))"

definition seed_call :: "string \<Rightarrow> peer_env" where
  "seed_call operation = \<lparr>pe_entropy = Some (\<lambda>_. CHR ''q''), pe_clock = 1001,
     pe_socket = Some (seed_socket (seed_reply operation))\<rparr>"

definition seed_after :: "string \<Rightarrow> Socket" where
  "seed_after operation = \<lparr>so_sends = [], so_recvs = [], so_in = [], so_out = frame_bytes (seed_request operation)\<rparr>"

lemma seed_run:
  "PeerClient_request toy_platform (seed_call ''GET'') seed_access ''GET'' 0 = (Success, ''hello'', Some (seed_after ''GET''))"
  by code_simp

lemma seed_run_bitmap:
  "PeerClient_request toy_platform (seed_call ''BITMAP'') seed_access ''BITMAP'' 0 = (Success, [CHR 0x01], Some (seed_after ''BITMAP''))"
  by code_simp

lemma seed_served:
  "so_out (peer_connection toy_platform seed_key seed_env seed_files (seed_socket (frame_bytes (seed_request ''GET'')))) = seed_reply ''GET''"
  "so_out (peer_connection toy_platform seed_key seed_env seed_files (seed_socket (frame_bytes (seed_request ''BITMAP'')))) = seed_reply ''BITMAP''"
  by code_simp+

section \<open>Who is answered\<close>

text \<open>C19: A caller whose request is not genuine - no unexpired ticket, no proof of its key, no fresh
  timestamp - gets the same \<open>DENIED\<close> whatever files the seeder has and whatever is on its disk.\<close>

theorem not_genuine_is_denied:
  assumes "\<And>ticket m operation piece. \<not> genuine P peerKey now request ticket m operation piece"
  shows "respond P peerKey \<lparr>sv_clock = now, sv_disk = disk, sv_reads = reads, sv_entropy = r\<rparr> files request = DENIED"
  using respond_not_denied [of P peerKey "\<lparr>sv_clock = now, sv_disk = disk, sv_reads = reads, sv_entropy = r\<rparr>" files request]
    assms by auto

theorem not_genuine_is_denied_witness:
  "respond toy_platform seed_key \<lparr>sv_clock = (\<lambda>_. 1002), sv_disk = (\<lambda>_. Some ''hello''), sv_reads = [], sv_entropy = None\<rparr>
     seed_files ''21|who|are|you'' = DENIED"
proof (rule not_genuine_is_denied)
  have "length (split ''21|who|are|you'' CHR ''|'') = 4"
    by code_simp
  then show "\<not> genuine toy_platform seed_key (\<lambda>_. 1002) ''21|who|are|you'' ticket m operation piece" for ticket m operation piece
    by (auto simp: genuine_def)
qed

text \<open>C20: With AES-GCM as documented, whatever gets an answer was sealed, together with the text of an
  unexpired ticket, under that ticket's own key for this peer, and the ticket names a file shared here.\<close>

theorem answered_was_sealed:
  assumes "gcm_correct P" "gcm_authentic P" "respond P peerKey env files request \<noteq> DENIED"
  shows "\<exists>ticket shown n c t nonce sealed plain f. split request CHR ''|'' = [REQUEST, shown, n, c, t] \<and>
    PeerTicket_decode shown = Some ticket \<and> sv_clock env 0 < tk_expires ticket \<and>
    fromHex n = Some nonce \<and> fromHex c = Some (fst sealed) \<and> fromHex t = Some (snd sealed) \<and>
    pf_gcm_seal P (PeerTicket_key P ticket peerKey) nonce (requestAad shown) plain = Some sealed \<and>
    SharedFiles_find (tk_group ticket) (tk_file ticket) files = Some f"
proof -
  obtain ticket m operation piece f where g: "genuine P peerKey (sv_clock env) request ticket m operation piece"
      "SharedFiles_find (tk_group ticket) (tk_file ticket) files = Some f"
    using respond_not_denied [OF assms(3)] by blast
  then obtain shown n c t plain where r: "split request CHR ''|'' = [REQUEST, shown, n, c, t]"
      "PeerTicket_decode shown = Some ticket" "\<not> expired ticket (sv_clock env 0)"
      "fromHex n = Some (gm_nonce m)" "fromHex c = Some (gm_ciphertext m)" "fromHex t = Some (gm_tag m)"
      "decrypt P (PeerTicket_key P ticket peerKey) (requestAad shown) m = Some plain"
    unfolding genuine_def by blast
  note decrypt_sealed [OF assms(1,2) r(7)]
  with r g(2) show ?thesis
    unfolding expired_def not_le
    by (intro exI [of _ ticket] exI [of _ shown] exI [of _ n] exI [of _ c] exI [of _ t] exI [of _ "gm_nonce m"]
        exI [of _ "(gm_ciphertext m, gm_tag m)"] exI [of _ plain] exI [of _ f]) simp
qed

lemma seed_answered: "respond toy_platform seed_key seed_env seed_files (seed_request ''GET'') \<noteq> DENIED"
  by code_simp

theorem answered_was_sealed_witness:
  "\<exists>ticket shown n c t nonce sealed plain f. split (seed_request ''GET'') CHR ''|'' = [REQUEST, shown, n, c, t] \<and>
    PeerTicket_decode shown = Some ticket \<and> sv_clock seed_env 0 < tk_expires ticket \<and>
    fromHex n = Some nonce \<and> fromHex c = Some (fst sealed) \<and> fromHex t = Some (snd sealed) \<and>
    pf_gcm_seal toy_platform (PeerTicket_key toy_platform ticket seed_key) nonce (requestAad shown) plain = Some sealed \<and>
    SharedFiles_find (tk_group ticket) (tk_file ticket) seed_files = Some f"
  using answered_was_sealed [OF _ _ seed_answered] by simp

section \<open>What a downloader gets\<close>

text \<open>The accesses the tracker hands out are accesses for the seeder's own key.\<close>

lemma tracker_access_for:
  "ticket_ok ticket \<Longrightarrow> access_for P (sd_peerKey sd) ticket (seederAccess P ticket sd)"
  by (simp add: access_for_def seederAccess_def decode_encode_ticket)

lemma servePiece_GET:
  assumes "servePiece env f ''GET'' piece = Some got" "length (lf_available f) = pieceCount (lf_metadata f)"
    "valid (lf_metadata f)" "unat (fm_size (lf_metadata f)) < 2 ^ 63"
  shows "lf_available f ! unat piece \<and> (\<exists>content. sv_disk env (lf_path f) = Some content \<and>
    got = take (unat (pieceLength (lf_metadata f) piece)) (drop (unat piece * 524288) content) \<and>
    length got = unat (pieceLength (lf_metadata f) piece))"
proof -
  obtain content where "unat piece < pieceCount (lf_metadata f)" "lf_available f ! unat piece"
      "sv_disk env (lf_path f) = Some content"
      "PieceFile_read (sv_reads env) content piece (unat (pieceLength (lf_metadata f) piece)) = Some got"
    using assms(1,2) by (auto simp: servePiece_def split: if_splits option.splits)
  with read_piece [OF this(4), of "fm_size (lf_metadata f)"] assms(3,4) show ?thesis
    by (auto simp: pieceCount_def valid_def)
qed

lemma seed_facts:
  "ticket_ok (downloadTicket ''bob'' ''g'' ''f'' 1000)" "SharedFiles_find ''g'' ''f'' seed_files = Some seed_file"
  "length (lf_available seed_file) = pieceCount (lf_metadata seed_file)" "valid (lf_metadata seed_file)"
  "unat (fm_size (lf_metadata seed_file)) < 2 ^ 63"
  by (simp_all add: ticket_ok_def downloadTicket_def LIFETIME_SECONDS_def seed_files_def shared.lookup_add seed_file_def
      pieceCount_def valid_def seed_hash_def unat_pieceCountForSize)

lemma seed_in_time: "in_time (pe_clock (seed_call operation)) (sv_clock seed_env) (downloadTicket ''bob'' ''g'' ''f'' 1000)"
  by (simp add: in_time_def seed_call_def seed_env_def downloadTicket_def LIFETIME_SECONDS_def)

lemma seed_sockets:
  "pe_socket (seed_call operation) = Some (seed_socket (seed_reply operation))"
  "so_out (seed_socket input) = []" "so_in (seed_socket input) = input" "so_out (seed_after operation) = frame_bytes (seed_request operation)"
  by (simp_all add: seed_call_def seed_socket_def seed_after_def)

lemma seed_served_key:
  "so_out (peer_connection toy_platform (sd_peerKey seed_seeder) seed_env seed_files (seed_socket (frame_bytes (seed_request ''GET'')))) = seed_reply ''GET''"
  "so_out (peer_connection toy_platform (sd_peerKey seed_seeder) seed_env seed_files (seed_socket (frame_bytes (seed_request ''BITMAP'')))) = seed_reply ''BITMAP''"
  using seed_served by (simp_all add: seed_seeder_def)

text \<open>C21: A piece fetched over an honest connection with an access from the tracker is the seeder's: the
  seeder has the piece, and the data is that piece of its file, read whole.\<close>

theorem fetched_piece_is_the_seeders:
  assumes "gcm_correct P" "ticket_ok (downloadTicket user gname name issued)"
    and "in_time (pe_clock ce) (sv_clock se) (downloadTicket user gname name issued)"
    and "SharedFiles_find gname name files = Some f" "length (lf_available f) = pieceCount (lf_metadata f)"
    and "valid (lf_metadata f)" "unat (fm_size (lf_metadata f)) < 2 ^ 63"
    and "pe_socket ce = Some sock" "so_out sock = []" "so_out ssock = []"
    and "PeerClient_request P ce (seederAccess P (downloadTicket user gname name issued) sd) ''GET'' piece = (Success, got, Some sock')"
    and "so_in ssock = so_out sock'" "so_in sock = so_out (peer_connection P (sd_peerKey sd) se files ssock)"
  shows "lf_available f ! unat piece \<and> (\<exists>content. sv_disk se (lf_path f) = Some content \<and>
    got = take (unat (pieceLength (lf_metadata f) piece)) (drop (unat piece * 524288) content) \<and>
    length got = unat (pieceLength (lf_metadata f) piece))"
proof -
  have "servePiece se f ''GET'' piece = Some got"
    by (rule request_served [OF assms(1) tracker_access_for [OF assms(2)] assms(3) _ _ assms(8-13)])
      (simp_all add: downloadTicket_def assms(4))
  then show ?thesis
    using assms(5-7) by (rule servePiece_GET)
qed

theorem fetched_piece_is_the_seeders_witness:
  "lf_available seed_file ! unat (0 :: u64) \<and> (\<exists>content. sv_disk seed_env (lf_path seed_file) = Some content \<and>
    ''hello'' = take (unat (pieceLength (lf_metadata seed_file) 0)) (drop (unat (0 :: u64) * 524288) content) \<and>
    length ''hello'' = unat (pieceLength (lf_metadata seed_file) 0))"
  by (rule fetched_piece_is_the_seeders [OF _ seed_facts(1) seed_in_time seed_facts(2-5) seed_sockets(1,2) _
        seed_run [unfolded seed_access_def seed_ticket_def],
        where ssock = "seed_socket (frame_bytes (seed_request ''GET''))"])
    (simp_all add: seed_sockets seed_served_key)

text \<open>Likewise a bitmap fetched over an honest connection is the seeder's list of available pieces.\<close>

theorem fetched_bitmap_is_the_seeders:
  assumes "gcm_correct P" "ticket_ok (downloadTicket user gname name issued)"
    and "in_time (pe_clock ce) (sv_clock se) (downloadTicket user gname name issued)"
    and "SharedFiles_find gname name files = Some f"
    and "pe_socket ce = Some sock" "so_out sock = []" "so_out ssock = []"
    and "PeerClient_request P ce (seederAccess P (downloadTicket user gname name issued) sd) ''BITMAP'' 0 = (Success, got, Some sock')"
    and "so_in ssock = so_out sock'" "so_in sock = so_out (peer_connection P (sd_peerKey sd) se files ssock)"
  shows "PeerClient_fetchBitmap P ce (seederAccess P (downloadTicket user gname name issued) sd) (length (lf_available f)) =
    (Success, lf_available f)"
proof -
  have "servePiece se f ''BITMAP'' 0 = Some got"
    by (rule request_served [OF assms(1) tracker_access_for [OF assms(2)] assms(3) _ _ assms(5-10)])
      (simp_all add: downloadTicket_def assms(4))
  then have "got = map (\<lambda>available. if available then CHR 0x01 else NUL) (lf_available f)"
    by (simp add: servePiece_def)
  moreover have "map (\<lambda>piece. piece \<noteq> NUL) \<dots> = lf_available f"
    unfolding map_map by (rule map_idI) simp
  ultimately show ?thesis
    using assms(8) by (simp add: PeerClient_fetchBitmap_def)
qed

theorem fetched_bitmap_is_the_seeders_witness:
  "PeerClient_fetchBitmap toy_platform (seed_call ''BITMAP'') (seederAccess toy_platform (downloadTicket ''bob'' ''g'' ''f'' 1000) seed_seeder)
     (length (lf_available seed_file)) = (Success, lf_available seed_file)"
  by (rule fetched_bitmap_is_the_seeders [OF _ seed_facts(1) seed_in_time seed_facts(2) seed_sockets(1,2) _
        seed_run_bitmap [unfolded seed_access_def seed_ticket_def],
        where ssock = "seed_socket (frame_bytes (seed_request ''BITMAP''))"])
    (simp_all add: seed_sockets seed_served_key)

text \<open>A seeder cannot be missed: when the kernels move the bytes between a downloader with an access from the
  tracker and a seeder that shares the ticket's file, both clocks are in the ticket's time and both
  random generators work, the bitmap request succeeds and yields exactly the seeder's list of available pieces.\<close>

theorem bitmap_request_succeeds:
  assumes "gcm_correct P" "gcm_total P" "ticket_ok (downloadTicket user gname name issued)"
    and "in_time (pe_clock ce) (sv_clock se) (downloadTicket user gname name issued)"
    and "length (sa_key (seederAccess P (downloadTicket user gname name issued) sd)) = 32"
    and "SharedFiles_find gname name files = Some f" "length (lf_available f) \<le> 8000000" "sv_entropy se \<noteq> None"
    and "linked P (sd_peerKey sd) se files ssock ce (seederAccess P (downloadTicket user gname name issued) sd) ''BITMAP'' 0"
  shows "PeerClient_fetchBitmap P ce (seederAccess P (downloadTicket user gname name issued) sd) (length (lf_available f)) =
    (Success, lf_available f)"
proof -
  let ?bytes = "map (\<lambda>available. if available then CHR 0x01 else NUL) (lf_available f)"
  have served: "servePiece se f ''BITMAP'' 0 = Some ?bytes"
    by (simp add: servePiece_def)
  obtain sock' where "PeerClient_request P ce (seederAccess P (downloadTicket user gname name issued) sd) ''BITMAP'' 0 =
      (Success, ?bytes, Some sock')"
    using request_answered [OF assms(1,2) tracker_access_for [OF assms(3)] assms(5,4) _ _ served _ assms(8,9)] assms(6,7)
    by (auto simp: downloadTicket_def)
  moreover have "map (\<lambda>piece. piece \<noteq> NUL) ?bytes = lf_available f"
    unfolding map_map by (rule map_idI) simp
  ultimately show ?thesis
    by (simp add: PeerClient_fetchBitmap_def)
qed

theorem bitmap_request_succeeds_witness:
  "PeerClient_fetchBitmap toy_platform (seed_call ''BITMAP'') (seederAccess toy_platform (downloadTicket ''bob'' ''g'' ''f'' 1000) seed_seeder)
     (length (lf_available seed_file)) = (Success, lf_available seed_file)"
proof (rule bitmap_request_succeeds [OF _ _ seed_facts(1) seed_in_time _ seed_facts(2)])
  have request: "makeRequest toy_platform (pe_entropy (seed_call ''BITMAP'')) (pe_clock (seed_call ''BITMAP'')) (sa_ticket seed_access)
      (sa_key seed_access) ''BITMAP'' 0 = Some (seed_request ''BITMAP'', replicate 12 CHR ''q'')"
    by code_simp
  have moves: "serves [Io_count 4, Io_count 300] [4, length (seed_request ''BITMAP'')]"
      "serves [Io_count 4, Io_count 300] [4, length (respond toy_platform seed_key seed_env seed_files (seed_request ''BITMAP''))]"
      "int (length (seed_request ''BITMAP'')) \<le> MAX_FRAME"
    by code_simp+
  have "linked toy_platform seed_key seed_env seed_files (seed_socket (frame_bytes (seed_request ''BITMAP''))) (seed_call ''BITMAP'')
      seed_access ''BITMAP'' 0"
    unfolding linked_def request seed_served
    using moves by (intro exI [of _ "seed_socket (seed_reply ''BITMAP'')"] exI [of _ "seed_request ''BITMAP''"] exI conjI)
      (simp_all add: seed_sockets, simp_all add: seed_socket_def)
  then show "linked toy_platform (sd_peerKey seed_seeder) seed_env seed_files (seed_socket (frame_bytes (seed_request ''BITMAP'')))
      (seed_call ''BITMAP'') (seederAccess toy_platform (downloadTicket ''bob'' ''g'' ''f'' 1000) seed_seeder) ''BITMAP'' 0"
    by (simp add: seed_access_def seed_ticket_def seed_seeder_def)
  show "length (sa_key (seederAccess toy_platform (downloadTicket ''bob'' ''g'' ''f'' 1000) seed_seeder)) = 32"
    by code_simp
qed (simp_all add: toy_platform_def gcm_correct_def gcm_total_def seed_file_def seed_env_def)

section \<open>Files and pieces\<close>

lemma hashed_piece:
  assumes "length content < 2 ^ 64" "i < length (piece_chunks content)" "fm_size m = of_nat (length content)"
  shows "piece_chunks content ! i = take (unat (pieceLength m (of_nat i))) (drop (i * 524288) content)"
proof -
  have sz: "unat (fm_size m) = length content"
    using assms(1,3) by (simp add: unat_of_nat)
  have "length (piece_chunks content) \<le> length content + 524287"
    by (simp add: length_piece_chunks div_le_dividend)
  then have "i < 2 ^ 64"
    using assms(1,2) unfolding length_piece_chunks by simp
  then have i: "unat (of_nat i :: u64) = i"
    by (simp add: unat_of_nat)
  then have "unat (of_nat i :: u64) < unat (pieceCountForSize (fm_size m))"
    using assms(2) by (simp add: unat_pieceCountForSize sz length_piece_chunks)
  from unat_pieceLength [OF this] show ?thesis
    unfolding nth_piece_chunks [OF assms(2)] i sz by (simp add: min_def)
qed

text \<open>C23: Hashing a file gives valid metadata that describes it: its size, the digest of all its bytes,
  and for each piece the digest of exactly that piece's bytes, whose number and lengths are those
  \<^const>\<open>pieceLength\<close> computes in 64-bit arithmetic.\<close>

theorem hash_describes_the_file:
  assumes "PieceFile_hash P (Some content) False = Some m" "length content < 2 ^ 64"
  shows "valid m \<and> unat (fm_size m) = length content \<and> fm_fullHash m = sha1Hex P content \<and>
    (\<forall>i < pieceCount m. fm_pieceHashes m ! i =
       sha1Hex P (take (unat (pieceLength m (of_nat i))) (drop (i * 524288) content)))"
proof -
  have m: "m = \<lparr>fm_size = of_nat (length content), fm_fullHash = sha1Hex P content,
      fm_pieceHashes = map (sha1Hex P) (piece_chunks content)\<rparr>"
    using assms(1) by (simp add: PieceFile_hash_eq)
  with hash_valid [OF assms(2)] hashed_piece [OF assms(2), of _ m] assms(2) show ?thesis
    by (simp add: pieceCount_def unat_of_nat)
qed

theorem hash_describes_the_file_witness:
  "valid (lf_metadata seed_file) \<and> unat (fm_size (lf_metadata seed_file)) = 5 \<and>
    fm_fullHash (lf_metadata seed_file) = sha1Hex toy_platform ''hello'' \<and>
    fm_pieceHashes (lf_metadata seed_file) ! 0 =
      sha1Hex toy_platform (take (unat (pieceLength (lf_metadata seed_file) (of_nat 0))) (drop (0 * 524288) ''hello''))"
proof -
  have "piece_chunks ''hello'' = [''hello'']"
    by (subst piece_chunks.simps, simp, subst piece_chunks.simps, simp)
  then have hashed: "PieceFile_hash toy_platform (Some ''hello'') False = Some (lf_metadata seed_file)"
    by (simp add: PieceFile_hash_eq seed_file_def seed_hash_def)
  have "0 < pieceCount (lf_metadata seed_file)"
    by (simp add: pieceCount_def seed_file_def)
  with hash_describes_the_file [OF hashed] show ?thesis
    by simp
qed

text \<open>C24: A piece that was written whole is what a later read of it returns, and every other piece of the
  file reads as it did before the write, whatever portions the kernel moved the bytes in.\<close>

theorem written_piece_is_read_back:
  assumes "PieceFile_write evs content i data = (True, content')" "data \<noteq> []" "length data \<le> 524288"
    and "unat i < unat (pieceCountForSize sz)" "unat j < unat (pieceCountForSize sz)" "unat sz < 2 ^ 63"
    and "length content = unat sz" "n \<le> 524288" "PieceFile_read evs' content' j n = Some got"
  shows "(j = i \<longrightarrow> n = length data \<longrightarrow> got = data) \<and>
    (j \<noteq> i \<longrightarrow> got = take n (drop (unat j * 524288) content))"
proof -
  have off: "pieceOffset i = int (unat i * 524288)"
    using assms(4,6) by (rule pieceOffset_piece)
  have written: "content' = write_at (unat i * 524288) data content"
    using pwrite_loop_True [OF assms(1) [unfolded PieceFile_write_def] _ assms(2)] unfolding off
    by (simp only: nat_int of_nat_0_le_iff)
  have got: "got = take n (drop (unat j * 524288) content')"
    using read_piece [OF assms(9,5,6)] by simp
  have "unat i * 524288 \<le> length content"
    using unat_pieceOffset(2) [OF assms(4)] assms(7) by simp
  moreover have "unat j * 524288 + n \<le> unat i * 524288 \<or> unat i * 524288 + length data \<le> unat j * 524288" if "j \<noteq> i"
  proof -
    have "unat j + 1 \<le> unat i \<or> unat i + 1 \<le> unat j"
      using that by (metis Suc_eq_plus1 Suc_leI linorder_neqE_nat word_unat_eq_iff)
    then show ?thesis
      using assms(3,8) by auto
  qed
  ultimately show ?thesis
    unfolding got written using read_written read_elsewhere by blast
qed

theorem written_piece_is_read_back_witness:
  "the (PieceFile_read [Io_count 1, Io_count 1] ''xyllo'' 0 2) = ''xy''"
proof -
  have run: "PieceFile_write [Io_eintr, Io_count 1, Io_count 9] ''hello'' 0 ''xy'' = (True, ''xyllo'')"
    "PieceFile_read [Io_count 1, Io_count 1] ''xyllo'' 0 2 = Some (the (PieceFile_read [Io_count 1, Io_count 1] ''xyllo'' 0 2))"
    by code_simp+
  have "unat (0 :: u64) < unat (pieceCountForSize 5)"
    by (simp add: unat_pieceCountForSize)
  with written_piece_is_read_back [OF run(1) _ _ this this _ _ _ run(2)] show ?thesis
    by simp
qed

end
