(* ===== verification/Download_Demo.thy ===== *)
theory Download_Demo
  imports Download_Outcome Peer_Properties
begin

text \<open>
  A concrete download for the witnesses: the five bytes of one piece, one seeder, a platform whose
  SHA-1 tells exactly these bytes from everything else, and the steps of the one worker.
\<close>

definition demo_platform :: platform where
  "demo_platform = toy_platform\<lparr>pf_sha1 := (\<lambda>d. if d = ''hello'' then replicate 20 CHR ''a'' else replicate 20 CHR ''b'')\<rparr>"

definition demo_hash :: string where "demo_hash = sha1Hex demo_platform ''hello''"

definition demo_metadata :: FileMetadata where
  "demo_metadata = \<lparr>fm_size = 5, fm_fullHash = demo_hash, fm_pieceHashes = [demo_hash]\<rparr>"

definition demo_download :: Download where
  "demo_download = Download_init ''g'' ''f'' ''d'' demo_metadata [seed_access]"

definition no_call :: call_env where
  "no_call = \<lparr>ce_socket = None, ce_keys = None, ce_nonce = None, ce_clock = (\<lambda>_. 0), ce_frame = None\<rparr>"

definition demo_tracker :: TrackerClient where
  "demo_tracker = \<lparr>tc_config = \<lparr>cc_tracker = \<lparr>ep_ip = ''1.2.3.4'', ep_port = 80\<rparr>, cc_trackerPublicKey = []\<rparr>,
     tc_self = \<lparr>ep_ip = ''1.2.3.5'', ep_port = 81\<rparr>, tc_peerKey = [], tc_session = 7\<rparr>"

definition demo_step :: event where
  "demo_step = Ev_step 0 \<lparr>st_now = 1001, st_locate = no_call, st_peer = seed_call ''GET'', st_writes = [Io_count 2, Io_count 9]\<rparr>"

definition demo_disk :: file_system where
  "demo_disk = \<lparr>fs_files = (\<lambda>_. None), fs_modes = (\<lambda>_. None)\<rparr>"

definition demo_run :: run_env where
  "demo_run = \<lparr>rn_prepare = \<lparr>pp_opens = True, pp_truncates = True, pp_reads = (\<lambda>_. [])\<rparr>,
     rn_bitmaps = (\<lambda>_. \<lparr>be_now = 1001, be_locate = no_call, be_peer = seed_call ''BITMAP''\<rparr>),
     rn_share = no_call, rn_schedule = replicate 9 demo_step,
     rn_complete = \<lparr>co_bad = False, co_renames = True, co_share = no_call\<rparr>\<rparr>"

text \<open>Where the worker starts.\<close>

definition demo_open :: Download where
  "demo_open = demo_download\<lparr>dl_verified := [False], dl_bitmaps := [[True]], dl_rarity := [1]\<rparr>"

definition demo_part :: LocalFile where
  "demo_part = \<lparr>lf_path = ''d.part'', lf_metadata = demo_metadata, lf_available = [False]\<rparr>"

definition demo_start :: transfer where
  "demo_start = fetch_start [0] demo_tracker (replicate 5 NUL) (SharedFiles_add ''g'' ''f'' demo_part []) demo_open"

definition demo_opened :: file_system where
  "demo_opened = write_file ''d.part'' (replicate 5 NUL) demo_disk"

lemma demo_bitmap:
  "PeerClient_request demo_platform (seed_call ''BITMAP'') seed_access ''BITMAP'' 0 = (Success, [CHR 0x01], Some (seed_after ''BITMAP''))"
  by code_simp

lemma demo_get:
  "PeerClient_request demo_platform (seed_call ''GET'') seed_access ''GET'' 0 = (Success, ''hello'', Some (seed_after ''GET''))"
  by code_simp

lemma demo_expires: "SeederAccess_expires seed_access = 1300"
  by code_simp

lemma demo_uncalled [simp]: "callTracker P no_call k r = None"
  by (simp add: callTracker_def no_call_def)

lemma demo_unshared [simp]: "TrackerClient_share P no_call tc gname name m = (False, ''ERR tracker unavailable'', tc)"
  by (simp add: TrackerClient_share_def TrackerClient_request_def Let_def)

lemma demo_fields [simp]:
  "dl_metadata demo_download = demo_metadata" "dl_group demo_download = ''g''" "dl_name demo_download = ''f''"
  "dl_seeders demo_download = [seed_access]" "dl_destination demo_download = ''d''" "dl_resumed demo_download = 0"
  "pieceCount demo_metadata = 1" "fm_size demo_metadata = 5" "partPath demo_download = ''d.part''"
  by (simp_all add: demo_download_def Download_init_def demo_metadata_def pieceCount_def partPath_def)

lemma demo_open_fields [simp]:
  "dl_metadata demo_open = demo_metadata" "dl_seeders demo_open = [seed_access]" "dl_cancelled demo_open = False"
  "dl_group demo_open = ''g''" "dl_name demo_open = ''f''" "dl_completed demo_open = 0" "dl_bitmaps demo_open = [[True]]"
  "fm_pieceHashes demo_metadata = [demo_hash]" "partPath demo_open = ''d.part''" "dl_verified demo_open = [False]"
  "dl_rarity demo_open = [1]"
  by (simp_all add: demo_open_def demo_metadata_def) (simp_all add: demo_download_def Download_init_def partPath_def)

lemma demo_prepares:
  "Download_prepare demo_platform (rn_prepare demo_run) demo_disk demo_download = (True, demo_opened, demo_download\<lparr>dl_verified := [False]\<rparr>)"
proof -
  have "demo_download\<lparr>dl_verified := [False], dl_resumed := 0, dl_completed := 0\<rparr> = demo_download\<lparr>dl_verified := [False]\<rparr>"
    by (simp add: demo_download_def Download_init_def)
  then show ?thesis
    by (simp add: Download_prepare_def demo_run_def demo_disk_def PieceFile_openForWriting_def resized_def into_buffer_def demo_opened_def)
qed

lemma demo_maps:
  "Download_fetchBitmaps demo_platform (rn_bitmaps demo_run) demo_tracker (demo_download\<lparr>dl_verified := [False]\<rparr>) = (demo_tracker, demo_open)"
  by (simp add: Download_fetchBitmaps_def fetch_bitmap_def seederAt_def demo_expires demo_run_def TICKET_MARGIN_SECONDS_def
      PeerClient_fetchBitmap_def demo_bitmap add_bitmap_def demo_open_def)

lemma demo_begins: "Download_begin demo_platform demo_run demo_tracker demo_disk [] demo_download = Inr (demo_opened, [0], demo_start)"
proof -
  have "rarestFirst demo_open = [0]" "fs_files demo_opened ''d.part'' = Some (replicate 5 NUL)" "rn_share demo_run = no_call"
    by (simp_all add: rarestFirst_def demo_opened_def demo_run_def)
  then show ?thesis
    unfolding Download_begin_def demo_prepares
    by (simp add: demo_maps demo_start_def demo_part_def Let_def del: replicate.simps)
qed

text \<open>Where the nine steps lead.\<close>

definition demo_end_shared :: shared_files where
  "demo_end_shared = SharedFiles_markAvailable ''g'' ''f'' 0 (SharedFiles_add ''g'' ''f'' demo_part [])"

definition demo_finish :: transfer where
  "demo_finish = demo_start\<lparr>tr_download := demo_open\<lparr>dl_completed := 1\<rparr>, tr_next := 2, tr_file := ''hello'',
     tr_shared := demo_end_shared, tr_workers := [W_done]\<rparr>"

lemma demo_piece: "PeerClient_fetchPiece demo_platform (seed_call ''GET'') seed_access 0 demo_hash = (Success, ''hello'')"
  by (simp add: PeerClient_fetchPiece_def demo_get demo_hash_def)

lemma demo_write: "PieceFile_write [Io_count 2, Io_count 9] (replicate 5 NUL) 0 ''hello'' = (True, ''hello'')"
  by code_simp

lemma demo_start_fields [simp]:
  "tr_download demo_start = demo_open" "tr_next demo_start = 0" "tr_failed demo_start = False"
  "tr_file demo_start = replicate 5 NUL" "tr_shared demo_start = SharedFiles_add ''g'' ''f'' demo_part []"
  "tr_tracker demo_start = demo_tracker" "tr_workers demo_start = [W_loop]"
  by (simp_all add: demo_start_def fetch_start_def MAX_THREADS_def)

text \<open>The worker's step in each of its states.\<close>

lemma demo_steps:
  "transfer_step demo_platform [0] demo_start demo_step = demo_start\<lparr>tr_workers := [W_next]\<rparr>"
  "transfer_step demo_platform [0] (demo_start\<lparr>tr_workers := [W_next]\<rparr>) demo_step =
     demo_start\<lparr>tr_next := 1, tr_workers := [W_attempt 0 0]\<rparr>"
  "transfer_step demo_platform [0] (demo_start\<lparr>tr_next := 1, tr_workers := [W_attempt 0 0]\<rparr>) demo_step =
     demo_start\<lparr>tr_next := 1, tr_workers := [W_seeder 0 0]\<rparr>"
  "transfer_step demo_platform [0] (demo_start\<lparr>tr_next := 1, tr_workers := [W_seeder 0 0]\<rparr>) demo_step =
     demo_start\<lparr>tr_next := 1, tr_workers := [W_fetch 0 0 seed_access]\<rparr>"
  "transfer_step demo_platform [0] (demo_start\<lparr>tr_next := 1, tr_workers := [W_fetch 0 0 seed_access]\<rparr>) demo_step =
     demo_start\<lparr>tr_next := 1, tr_file := ''hello'', tr_workers := [W_count 0]\<rparr>"
  "transfer_step demo_platform [0] (demo_start\<lparr>tr_next := 1, tr_file := ''hello'', tr_workers := [W_count 0]\<rparr>) demo_step =
     demo_start\<lparr>tr_download := demo_open\<lparr>dl_completed := 1\<rparr>, tr_next := 1, tr_file := ''hello'', tr_workers := [W_publish 0]\<rparr>"
  by (simp_all add: transfer_step_def demo_step_def worker_step_def attempts_def PASSES_PER_PIECE_def holders_def
      attempt_seeder_def seederAt_def demo_expires TICKET_MARGIN_SECONDS_def fetch_step_def demo_piece demo_write markVerified_def
      Let_def del: replicate.simps)

lemma demo_last_steps:
  "transfer_step demo_platform [0] (demo_start\<lparr>tr_download := demo_open\<lparr>dl_completed := 1\<rparr>, tr_next := 1, tr_file := ''hello'',
       tr_workers := [W_publish 0]\<rparr>) demo_step =
     demo_start\<lparr>tr_download := demo_open\<lparr>dl_completed := 1\<rparr>, tr_next := 1, tr_file := ''hello'', tr_shared := demo_end_shared,
       tr_workers := [W_loop]\<rparr>"
  "transfer_step demo_platform [0] (demo_start\<lparr>tr_download := demo_open\<lparr>dl_completed := 1\<rparr>, tr_next := 1, tr_file := ''hello'',
       tr_shared := demo_end_shared, tr_workers := [W_loop]\<rparr>) demo_step =
     demo_start\<lparr>tr_download := demo_open\<lparr>dl_completed := 1\<rparr>, tr_next := 1, tr_file := ''hello'', tr_shared := demo_end_shared,
       tr_workers := [W_next]\<rparr>"
  "transfer_step demo_platform [0] (demo_start\<lparr>tr_download := demo_open\<lparr>dl_completed := 1\<rparr>, tr_next := 1, tr_file := ''hello'',
       tr_shared := demo_end_shared, tr_workers := [W_next]\<rparr>) demo_step = demo_finish"
  by (simp_all add: transfer_step_def demo_step_def worker_step_def markVerified_def demo_end_shared_def demo_finish_def Let_def
      del: replicate.simps)

lemma demo_joined: "transfer_run demo_platform [0] (replicate 9 demo_step) demo_start = demo_finish"
proof -
  have "replicate 9 demo_step = [demo_step, demo_step, demo_step, demo_step, demo_step, demo_step, demo_step, demo_step, demo_step]"
    by (simp add: eval_nat_numeral)
  then show ?thesis
    by (simp only: transfer_run_def foldl_Cons foldl_Nil demo_steps demo_last_steps)
qed

end
