(* ===== verification/Download_Properties.thy ===== *)
theory Download_Properties
  imports Download_Demo
begin

text \<open>
  Properties of a download, whatever the interleaving of its workers: what it publishes while it runs,
  what it leaves when it is complete, that it comes to an end, and that it never indexes out of range.
\<close>

section \<open>While it runs\<close>

text \<open>At any moment of any schedule, a piece that the download has published for other peers to read is
  on disk and matches its hash, whatever peers sent, however writes were cut short and whatever else the
  client did meanwhile.  (It is needed that the listed hashes are hashes of data of the pieces' lengths:
  the code does not check the length of what it writes; and that no second download of the same file runs
  in the same client, \<open>apart\<close>: they would share one entry of the table.)\<close>

theorem published_pieces_match:
  assumes "Download_begin P env tc fs files dl = Inr (fs1, order, t0)" "dl_resumed dl = 0"
    and "sized (dl_metadata dl)" "hash_lengths P (dl_metadata dl)"
    and "list_all (apart (dl_group dl) (dl_name dl) (Some (partPath dl))) evs"
    and "SharedFiles_find (dl_group dl) (dl_name dl) (tr_shared (transfer_run P order evs t0)) = Some f"
      "lf_path f = partPath dl" "q < length (lf_available f)" "lf_available f ! q"
  shows "q < pieceCount (dl_metadata dl) \<and>
    sha1Hex P (take (unat (pieceLength (dl_metadata dl) (of_nat q))) (drop (q * 524288) (tr_file (transfer_run P order evs t0)))) =
      fm_pieceHashes (dl_metadata dl) ! q"
proof -
  have "pieces_ok P (dl_metadata dl) (dl_group dl) (dl_name dl) (Some (partPath dl)) order (transfer_run P order evs t0)"
    by (rule pieces_run) (fact begun [OF assms(1,3,4)] assms(5))+
  moreover have "published (dl_group dl) (dl_name dl) (Some (partPath dl)) (tr_shared (transfer_run P order evs t0)) q"
    using assms(6-9) by (auto simp: published_def)
  ultimately show ?thesis
    by (auto simp: pieces_ok_def settled_def good_def piece_bytes_def)
qed

lemma demo_metadata_ok: "sized (dl_metadata demo_download)" "hash_lengths demo_platform (dl_metadata demo_download)"
proof -
  show "sized (dl_metadata demo_download)"
    by (simp add: sized_def valid_def demo_metadata_def demo_hash_def unat_pieceCountForSize)
  have "toHex (replicate 20 CHR ''a'') \<noteq> toHex (replicate 20 CHR ''b'')"
    by code_simp
  then show "hash_lengths demo_platform (dl_metadata demo_download)"
    by (auto simp: hash_lengths_def demo_metadata_def pieceCount_def demo_hash_def sha1Hex_def sha1_update_def sha1_init_def
        sha1_hexDigest_def demo_platform_def pieceLength_def PIECE_SIZE_def split: if_splits)
qed

theorem published_pieces_match_witness:
  "sha1Hex demo_platform (take (unat (pieceLength (dl_metadata demo_download) (of_nat 0)))
     (drop (0 * 524288) (tr_file (transfer_run demo_platform [0] (replicate 9 demo_step) demo_start)))) =
   fm_pieceHashes (dl_metadata demo_download) ! 0"
proof -
  have "SharedFiles_find (dl_group demo_download) (dl_name demo_download)
      (tr_shared (transfer_run demo_platform [0] (replicate 9 demo_step) demo_start)) = Some (demo_part\<lparr>lf_available := [True]\<rparr>)"
    by (simp add: demo_joined demo_finish_def demo_end_shared_def find_markAvailable shared.lookup_add demo_part_def)
  from published_pieces_match [OF demo_begins _ demo_metadata_ok _ this, of 0] show ?thesis
    by (simp add: demo_part_def demo_step_def list_all_iff)
qed

section \<open>When it is complete\<close>

lemma end_keeps_job:
  assumes "Download_begin P env tc fs files dl = Inr (fs1, order, t0)"
  shows "job_of (tr_download (transfer_run P order evs t0)) = job_of dl"
proof -
  obtain dl1 where prep: "Download_prepare P (rn_prepare env) fs dl = (True, fs1, dl1)"
    using assms by (auto simp: Download_begin_def Let_def split: prod.splits bool.splits)
  obtain tc2 dl2 where bitmaps: "Download_fetchBitmaps P (rn_bitmaps env) tc dl1 = (tc2, dl2)"
    by fastforce
  have "job_of dl1 = job_of dl"
    using prepare_True [OF prep] by (auto simp: job_of_def)
  moreover have "job_of dl2 = job_of dl1"
    using fetchBitmaps_ok [OF bitmaps] same_job_fields by (auto simp: job_of_def)
  moreover have "tr_download t0 = dl2"
    using assms prep bitmaps by (auto simp: Download_begin_def Let_def fetch_start_def split: prod.splits)
  ultimately show ?thesis
    by (simp add: transfer_run_job)
qed

lemma run_C:
  assumes "Download_run P env tc fs files dl = Some (tc', fs', files', dl')" "Download_state dl' = CHR ''C''"
  shows "\<exists>content. of_nat (length content) = fm_size (dl_metadata dl) \<and> sha1Hex P content = fm_fullHash (dl_metadata dl) \<and>
    fs_files fs' (dl_destination dl) = Some content \<and> fs_files fs' (partPath dl) = None \<and>
    SharedFiles_find (dl_group dl) (dl_name dl) files' =
      Some \<lparr>lf_path = dl_destination dl, lf_metadata = dl_metadata dl, lf_available = replicate (pieceCount (dl_metadata dl)) True\<rparr>"
proof (cases "Download_begin P env tc fs files dl")
  case (Inl a)
  then have "dl_failed (snd a) \<and> dl_finished (snd a)"
    by (auto simp: Download_begin_def Download_prepare_def Download_finish_def Let_def split: prod.splits bool.splits option.splits)
  with assms(1,2) Inl show ?thesis
    by (auto simp: Download_run_def Download_state_def split: prod.splits)
next
  case (Inr b)
  obtain fs1 order t0 where b: "Download_begin P env tc fs files dl = Inr (fs1, order, t0)"
    using Inr by (cases b) auto
  define t where "t = transfer_run P order (rn_schedule env) t0"
  have job: "job_of (tr_download t) = job_of dl"
    unfolding t_def by (rule end_keeps_job [OF b])
  have e: "Download_end P (rn_complete env) fs1 t = (tc', fs', files', dl')"
    using assms(1) b by (simp add: Download_run_def t_def Let_def split: if_splits)
  then have c: "Download_complete P (rn_complete env) (tr_tracker t) (write_file (partPath (tr_download t)) (tr_file t) fs1)
      (tr_shared t) (tr_download t) = (tc', fs', files', dl')"
    using assms(2) by (auto simp: Download_end_def Download_finish_def Download_state_def Let_def split: if_splits)
  have "partPath (tr_download t) = partPath dl" "dl_destination dl \<noteq> partPath dl"
    using job by (simp_all add: job_of_def partPath_def)
  then show ?thesis
    using complete_C [OF c assms(2)] job by (auto simp: job_of_def)
qed

text \<open>C26: A download that reports completion has put the very file that was shared at its destination: if
  the metadata came from hashing a file and nothing else has that SHA-1, the destination holds that
  file, the partial file is gone, and the peer server offers every piece of it from there.\<close>

theorem complete_download_is_the_file:
  assumes "Download_run P env tc fs files dl = Some (tc', fs', files', dl')" "Download_state dl' = CHR ''C''"
    and "PieceFile_hash P (Some original) False = Some (dl_metadata dl)" "\<And>x. sha1Hex P x = sha1Hex P original \<Longrightarrow> x = original"
  shows "fs_files fs' (dl_destination dl) = Some original \<and> fs_files fs' (partPath dl) = None \<and>
    SharedFiles_find (dl_group dl) (dl_name dl) files' =
      Some \<lparr>lf_path = dl_destination dl, lf_metadata = dl_metadata dl, lf_available = replicate (pieceCount (dl_metadata dl)) True\<rparr>"
proof -
  have "fm_fullHash (dl_metadata dl) = sha1Hex P original"
    using assms(3) unfolding PieceFile_hash_eq by (metis FileMetadata.select_convs(2) option.inject)
  then show ?thesis
    using run_C [OF assms(1,2)] assms(4) by metis
qed

lemma demo_hashed: "PieceFile_hash demo_platform (Some ''hello'') False = Some (dl_metadata demo_download)"
proof -
  have "piece_chunks ''hello'' = [''hello'']"
    by (subst piece_chunks.simps, simp, subst piece_chunks.simps, simp)
  then show ?thesis
    by (simp add: PieceFile_hash_eq demo_metadata_def demo_hash_def)
qed

lemma demo_one_preimage: "sha1Hex demo_platform x = sha1Hex demo_platform ''hello'' \<Longrightarrow> x = ''hello''"
proof -
  have "toHex (replicate 20 CHR ''a'') \<noteq> toHex (replicate 20 CHR ''b'')"
    by code_simp
  then show "sha1Hex demo_platform x = sha1Hex demo_platform ''hello'' \<Longrightarrow> x = ''hello''"
    by (auto simp: sha1Hex_def sha1_update_def sha1_init_def sha1_hexDigest_def demo_platform_def split: if_splits)
qed

definition demo_result :: "TrackerClient \<times> file_system \<times> shared_files \<times> Download" where
  "demo_result = Download_end demo_platform (rn_complete demo_run) demo_opened demo_finish"

lemma demo_runs: "Download_run demo_platform demo_run demo_tracker demo_disk [] demo_download = Some demo_result"
proof -
  have "rn_schedule demo_run = replicate 9 demo_step" "joined_all demo_finish"
    by (simp_all add: demo_run_def demo_finish_def joined_all_def)
  then show ?thesis
    unfolding Download_run_def demo_begins demo_result_def by (simp add: demo_joined Let_def del: replicate.simps)
qed

lemma demo_completes: "Download_state (snd (snd (snd demo_result))) = CHR ''C''"
proof -
  have "Download_state (snd (snd (snd (Download_complete demo_platform (rn_complete demo_run) demo_tracker
      (write_file ''d.part'' ''hello'' demo_opened) demo_end_shared (demo_open\<lparr>dl_completed := 1\<rparr>))))) = CHR ''C''"
    by (rule complete_succeeds [of _ _ "''hello''"])
      (use demo_hashed in \<open>simp_all add: PieceFile_hash_eq demo_run_def partPath_def demo_open_def demo_download_def Download_init_def
        demo_metadata_def demo_hash_def\<close>)
  moreover have "partPath (demo_open\<lparr>dl_completed := 1\<rparr>) = ''d.part''"
    by (simp add: partPath_def demo_open_def demo_download_def Download_init_def)
  ultimately show ?thesis
    by (simp add: demo_result_def Download_end_def demo_finish_def Let_def)
qed

theorem complete_download_is_the_file_witness:
  "fs_files (fst (snd demo_result)) (dl_destination demo_download) = Some ''hello'' \<and>
    fs_files (fst (snd demo_result)) (partPath demo_download) = None \<and>
    SharedFiles_find (dl_group demo_download) (dl_name demo_download) (fst (snd (snd demo_result))) =
      Some \<lparr>lf_path = dl_destination demo_download, lf_metadata = dl_metadata demo_download,
        lf_available = replicate (pieceCount (dl_metadata demo_download)) True\<rparr>"
proof -
  have "demo_result = (fst demo_result, fst (snd demo_result), fst (snd (snd demo_result)), snd (snd (snd demo_result)))"
    by simp
  with demo_runs have "Download_run demo_platform demo_run demo_tracker demo_disk [] demo_download =
      Some (fst demo_result, fst (snd demo_result), fst (snd (snd demo_result)), snd (snd (snd demo_result)))"
    by simp
  then show ?thesis
    by (rule complete_download_is_the_file [OF _ demo_completes demo_hashed demo_one_preimage])
qed

text \<open>Unless the user cancels, a piece is lost or the disk fails, a download with at least one seeder of a
  file whose hashes nothing else has completes: the pieces that the workers have when they are all done
  make up the file, so the last check passes.\<close>

theorem undisturbed_download_completes:
  assumes "Download_begin P env tc fs files dl = Inr (fs1, order, t0)" "dl_resumed dl = 0" "dl_seeders dl \<noteq> []"
    and "PieceFile_hash P (Some original) False = Some (dl_metadata dl)" "length original < 2 ^ 63"
    and "\<And>q x. q < pieceCount (dl_metadata dl) \<Longrightarrow> sha1Hex P x = fm_pieceHashes (dl_metadata dl) ! q \<Longrightarrow>
      x = piece_bytes (dl_metadata dl) original q"
    and "t = transfer_run P order (rn_schedule env) t0" "joined_all t" "\<not> tr_failed t" "\<not> dl_cancelled (tr_download t)"
    and "\<not> co_bad (rn_complete env)" "co_renames (rn_complete env)"
  shows "\<exists>r. Download_run P env tc fs files dl = Some r \<and> Download_state (snd (snd (snd r))) = CHR ''C'' \<and> tr_file t = original"
proof -
  let ?m = "dl_metadata dl"
  note m = hashed_metadata [OF assms(4,5)]
  have lens: "hash_lengths P ?m"
    by (rule unique_hash_lengths [OF m(1,2) assms(6)])
  note b = begun [OF assms(1) m(1) lens] and shape = begun_shape [OF assms(1)]
  have pieces: "pieces_ok P ?m (dl_group dl) (dl_name dl) None order t"
    unfolding assms(7) by (rule file_run) (fact b)+
  have acc: "accounted P ?m order t"
    unfolding assms(7) by (rule accounted_run) (fact b)+
  have "length (tr_workers t) = length (tr_workers t0)"
    unfolding assms(7) using fetching.inv_run [OF shape(11)] by (simp add: transfer_run_def tries_ok_def)
  then have workers: "tr_workers t \<noteq> [] \<or> order = []"
    using shape(8) assms(3) by (auto simp: MAX_THREADS_def min_def split: if_splits)
  have "piece_bytes ?m (tr_file t) q = piece_bytes ?m original q" if "q < pieceCount ?m" for q
    using all_good [OF acc assms(8) workers assms(9,10) that] assms(6) [OF that] by (simp add: good_def)
  then have file_is: "tr_file t = original"
    using content_from_pieces [OF m(1)] pieces m(2) by (simp add: pieces_ok_def)
  have "job_of (tr_download t) = job_of dl"
    unfolding assms(7) by (rule end_keeps_job [OF assms(1)])
  then have "dl_metadata (tr_download t) = ?m"
    by (simp add: job_of_def)
  moreover have "of_nat (length original) = fm_size ?m"
    by (simp flip: m(2))
  ultimately have "Download_state (snd (snd (snd (Download_complete P (rn_complete env) (tr_tracker t)
      (write_file (partPath (tr_download t)) (tr_file t) fs1) (tr_shared t) (tr_download t))))) = CHR ''C''"
    using assms(11,12) m(3) by (intro complete_succeeds [of _ _ original]) (simp_all add: file_is)
  then show ?thesis
    using assms(1,7-10) file_is by (simp add: Download_run_def Download_end_def Let_def)
qed

theorem undisturbed_download_completes_witness:
  "\<exists>r. Download_run demo_platform demo_run demo_tracker demo_disk [] demo_download = Some r \<and>
    Download_state (snd (snd (snd r))) = CHR ''C'' \<and> tr_file demo_finish = ''hello''"
proof (rule undisturbed_download_completes [OF demo_begins _ _ demo_hashed])
  fix q x
  assume "q < pieceCount (dl_metadata demo_download)" "sha1Hex demo_platform x = fm_pieceHashes (dl_metadata demo_download) ! q"
  then show "x = piece_bytes (dl_metadata demo_download) ''hello'' q"
    using demo_one_preimage [of x] by (simp add: demo_hash_def piece_bytes_def demo_metadata_def pieceLength_def PIECE_SIZE_def pieceCount_def)
qed (simp_all add: demo_joined [symmetric] demo_run_def, simp_all add: demo_joined demo_finish_def joined_all_def)

section \<open>Coming to an end\<close>

text \<open>C28: Under any scheduler that gives every worker thread its turn again and again, and whatever the user,
  the peers and the tracker do meanwhile, all workers are done after finitely many steps, so
  \<open>fetchPieces\<close> returns.\<close>

theorem workers_finish:
  assumes "Download_begin P env tc fs files dl = Inr (fs1, order, t0)"
    and "\<And>i n. i < length (tr_workers t0) \<Longrightarrow> \<exists>k\<ge>n. event_thread (sched k) = Some i"
  shows "\<exists>n. joined_all (transfer_run P order (map sched [0..<n]) t0)"
proof -
  obtain tc3 content files2 dl2 where "t0 = fetch_start order tc3 content files2 dl2"
    using assms(1) by (rule begin_start)
  then have "tries_ok (PASSES_PER_PIECE * length (dl_seeders dl2)) (length (tr_workers t0)) t0"
    using tries_start [of dl2 order tc3 content files2] by (simp add: fetch_start_def)
  from fetching.fair_finishes [OF this, of sched P order] assms(2) show ?thesis
    by (simp add: transfer_run_def)
qed

theorem workers_finish_witness:
  "\<exists>n. joined_all (transfer_run demo_platform [0] (map (\<lambda>_. demo_step) [0..<n]) demo_start)"
proof (rule workers_finish [OF demo_begins])
  fix i n :: nat
  assume "i < length (tr_workers demo_start)"
  then show "\<exists>k\<ge>n. event_thread demo_step = Some i"
    by (intro exI [of _ n]) (simp add: demo_step_def)
qed

text \<open>C29: The workers' work is bounded in advance: in any schedule, however long, the steps that find their
  worker still running are at most \<open>6 + 9 n\<close> for each missing piece (\<open>n\<close> seeders, three passes over
  them, three steps per attempt, six steps around the attempts) and two per thread.\<close>

theorem work_is_bounded:
  assumes "Download_begin P env tc fs files dl = Inr (fs1, order, t0)"
  shows "worked (transfer_step P order) moves t0 evs \<le>
    (6 + 9 * length (dl_seeders (tr_download t0))) * length order + 2 * length (tr_workers t0)"
proof -
  obtain tc3 content files2 dl2 where t0: "t0 = fetch_start order tc3 content files2 dl2"
    using assms(1) by (rule begin_start)
  let ?a = "PASSES_PER_PIECE * length (dl_seeders dl2)"
  have "tries_ok ?a (length (tr_workers t0)) t0"
    using tries_start [of dl2 order tc3 content files2] by (simp add: t0 fetch_start_def)
  from fetching.worked_bound [OF this, of P order evs]
  have "worked (transfer_step P order) moves t0 evs \<le> transfer_weight ?a order t0"
    by simp
  then show ?thesis
    by (simp add: t0 weight_start) (simp add: fetch_start_def PASSES_PER_PIECE_def)
qed

theorem work_is_bounded_witness:
  "worked (transfer_step demo_platform [0]) moves demo_start (replicate 9 demo_step) \<le>
    (6 + 9 * length (dl_seeders (tr_download demo_start))) * length [0 :: nat] + 2 * length (tr_workers demo_start)"
  by (rule work_is_bounded [OF demo_begins])

section \<open>Bounds\<close>

text \<open>C30: The progress that \<open>show_downloads\<close> prints never runs past the number of pieces, whatever the metadata say: no
  piece is counted twice, by two workers or by the resume check and a worker.\<close>

theorem progress_is_bounded:
  assumes "Download_begin P env tc fs files dl = Inr (fs1, order, t0)" "dl_resumed dl = 0"
  shows "dl_completed (tr_download (transfer_run P order evs t0)) \<le> pieceCount (dl_metadata dl)"
proof -
  have "counted_ok (pieceCount (dl_metadata dl) - length order) order (transfer_run P order evs t0)"
    by (rule counted_run) (rule begun_shape(12) [OF assms])
  then show ?thesis
    using begun_shape(4) [OF assms(1)] by (simp add: counted_ok_def)
qed

theorem progress_is_bounded_witness:
  "dl_completed (tr_download (transfer_run demo_platform [0] (replicate 9 demo_step) demo_start)) \<le> pieceCount (dl_metadata demo_download)"
  by (rule progress_is_bounded [OF demo_begins]) simp

text \<open>Which seeders have a piece does not change while the workers run.\<close>

definition tries_in_range :: "nat list \<Rightarrow> transfer \<Rightarrow> bool" where
  "tries_in_range order t \<longleftrightarrow> (\<forall>i<length (tr_workers t). \<forall>p k. tr_workers t ! i = W_seeder p k \<longrightarrow>
     k < attempts (tr_download t) (order ! p))"

definition map_of_holders :: "Download \<Rightarrow> bool list list \<times> nat" where
  "map_of_holders dl = (dl_bitmaps dl, length (dl_seeders dl))"

lemma holders_cong: "map_of_holders dl' = map_of_holders dl \<Longrightarrow> holders dl' q = holders dl q"
  by (simp add: map_of_holders_def holders_def)

lemma seederAt_map: "seederAt P now env tc i dl = (a, tc', dl') \<Longrightarrow> map_of_holders dl' = map_of_holders dl"
  by (auto simp: seederAt_def map_of_holders_def Let_def split: if_splits prod.splits sum.splits)

lemma worker_step_map: "worker_step P order env w t = (w', t') \<Longrightarrow> map_of_holders (tr_download t') = map_of_holders (tr_download t)"
  by (cases w) (auto simp: worker_step_def Let_def markVerified_def map_of_holders_def [of "_\<lparr>dl_completed := _\<rparr>"]
      map_of_holders_def [of "_\<lparr>dl_integrity := _\<rparr>"] map_of_holders_def [of "tr_download t"]
      dest: seederAt_map fetch_step_held split: prod.splits if_splits)

lemma worker_step_tries:
  "worker_step P order env w t = (W_seeder p k, t') \<Longrightarrow> k < attempts (tr_download t) (order ! p)"
  by (cases w) (auto simp: worker_step_def Let_def dest: fetch_step_held split: prod.splits if_splits)

lemma transfer_step_map:
  "map_of_holders (tr_download (transfer_step P order t ev)) = map_of_holders (tr_download t)"
  by (cases ev) (auto simp: transfer_step_def Download_cancel_def map_of_holders_def [of "_\<lparr>dl_cancelled := _\<rparr>"]
      map_of_holders_def [of "tr_download t"] dest: worker_step_map split: prod.splits)

lemma tries_in_range_step:
  assumes "tries_in_range order t"
  shows "tries_in_range order (transfer_step P order t ev)"
proof (cases ev)
  case (Ev_step i env)
  show ?thesis
  proof (cases "i < length (tr_workers t)")
    case True
    obtain w' t' where w: "worker_step P order env (tr_workers t ! i) t = (w', t')"
      by fastforce
    have "attempts (tr_download t') q = attempts (tr_download t) q" for q
      using holders_cong [OF worker_step_map [OF w]] by (simp add: attempts_def)
    with assms True w worker_step_tries [of P order env "tr_workers t ! i" t] show ?thesis
      by (auto simp: Ev_step transfer_step_def tries_in_range_def nth_list_update)
  qed (simp add: Ev_step transfer_step_def assms)
qed (use assms in \<open>auto simp: transfer_step_def tries_in_range_def attempts_def holders_def Download_cancel_def\<close>)

text \<open>C31: No index of \<open>fetchPiece\<close> is out of range, in any state of any schedule, whatever the metadata say: a worker about to ask for a
  seeder has a piece number below the number of pieces, the modulus is not zero, the seeder it picked
  is one of \<open>seeders_\<close> and has a bitmap that contains the piece.\<close>

theorem indices_in_range:
  assumes "Download_begin P env tc fs files dl = Inr (fs1, order, t0)"
    and "t = transfer_run P order evs t0" "W_seeder p k \<in> set (tr_workers t)"
  shows "p < length order \<and> order ! p < length (fm_pieceHashes (dl_metadata (tr_download t))) \<and>
    holders (tr_download t) (order ! p) \<noteq> [] \<and>
    attempt_seeder (tr_download t) (order ! p) k < length (dl_seeders (tr_download t)) \<and>
    length (dl_bitmaps (tr_download t)) = length (dl_seeders (tr_download t)) \<and>
    order ! p < length (dl_bitmaps (tr_download t) ! attempt_seeder (tr_download t) (order ! p) k)"
proof -
  note b = begun_shape [OF assms(1)]
  obtain i where i: "i < length (tr_workers t)" "tr_workers t ! i = W_seeder p k"
    using assms(3) by (auto simp: in_set_conv_nth)
  have "claims_ok order t"
    unfolding assms(2) by (rule claims_run) (rule b)
  with i have p: "p < length order"
    by (auto simp: claims_ok_def)
  have "job_of (tr_download t) = job_of dl"
    unfolding assms(2) by (rule end_keeps_job [OF assms(1)])
  then have piece: "order ! p < length (fm_pieceHashes (dl_metadata (tr_download t)))"
    using p b(3) by (simp add: job_of_def pieceCount_def)
  have "tries_in_range order t0"
    unfolding tries_in_range_def b(8) by simp
  then have "tries_in_range order t"
    unfolding assms(2) by (rule run_keeps [rotated]) (rule tries_in_range_step)
  with i have "k < attempts (tr_download t) (order ! p)"
    by (auto simp: tries_in_range_def)
  then have some: "holders (tr_download t) (order ! p) \<noteq> []"
    by (auto simp: attempts_def)
  then have "attempt_seeder (tr_download t) (order ! p) k \<in> set (holders (tr_download t) (order ! p))"
    unfolding attempt_seeder_def by (intro nth_mem) (simp add: mod_less_divisor)
  then have "attempt_seeder (tr_download t) (order ! p) k < length (dl_seeders (tr_download t))"
    "order ! p < length (dl_bitmaps (tr_download t) ! attempt_seeder (tr_download t) (order ! p) k)"
    by (auto simp: holders_def)
  moreover have "map_of_holders (tr_download t) = map_of_holders (tr_download t0)"
    unfolding assms(2)
    by (rule run_keeps [of "\<lambda>t'. map_of_holders (tr_download t') = map_of_holders (tr_download t0)"]) (simp_all add: transfer_step_map)
  ultimately show ?thesis
    using p piece some b(7,9) by (simp add: map_of_holders_def bitmaps_ok_def)
qed

lemma demo_asks: "W_seeder 0 0 \<in> set (tr_workers (transfer_run demo_platform [0] (replicate 3 demo_step) demo_start))"
proof -
  have "replicate 3 demo_step = [demo_step, demo_step, demo_step]"
    by (simp add: eval_nat_numeral)
  then have "transfer_run demo_platform [0] (replicate 3 demo_step) demo_start = demo_start\<lparr>tr_next := 1, tr_workers := [W_seeder 0 0]\<rparr>"
    by (simp only: transfer_run_def foldl_Cons foldl_Nil demo_steps)
  then show ?thesis by simp
qed

theorem indices_in_range_witness:
  "holders (tr_download (transfer_run demo_platform [0] (replicate 3 demo_step) demo_start)) ([0] ! 0) \<noteq> []"
  using indices_in_range [OF demo_begins refl demo_asks] by simp

section \<open>The order of the pieces\<close>

text \<open>\<open>rarestFirst\<close> lists every missing piece exactly once, one with fewer holders before one with more,
  pieces with equally many in the order of the file; this determines the list.\<close>

theorem rarest_first:
  "distinct (rarestFirst dl) \<and> set (rarestFirst dl) = {q. q < length (dl_verified dl) \<and> \<not> dl_verified dl ! q} \<and>
    sorted_wrt (\<lambda>a b. dl_rarity dl ! a < dl_rarity dl ! b \<or> dl_rarity dl ! a = dl_rarity dl ! b \<and> a < b) (rarestFirst dl)"
  using rarestFirst_distinct rarestFirst_set rarestFirst_sorted [of dl] by (simp add: rarer_def [abs_def])

text \<open>After \<open>fetchBitmaps\<close> the rarity of each piece is the number of seeders that \<open>fetchPiece\<close> will try for
  it, and each seeder's bitmap is as long as the file has pieces, or empty if it did not answer well.\<close>

theorem rarity_counts_holders:
  assumes "Download_fetchBitmaps P env tc dl = (tc', dl')" "q < pieceCount (dl_metadata dl)"
  shows "dl_rarity dl' ! q = length (holders dl' q) \<and> length (dl_bitmaps dl') = length (dl_seeders dl) \<and>
    (s < length (dl_seeders dl) \<longrightarrow> length (dl_bitmaps dl' ! s) = pieceCount (dl_metadata dl) \<or> dl_bitmaps dl' ! s = [])"
  using fetchBitmaps_ok [OF assms(1)] same_job_fields [of dl dl'] assms(2) by (simp add: bitmaps_ok_def)

theorem rarity_counts_holders_witness: "dl_rarity demo_open ! 0 = length (holders demo_open 0)"
  using rarity_counts_holders [OF demo_maps, of 0] by simp

text \<open>Resuming keeps exactly the pieces of the partial file that can be read and match their hashes, at
  every piece number, and the file has the full size from then on.\<close>

theorem resume_keeps_matching:
  assumes "Download_prepare P env fs dl = (True, fs', dl')" "sized (dl_metadata dl)"
    and "fs_files fs (partPath dl) = Some old" "q < pieceCount (dl_metadata dl)"
  shows "\<exists>content. fs_files fs' (partPath dl) = Some content \<and> length content = unat (fm_size (dl_metadata dl)) \<and>
    dl_verified dl' ! q = (case PieceFile_read (pp_reads env q) content (of_nat q) (unat (pieceLength (dl_metadata dl) (of_nat q))) of
       None \<Rightarrow> False | Some data \<Rightarrow> data = piece_bytes (dl_metadata dl) content q \<and> good P (dl_metadata dl) content q)"
proof -
  let ?m = "dl_metadata dl"
  obtain content where c: "fs_files fs' (partPath dl) = Some content" "length content = unat (fm_size ?m)"
      "dl_verified dl' ! q = piece_checks P (pp_reads env q) content ?m q"
    using prepare_True [OF assms(1)] assms(3,4) by auto
  have "data = piece_bytes ?m content q"
    if "PieceFile_read (pp_reads env q) content (of_nat q) (unat (pieceLength ?m (of_nat q))) = Some data" for data
    using read_piece [OF that, of "fm_size ?m"] piece_index(1,2) [OF assms(2,4)] assms(2) by (simp add: piece_bytes_def sized_def)
  with c show ?thesis
    by (auto simp: piece_checks_def good_def split: option.splits)
qed

definition resume_disk :: file_system where
  "resume_disk = \<lparr>fs_files = (\<lambda>path. if path = ''d.part'' then Some ''hello'' else None), fs_modes = (\<lambda>_. None)\<rparr>"

definition resume_env :: prepare_env where
  "resume_env = \<lparr>pp_opens = True, pp_truncates = True, pp_reads = (\<lambda>_. [Io_eintr, Io_count 5])\<rparr>"

theorem resume_keeps_matching_witness:
  "\<exists>content. fs_files (fst (snd (Download_prepare demo_platform resume_env resume_disk demo_download))) (partPath demo_download) = Some content \<and>
    length content = 5"
proof -
  obtain fs' dl' where run: "Download_prepare demo_platform resume_env resume_disk demo_download = (True, fs', dl')"
    by (simp add: Download_prepare_def resume_env_def resume_disk_def PieceFile_openForWriting_def resized_def Let_def)
  have "fs_files resume_disk (partPath demo_download) = Some ''hello''" "0 < pieceCount (dl_metadata demo_download)"
    by (simp_all add: resume_disk_def)
  from resume_keeps_matching [OF run demo_metadata_ok(1) this] show ?thesis
    by (auto simp: run)
qed

end
