(* ===== verification/Honest_Download.thy ===== *)
theory Honest_Download
  imports Download_Properties Peer_Exchange
begin

text \<open>
  A download that has one honest seeder among its seeders: whatever the others send, every piece comes
  to be fetched from that one before the attempts run out, so no piece is lost and the download
  completes in every fair schedule.
\<close>

section \<open>The bitmap of an honest seeder\<close>

text \<open>\<open>fetchBitmaps\<close> as far as the first \<open>n\<close> seeders, and the access with which it then asks the next one.\<close>

definition bitmaps_before :: "platform \<Rightarrow> (nat \<Rightarrow> bitmap_env) \<Rightarrow> TrackerClient \<Rightarrow> Download \<Rightarrow> nat \<Rightarrow> TrackerClient \<times> Download" where
  "bitmaps_before P env tc dl n =
     foldl (fetch_bitmap P env)
       (tc, dl\<lparr>dl_bitmaps := replicate (length (dl_seeders dl)) [], dl_rarity := replicate (pieceCount (dl_metadata dl)) 0\<rparr>) [0..<n]"

definition bitmap_access :: "platform \<Rightarrow> (nat \<Rightarrow> bitmap_env) \<Rightarrow> TrackerClient \<Rightarrow> Download \<Rightarrow> nat \<Rightarrow> SeederAccess" where
  "bitmap_access P env tc dl s =
     (case bitmaps_before P env tc dl s of (tc', dl') \<Rightarrow> fst (seederAt P (be_now (env s)) (be_locate (env s)) tc' s dl'))"

lemma bitmaps_before_ok:
  assumes "n \<le> length (dl_seeders dl)" "bitmaps_before P env tc dl n = (tc', dl')"
  shows "bitmaps_ok n dl'" "dl_metadata dl' = dl_metadata dl" "length (dl_seeders dl') = length (dl_seeders dl)"
proof -
  let ?dl0 = "dl\<lparr>dl_bitmaps := replicate (length (dl_seeders dl)) [], dl_rarity := replicate (pieceCount (dl_metadata dl)) 0\<rparr>"
  have "bitmaps_ok 0 ?dl0"
    by (simp add: bitmaps_ok_def holders_def)
  from bitmaps_prefix [OF this, of n P env tc] assms have ok: "bitmaps_ok n dl'" "same_job ?dl0 dl'"
    by (simp_all add: bitmaps_before_def)
  from ok(1) show "bitmaps_ok n dl'" .
  from same_job_fields [OF ok(2)] show "dl_metadata dl' = dl_metadata dl" "length (dl_seeders dl') = length (dl_seeders dl)"
    by simp_all
qed

lemma fetch_bitmap_others:
  assumes "fetch_bitmap P env (tc, dl) n = (tc', dl')" "s \<noteq> n"
  shows "dl_bitmaps dl' ! s = dl_bitmaps dl ! s"
  using assms by (auto simp: fetch_bitmap_def dest: seederAt_job split: prod.splits if_splits)

lemma bitmap_stays:
  "s < n \<Longrightarrow> dl_bitmaps (snd (bitmaps_before P env tc dl (n + k))) ! s = dl_bitmaps (snd (bitmaps_before P env tc dl n)) ! s"
proof (induction k)
  case (Suc k)
  obtain tc1 dl1 where before: "bitmaps_before P env tc dl (n + k) = (tc1, dl1)"
    by fastforce
  obtain tc2 dl2 where step: "fetch_bitmap P env (tc1, dl1) (n + k) = (tc2, dl2)"
    by fastforce
  have "bitmaps_before P env tc dl (n + Suc k) = (tc2, dl2)"
    using before step by (simp add: bitmaps_before_def)
  with fetch_bitmap_others [OF step, of s] Suc before show ?case
    by simp
qed simp

lemma fetched_bitmap:
  assumes "Download_fetchBitmaps P env tc dl = (tc', dl')" "s < length (dl_seeders dl)"
    and "PeerClient_fetchBitmap P (be_peer (env s)) (bitmap_access P env tc dl s) (pieceCount (dl_metadata dl)) = (Success, bits)"
  shows "dl_bitmaps dl' ! s = bits"
proof -
  obtain tc1 dl1 where before: "bitmaps_before P env tc dl s = (tc1, dl1)"
    by fastforce
  note ok = bitmaps_before_ok [OF less_imp_le [OF assms(2)] before]
  obtain a tc2 dl2 where turn: "seederAt P (be_now (env s)) (be_locate (env s)) tc1 s dl1 = (a, tc2, dl2)"
    by (metis prod_cases3)
  have "length (dl_bitmaps dl2) = length (dl_seeders dl)"
    using seederAt_job [OF turn] ok by (simp add: bitmaps_ok_def)
  moreover have "fetch_bitmap P env (tc1, dl1) s = (tc2, dl2\<lparr>dl_bitmaps := (dl_bitmaps dl2)[s := bits], dl_rarity := add_bitmap (dl_rarity dl2) bits\<rparr>)"
    using assms(3) turn ok(2) by (simp add: fetch_bitmap_def bitmap_access_def before)
  ultimately have "dl_bitmaps (snd (bitmaps_before P env tc dl (Suc s))) ! s = bits"
    using before assms(2) by (simp add: bitmaps_before_def)
  moreover have all: "Suc s + (length (dl_seeders dl) - Suc s) = length (dl_seeders dl)"
    using assms(2) by simp
  have "dl' = snd (bitmaps_before P env tc dl (Suc s + (length (dl_seeders dl) - Suc s)))"
    unfolding all using assms(1) by (simp add: bitmaps_before_def Download_fetchBitmaps_def)
  ultimately show ?thesis
    using bitmap_stays [of s "Suc s" P env tc dl] by simp
qed

text \<open>Whoever has the whole file says so.\<close>

lemma honest_bitmap:
  assumes laws: "gcm_correct P" "gcm_total P" and few: "pieceCount m \<le> 8000000"
    and honest: "honest_answer P m content ce a ''BITMAP'' 0"
  shows "PeerClient_fetchBitmap P ce a (pieceCount m) = (Success, replicate (pieceCount m) True)"
proof -
  obtain peerKey ticket files se ssock f where
    h: "access_for P peerKey ticket a" "length (sa_key a) = 32" "in_time (pe_clock ce) (sv_clock se) ticket"
      "SharedFiles_find (tk_group ticket) (tk_file ticket) files = Some f" "lf_available f = replicate (pieceCount m) True"
      "sv_entropy se \<noteq> None" "linked P peerKey se files ssock ce a ''BITMAP'' 0"
    using honest unfolding honest_answer_def seeds_def by blast
  have served: "servePiece se f ''BITMAP'' 0 = Some (replicate (pieceCount m) CHR 0x01)"
    by (simp add: servePiece_def h(5))
  then obtain sock' where "PeerClient_request P ce a ''BITMAP'' 0 = (Success, replicate (pieceCount m) CHR 0x01, Some sock')"
    using request_answered [OF laws h(1-3) _ h(4) served _ h(6,7)] few by auto
  then show ?thesis
    by (simp add: PeerClient_fetchBitmap_def)
qed

lemma begun_bitmaps:
  assumes "Download_begin P env tc fs files dl = Inr (fs1, order, t0)"
  shows "\<exists>tc'. Download_fetchBitmaps P (rn_bitmaps env) tc (snd (snd (Download_prepare P (rn_prepare env) fs dl))) = (tc', tr_download t0)"
  using assms by (auto simp: Download_begin_def fetch_start_def Let_def split: prod.splits bool.splits)

lemma honest_first_bitmap:
  assumes laws: "gcm_correct P" "gcm_total P"
    and begins: "Download_begin P env tc fs files dl = Inr (fs1, order, t0)"
    and seeder: "s < length (dl_seeders dl)" "pieceCount (dl_metadata dl) \<le> 8000000"
      "honest_answer P (dl_metadata dl) content (be_peer (rn_bitmaps env s))
        (bitmap_access P (rn_bitmaps env) tc (snd (snd (Download_prepare P (rn_prepare env) fs dl))) s) ''BITMAP'' 0"
  shows "dl_bitmaps (tr_download t0) ! s = replicate (pieceCount (dl_metadata dl)) True"
proof -
  obtain dl1 where prep: "Download_prepare P (rn_prepare env) fs dl = (True, fs1, dl1)"
    using begins by (auto simp: Download_begin_def Let_def split: prod.splits bool.splits)
  have job: "dl_seeders dl1 = dl_seeders dl" "dl_metadata dl1 = dl_metadata dl"
    using prepare_True [OF prep] by auto
  obtain tc' where maps: "Download_fetchBitmaps P (rn_bitmaps env) tc dl1 = (tc', tr_download t0)"
    using begun_bitmaps [OF begins] by (auto simp: prep)
  show ?thesis
    by (rule fetched_bitmap [OF maps]) (use seeder honest_bitmap [OF laws seeder(2)] in \<open>simp_all add: job prep\<close>)
qed

section \<open>The turn of a seeder\<close>

lemma holder_turn:
  assumes "s \<in> set (holders dl q)"
  shows "\<exists>k<length (holders dl q). attempt_seeder dl q k = s"
proof -
  let ?n = "length (holders dl q)"
  obtain j where j: "j < ?n" "holders dl q ! j = s"
    using assms by (auto simp: in_set_conv_nth)
  have n: "0 < ?n"
    using j(1) by linarith
  then have turn: "q mod ?n < ?n"
    by (rule mod_less_divisor)
  let ?k = "(j + (?n - q mod ?n)) mod ?n"
  have "(q + ?k) mod ?n = (q mod ?n + (j + (?n - q mod ?n))) mod ?n"
    by (simp add: mod_add_right_eq mod_add_left_eq)
  also have "q mod ?n + (j + (?n - q mod ?n)) = j + ?n"
    using turn by simp
  finally have "(q + ?k) mod ?n = j"
    using j(1) by simp
  with j(2) n show ?thesis
    by (intro exI [of _ ?k]) (simp add: attempt_seeder_def)
qed

text \<open>The first attempt at piece \<open>q\<close> that goes to seeder \<open>s\<close>.\<close>

definition first_try :: "Download \<Rightarrow> nat \<Rightarrow> nat \<Rightarrow> nat" where
  "first_try dl s q = (LEAST k. attempt_seeder dl q k = s)"

lemma first_try:
  assumes "s \<in> set (holders dl q)"
  shows "attempt_seeder dl q (first_try dl s q) = s" "first_try dl s q < attempts dl q"
proof -
  obtain k where k: "k < length (holders dl q)" "attempt_seeder dl q k = s"
    using holder_turn [OF assms] by blast
  show "attempt_seeder dl q (first_try dl s q) = s"
    unfolding first_try_def using k(2) by (rule LeastI)
  have "first_try dl s q \<le> k"
    unfolding first_try_def using k(2) by (rule Least_le)
  with k(1) show "first_try dl s q < attempts dl q"
    by (simp add: attempts_def PASSES_PER_PIECE_def)
qed

section \<open>No piece is lost\<close>

fun trying :: "worker \<Rightarrow> (nat \<times> nat) option" where
  "trying (W_attempt p k) = Some (p, k)"
| "trying (W_seeder p k) = Some (p, k)"
| "trying (W_fetch p k a) = Some (p, k)"
| "trying _ = None"

definition on_course :: "nat \<Rightarrow> nat list \<Rightarrow> transfer \<Rightarrow> bool" where
  "on_course s order t \<longleftrightarrow> \<not> trouble t \<and>
     (\<forall>i<length (tr_workers t). \<forall>p k. trying (tr_workers t ! i) = Some (p, k) \<longrightarrow> k \<le> first_try (tr_download t) s (order ! p))"

text \<open>Seeder \<open>s\<close> answers honestly whenever a worker fetches from it, and the write of what it sent goes through;
  the user does not cancel.  The other seeders do as they like.\<close>

definition honest_step :: "platform \<Rightarrow> nat \<Rightarrow> nat list \<Rightarrow> FileMetadata \<Rightarrow> string \<Rightarrow> transfer \<Rightarrow> event \<Rightarrow> bool" where
  "honest_step P s order m content t ev \<longleftrightarrow>
     (case ev of
        Ev_step i env \<Rightarrow>
          (\<forall>p k a. i < length (tr_workers t) \<longrightarrow> tr_workers t ! i = W_fetch p k a \<longrightarrow>
             attempt_seeder (tr_download t) (order ! p) k = s \<longrightarrow>
             honest_answer P m content (st_peer env) a ''GET'' (of_nat (order ! p)) \<and>
             serves (st_writes env) [unat (pieceLength m (of_nat (order ! p)))])
      | Ev_cancel \<Rightarrow> False
      | _ \<Rightarrow> True)"

lemma first_try_map:
  assumes "map_of_holders dl' = map_of_holders dl"
  shows "first_try dl' s q = first_try dl s q"
  unfolding first_try_def attempt_seeder_def holders_cong [OF assms] ..

lemma honest_fetch_lands:
  assumes laws: "gcm_correct P" "gcm_total P"
    and whole: "sized m" "q < pieceCount m" "length content = unat (fm_size m)"
      "fm_pieceHashes m ! q = sha1Hex P (piece_bytes m content q)"
    and honest: "honest_answer P m content (st_peer env) a ''GET'' (of_nat q)" "serves (st_writes env) [unat (pieceLength m (of_nat q))]"
    and here: "dl_metadata (tr_download t) = m" "order ! p = q" "fetch_step P order env p k a t = (w', t')"
  shows "w' = W_count p"
proof -
  note got = honest_piece [OF laws whole honest(1)]
  have "length (piece_bytes m content q) = unat (pieceLength m (of_nat q))"
    using piece_index(3,4) [OF whole(1,2)] whole(3) by (simp add: piece_bytes_def)
  then have "serves (st_writes env) [length (piece_bytes m content q)]"
    using honest(2) by simp
  then have "fst (PieceFile_write (st_writes env) (tr_file t) (of_nat q) (piece_bytes m content q))"
    unfolding PieceFile_write_def piece_index(5) [OF whole(1,2)] by (rule pwrite_loop_serves) (rule of_nat_0_le_iff)
  with got here show ?thesis
    by (auto simp: fetch_step_def Let_def split: prod.splits)
qed

lemma on_course_worker:
  assumes laws: "gcm_correct P" "gcm_total P"
    and whole: "sized m" "length content = unat (fm_size m)"
      "\<And>q. q < pieceCount m \<Longrightarrow> fm_pieceHashes m ! q = sha1Hex P (piece_bytes m content q)"
    and plan: "plan_ok P m order" "claims_ok order t" "dl_metadata (tr_download t) = m"
      "\<forall>q\<in>set order. s \<in> set (holders (tr_download t) q)"
    and course: "on_course s order t" and honest: "honest_step P s order m content t (Ev_step i env)"
    and i: "i < length (tr_workers t)" and run: "worker_step P order env (tr_workers t ! i) t = (w', t1)"
  shows "w' \<noteq> W_lost \<and> w' \<noteq> W_fail \<and> \<not> tr_failed t1 \<and> \<not> dl_cancelled (tr_download t1) \<and>
    (\<forall>p k. trying w' = Some (p, k) \<longrightarrow> k \<le> first_try (tr_download t) s (order ! p))"
proof -
  let ?w = "tr_workers t ! i"
  have calm: "\<not> tr_failed t" "\<not> dl_cancelled (tr_download t)" "?w \<noteq> W_lost" "?w \<noteq> W_fail"
    using course i by (auto simp: on_course_def trouble_def)
  have held: "order ! p \<in> set order" "order ! p < pieceCount m" if "trying ?w = Some (p, k)" for p k
  proof -
    have "held ?w = Some p"
      using that by (cases ?w) simp_all
    then show "order ! p \<in> set order"
      using plan(2) i by (auto simp: claims_ok_def)
    with plan(1) show "order ! p < pieceCount m"
      by (simp add: plan_ok_def)
  qed
  have le: "k \<le> first_try (tr_download t) s (order ! p)" if "trying ?w = Some (p, k)" for p k
    using course i that by (simp add: on_course_def)
  have turn: "attempt_seeder (tr_download t) (order ! p) (first_try (tr_download t) s (order ! p)) = s"
    "first_try (tr_download t) s (order ! p) < attempts (tr_download t) (order ! p)" if "trying ?w = Some (p, k)" for p k
    using first_try held(1) [OF that] plan(4) by blast+
  show ?thesis
  proof (cases ?w)
    case (W_attempt p k)
    with run calm turn [of p k] le [of p k] show ?thesis
      by (auto simp: worker_step_def Let_def)
  next
    case (W_seeder p k)
    with run calm le [of p k] show ?thesis
      by (auto simp: worker_step_def Let_def dest: seederAt_cancelled split: prod.splits)
  next
    case (W_fetch p k a)
    then have f: "fetch_step P order env p k a t = (w', t1)"
      using run by (simp add: worker_step_def)
    have "w' = W_count p" if "k = first_try (tr_download t) s (order ! p)"
      using that W_fetch honest i turn [of p k] held(2) [of p k] whole plan(3) laws
      by (intro honest_fetch_lands [OF laws whole(1) _ whole(2) _ _ _ plan(3) refl f]) (auto simp: honest_step_def)
    with fetch_step_held [OF f] le [of p k] W_fetch calm show ?thesis
      by fastforce
  qed (use run calm in \<open>auto simp: worker_step_def Let_def markVerified_def split: if_splits\<close>)
qed

lemma on_course_step:
  assumes laws: "gcm_correct P" "gcm_total P"
    and whole: "sized m" "length content = unat (fm_size m)"
      "\<And>q. q < pieceCount m \<Longrightarrow> fm_pieceHashes m ! q = sha1Hex P (piece_bytes m content q)"
    and plan: "plan_ok P m order" "claims_ok order t" "dl_metadata (tr_download t) = m"
      "\<forall>q\<in>set order. s \<in> set (holders (tr_download t) q)"
    and course: "on_course s order t" and honest: "honest_step P s order m content t ev"
  shows "on_course s order (transfer_step P order t ev)"
proof (cases ev)
  case (Ev_step i env)
  show ?thesis
  proof (cases "i < length (tr_workers t)")
    case True
    obtain w' t1 where w: "worker_step P order env (tr_workers t ! i) t = (w', t1)"
      by fastforce
    have t': "transfer_step P order t ev = t1\<lparr>tr_workers := (tr_workers t)[i := w']\<rparr>"
      using w True by (simp add: Ev_step transfer_step_def)
    note here = on_course_worker [OF laws whole plan course honest [unfolded Ev_step] True w]
    have same: "first_try (tr_download t1) s q = first_try (tr_download t) s q" for q
      by (rule first_try_map) (rule worker_step_map [OF w])
    have "trying ((tr_workers t)[i := w'] ! j) = Some (p, k) \<Longrightarrow> j < length (tr_workers t) \<Longrightarrow>
        k \<le> first_try (tr_download t) s (order ! p)" for j p k
      using here course by (cases "j = i") (simp_all add: on_course_def)
    moreover have "(tr_workers t)[i := w'] ! j \<noteq> W_lost \<and> (tr_workers t)[i := w'] ! j \<noteq> W_fail" if "j < length (tr_workers t)" for j
      using here course that by (cases "j = i") (auto simp: on_course_def trouble_def)
    ultimately show ?thesis
      using here unfolding on_course_def trouble_def t' by (simp add: same)
  qed (simp add: Ev_step transfer_step_def course)
qed (use course honest in \<open>simp_all add: transfer_step_def on_course_def trouble_def honest_step_def\<close>)

text \<open>Along a whole schedule.\<close>

lemma transfer_run_snoc: "transfer_run P order (evs @ [ev]) t = transfer_step P order (transfer_run P order evs t) ev"
  by (simp add: transfer_run_def)

lemma transfer_run_map: "map_of_holders (tr_download (transfer_run P order evs t)) = map_of_holders (tr_download t)"
  by (rule run_keeps [of "\<lambda>t'. map_of_holders (tr_download t') = map_of_holders (tr_download t)"]) (simp_all add: transfer_step_map)

lemma on_course_run:
  assumes laws: "gcm_correct P" "gcm_total P"
    and whole: "sized m" "length content = unat (fm_size m)"
      "\<And>q. q < pieceCount m \<Longrightarrow> fm_pieceHashes m ! q = sha1Hex P (piece_bytes m content q)"
    and plan: "plan_ok P m order" "claims_ok order t0" "dl_metadata (tr_download t0) = m"
      "\<forall>q\<in>set order. s \<in> set (holders (tr_download t0) q)"
    and course: "on_course s order t0"
    and honest: "\<And>n. honest_step P s order m content (transfer_run P order (map sched [0..<n]) t0) (sched n)"
  shows "on_course s order (transfer_run P order (map sched [0..<n]) t0)"
proof (induction n)
  case (Suc n)
  let ?t = "transfer_run P order (map sched [0..<n]) t0"
  have claims: "claims_ok order ?t"
    using plan(2) by (rule claims_run)
  have job: "dl_metadata (tr_download ?t) = m"
    using transfer_run_job [of P order "map sched [0..<n]" t0] plan(3) by (simp add: job_of_def)
  have "\<forall>q\<in>set order. s \<in> set (holders (tr_download ?t) q)"
    using plan(4) holders_cong [OF transfer_run_map] by metis
  from on_course_step [OF laws whole plan(1) claims job this Suc.IH honest]
  have "on_course s order (transfer_step P order ?t (sched n))" .
  then show ?case
    by (simp add: transfer_run_snoc)
qed (use course in \<open>simp add: transfer_run_def\<close>)

section \<open>The download completes\<close>

lemma begin_schedule: "Download_begin P (env\<lparr>rn_schedule := evs\<rparr>) tc fs files dl = Download_begin P env tc fs files dl"
  by (simp add: Download_begin_def split: prod.split bool.split)

lemma finished_with_file:
  assumes "Download_begin P env tc fs files dl = Inr (fs1, order, t0)" "t = transfer_run P order (rn_schedule env) t0"
    and "Download_run P env tc fs files dl = Some r" "Download_state (snd (snd (snd r))) = CHR ''C''" "tr_file t = content"
  shows "fs_files (fst (snd r)) (dl_destination dl) = Some content"
proof -
  obtain tc' fs' files' dl' where r: "r = (tc', fs', files', dl')"
    by (metis prod_cases4)
  have e: "Download_end P (rn_complete env) fs1 t = (tc', fs', files', dl')"
    using assms(1-3) by (simp add: Download_run_def r Let_def split: if_splits)
  then have c: "Download_complete P (rn_complete env) (tr_tracker t) (write_file (partPath (tr_download t)) (tr_file t) fs1)
      (tr_shared t) (tr_download t) = (tc', fs', files', dl')"
    using assms(4) r by (auto simp: Download_end_def Download_finish_def Download_state_def Let_def split: if_splits)
  have "dl_destination (tr_download t) = dl_destination dl"
    using end_keeps_job [OF assms(1)] by (simp add: job_of_def assms(2))
  moreover have "dl_destination dl \<noteq> partPath (tr_download t)"
    using calculation by (simp add: partPath_def)
  ultimately show ?thesis
    using complete_C [OF c] assms(4,5) r by auto
qed

lemma honest_completes:
  assumes laws: "gcm_correct P" "gcm_total P"
    and begins: "Download_begin P env tc fs files dl = Inr (fs1, order, t0)" "dl_resumed dl = 0"
    and original: "PieceFile_hash P (Some original) False = Some (dl_metadata dl)" "length original < 2 ^ 63"
      "\<And>q x. q < pieceCount (dl_metadata dl) \<Longrightarrow> sha1Hex P x = fm_pieceHashes (dl_metadata dl) ! q \<Longrightarrow>
        x = piece_bytes (dl_metadata dl) original q"
    and seeder: "s < length (dl_seeders dl)" "pieceCount (dl_metadata dl) \<le> 8000000"
      "honest_answer P (dl_metadata dl) original (be_peer (rn_bitmaps env s))
        (bitmap_access P (rn_bitmaps env) tc (snd (snd (Download_prepare P (rn_prepare env) fs dl))) s) ''BITMAP'' 0"
    and calm: "\<not> dl_cancelled dl" "\<not> co_bad (rn_complete env)" "co_renames (rn_complete env)"
    and fair: "\<And>i n. i < length (tr_workers t0) \<Longrightarrow> \<exists>k\<ge>n. event_thread (sched k) = Some i"
    and honest: "\<And>n. honest_step P s order (dl_metadata dl) original (transfer_run P order (map sched [0..<n]) t0) (sched n)"
  shows "\<exists>n r. Download_run P (env\<lparr>rn_schedule := map sched [0..<n]\<rparr>) tc fs files dl = Some r \<and>
    Download_state (snd (snd (snd r))) = CHR ''C'' \<and> fs_files (fst (snd r)) (dl_destination dl) = Some original"
proof -
  let ?m = "dl_metadata dl"
  note m = hashed_metadata [OF original(1,2)]
  have lens: "hash_lengths P ?m"
    by (rule unique_hash_lengths [OF m(1,2) original(3)])
  note b = begun [OF begins(1) m(1) lens] and shape = begun_shape [OF begins(1)]
  have job: "job_of (tr_download t0) = job_of dl"
    using end_keeps_job [OF begins(1), of "[]"] by (simp add: transfer_run_def)
  have "\<not> dl_cancelled (tr_download t0)"
    using same_job_fields [OF shape(6)] calm(1) by simp
  moreover have "\<not> tr_failed t0"
    using begins(1) by (auto simp: Download_begin_def fetch_start_def Let_def split: prod.splits bool.splits)
  ultimately have flags: "\<not> dl_cancelled (tr_download t0)" "\<not> tr_failed t0"
    by simp_all
  have workers: "\<forall>i<length (tr_workers t0). tr_workers t0 ! i = W_loop"
    by (simp add: shape(8))
  have "dl_bitmaps (tr_download t0) ! s = replicate (pieceCount ?m) True"
    using honest_first_bitmap [OF laws begins(1) seeder] .
  then have holds: "\<forall>q\<in>set order. s \<in> set (holders (tr_download t0) q)"
    using b(1) shape(7) seeder(1) by (auto simp: holders_def plan_ok_def)
  have start: "on_course s order t0"
    using flags workers by (auto simp: on_course_def trouble_def)
  obtain n where n: "joined_all (transfer_run P order (map sched [0..<n]) t0)"
    using fetching.fair_finishes [OF shape(11), of sched P order] fair by (auto simp: transfer_run_def)
  let ?env = "env\<lparr>rn_schedule := map sched [0..<n]\<rparr>" and ?t = "transfer_run P order (map sched [0..<n]) t0"
  have "on_course s order ?t"
    by (rule on_course_run [OF laws m(1) m(2)[symmetric] m(4) b(1,2) _ holds start honest]) (use job in \<open>simp_all add: job_of_def\<close>)
  then have "\<not> tr_failed ?t" "\<not> dl_cancelled (tr_download ?t)"
    by (simp_all add: on_course_def trouble_def)
  moreover have begins': "Download_begin P ?env tc fs files dl = Inr (fs1, order, t0)"
    using begins(1) by (simp add: begin_schedule)
  ultimately obtain r where r: "Download_run P ?env tc fs files dl = Some r" "Download_state (snd (snd (snd r))) = CHR ''C''"
      "tr_file ?t = original"
    using undisturbed_download_completes [OF begins' begins(2) _ original, of ?t] n seeder(1) calm(2,3) by fastforce
  moreover from this have "fs_files (fst (snd r)) (dl_destination dl) = Some original"
    by (intro finished_with_file [OF begins' _ r(1,2)]) simp_all
  ultimately show ?thesis
    by blast
qed

text \<open>C27: One honest seeder is enough: if SHA-1 of a piece determines the piece, some seeder has the whole file and
  answers honestly when it is asked for its bitmap and whenever a worker fetches from it, and the user does not cancel, then every fair
  schedule ends with the download complete and exactly the original file at its destination, whatever
  the other seeders send.\<close>

theorem honest_download_completes:
  assumes laws: "gcm_correct P" "gcm_total P"
    and begins: "Download_begin P env tc fs files dl = Inr (fs1, order, t0)" "dl_resumed dl = 0"
    and original: "PieceFile_hash P (Some original) False = Some (dl_metadata dl)" "length original < 2 ^ 63"
      "\<And>q x. q < pieceCount (dl_metadata dl) \<Longrightarrow> sha1Hex P x = fm_pieceHashes (dl_metadata dl) ! q \<Longrightarrow>
        x = piece_bytes (dl_metadata dl) original q"
    and seeder: "s < length (dl_seeders dl)" "pieceCount (dl_metadata dl) \<le> 8000000"
      "honest_answer P (dl_metadata dl) original (be_peer (rn_bitmaps env s))
        (bitmap_access P (rn_bitmaps env) tc (snd (snd (Download_prepare P (rn_prepare env) fs dl))) s) ''BITMAP'' 0"
    and calm: "\<not> dl_cancelled dl" "\<not> co_bad (rn_complete env)" "co_renames (rn_complete env)"
    and fair: "\<And>i n. i < length (tr_workers t0) \<Longrightarrow> \<exists>k\<ge>n. event_thread (sched k) = Some i"
    and honest: "\<And>n. honest_step P s order (dl_metadata dl) original (transfer_run P order (map sched [0..<n]) t0) (sched n)"
  shows "\<exists>n r. Download_run P (env\<lparr>rn_schedule := map sched [0..<n]\<rparr>) tc fs files dl = Some r \<and>
    Download_state (snd (snd (snd r))) = CHR ''C'' \<and> fs_files (fst (snd r)) (dl_destination dl) = Some original"
  using assms by (rule honest_completes)

section \<open>A concrete honest seeder\<close>

definition demo_files :: shared_files where
  "demo_files = SharedFiles_add ''g'' ''f'' \<lparr>lf_path = ''p'', lf_metadata = demo_metadata, lf_available = [True]\<rparr> []"

abbreviation demo_server :: "string \<Rightarrow> Socket" where
  "demo_server operation \<equiv> seed_socket (frame_bytes (seed_request operation))"

definition demo_operations :: "string list" where "demo_operations = [''GET'', ''BITMAP'']"

lemma demo_exchange:
  "\<forall>operation\<in>set demo_operations.
     makeRequest demo_platform (pe_entropy (seed_call operation)) (pe_clock (seed_call operation)) (sa_ticket seed_access) (sa_key seed_access)
       operation 0 = Some (seed_request operation, replicate 12 CHR ''q'') \<and>
     so_out (peer_connection demo_platform seed_key seed_env demo_files (demo_server operation)) = seed_reply operation \<and>
     serves [Io_count 4, Io_count 300] [4, length (seed_request operation)] \<and>
     serves [Io_count 4, Io_count 300] [4, length (respond demo_platform seed_key seed_env demo_files (seed_request operation))] \<and>
     int (length (seed_request operation)) \<le> MAX_FRAME"
  by code_simp

lemma demo_moves: "serves (sv_reads seed_env) [5]" "serves [Io_count 2, Io_count 9] [5]"
  by code_simp+

lemma demo_access: "access_for demo_platform seed_key seed_ticket seed_access" "length (sa_key seed_access) = 32"
  by code_simp+

lemma demo_length: "unat (pieceLength demo_metadata 0) = 5"
  by (simp add: pieceLength_def demo_metadata_def PIECE_SIZE_def)

lemma demo_honest:
  assumes "operation \<in> set demo_operations"
  shows "honest_answer demo_platform demo_metadata ''hello'' (seed_call operation) seed_access operation 0"
  unfolding honest_answer_def
proof (intro exI conjI)
  note exchange = bspec [OF demo_exchange assms]
  show "access_for demo_platform seed_key seed_ticket seed_access" "length (sa_key seed_access) = 32"
    by (fact demo_access)+
  show "in_time (pe_clock (seed_call operation)) (sv_clock seed_env) seed_ticket"
    using seed_in_time by (simp add: seed_ticket_def)
  show "seeds demo_files seed_env seed_ticket demo_metadata ''hello''"
    by (simp add: seeds_def demo_files_def shared.lookup_add seed_ticket_def downloadTicket_def seed_env_def)
  show "sv_entropy seed_env \<noteq> None"
    by (simp add: seed_env_def)
  show "serves (sv_reads seed_env) [unat (pieceLength demo_metadata 0)]"
    using demo_moves(1) by (simp only: demo_length)
  show "linked demo_platform seed_key seed_env demo_files (demo_server operation) (seed_call operation) seed_access operation 0"
    unfolding linked_def using exchange
    by (intro exI [of _ "seed_socket (seed_reply operation)"] exI [of _ "seed_request operation"] exI conjI)
      (simp_all add: seed_sockets, simp_all add: seed_socket_def)
qed

text \<open>The states of the worker along the schedule that only ever gives it its turn.\<close>

definition demo_states :: "transfer list" where
  "demo_states =
     [demo_start, demo_start\<lparr>tr_workers := [W_next]\<rparr>, demo_start\<lparr>tr_next := 1, tr_workers := [W_attempt 0 0]\<rparr>,
      demo_start\<lparr>tr_next := 1, tr_workers := [W_seeder 0 0]\<rparr>, demo_start\<lparr>tr_next := 1, tr_workers := [W_fetch 0 0 seed_access]\<rparr>,
      demo_start\<lparr>tr_next := 1, tr_file := ''hello'', tr_workers := [W_count 0]\<rparr>,
      demo_start\<lparr>tr_download := demo_open\<lparr>dl_completed := 1\<rparr>, tr_next := 1, tr_file := ''hello'', tr_workers := [W_publish 0]\<rparr>,
      demo_start\<lparr>tr_download := demo_open\<lparr>dl_completed := 1\<rparr>, tr_next := 1, tr_file := ''hello'', tr_shared := demo_end_shared,
        tr_workers := [W_loop]\<rparr>,
      demo_start\<lparr>tr_download := demo_open\<lparr>dl_completed := 1\<rparr>, tr_next := 1, tr_file := ''hello'', tr_shared := demo_end_shared,
        tr_workers := [W_next]\<rparr>,
      demo_finish]"

lemma demo_stays: "transfer_step demo_platform [0] demo_finish demo_step = demo_finish"
  by (simp add: transfer_step_def demo_step_def demo_finish_def worker_step_def)

lemma demo_closed: "t \<in> set demo_states \<Longrightarrow> transfer_step demo_platform [0] t demo_step \<in> set demo_states"
  unfolding demo_states_def list.set insert_iff
  by (elim disjE) (simp_all only: demo_steps demo_last_steps demo_stays, simp_all)

lemma demo_reachable: "transfer_run demo_platform [0] (map (\<lambda>_. demo_step) [0..<n]) demo_start \<in> set demo_states"
proof (induction n)
  case (Suc n)
  from demo_closed [OF this] show ?case
    by (simp add: transfer_run_snoc)
qed (simp add: transfer_run_def demo_states_def)

lemma demo_honest_step: "t \<in> set demo_states \<Longrightarrow> honest_step demo_platform 0 [0] demo_metadata ''hello'' t demo_step"
  unfolding demo_states_def list.set insert_iff
  by (elim disjE) (simp_all add: honest_step_def demo_step_def demo_honest demo_operations_def demo_length demo_moves(2) demo_finish_def)

lemma demo_bitmap_access:
  "bitmap_access demo_platform (rn_bitmaps demo_run) demo_tracker
     (snd (snd (Download_prepare demo_platform (rn_prepare demo_run) demo_disk demo_download))) 0 = seed_access"
  unfolding demo_prepares by (simp add: bitmap_access_def bitmaps_before_def seederAt_def demo_expires demo_run_def TICKET_MARGIN_SECONDS_def)

lemma demo_first_bitmap:
  "honest_answer demo_platform demo_metadata ''hello'' (be_peer (rn_bitmaps demo_run 0))
     (bitmap_access demo_platform (rn_bitmaps demo_run) demo_tracker
       (snd (snd (Download_prepare demo_platform (rn_prepare demo_run) demo_disk demo_download))) 0) ''BITMAP'' 0"
proof -
  have "be_peer (rn_bitmaps demo_run 0) = seed_call ''BITMAP''"
    by (simp add: demo_run_def)
  then show ?thesis
    using demo_honest [of "''BITMAP''"] by (simp add: demo_bitmap_access demo_operations_def)
qed

text \<open>The schedule of a single worker that fetches \<open>hello\<close> from its one seeder.\<close>

theorem honest_download_completes_witness:
  "\<exists>n r. Download_run demo_platform (demo_run\<lparr>rn_schedule := map (\<lambda>_. demo_step) [0..<n]\<rparr>) demo_tracker demo_disk [] demo_download = Some r \<and>
    Download_state (snd (snd (snd r))) = CHR ''C'' \<and> fs_files (fst (snd r)) (dl_destination demo_download) = Some ''hello''"
proof (rule honest_download_completes [OF _ _ demo_begins _ demo_hashed])
  show "honest_step demo_platform 0 [0] (dl_metadata demo_download) ''hello''
      (transfer_run demo_platform [0] (map (\<lambda>_. demo_step) [0..<n]) demo_start) demo_step" for n
    using demo_honest_step [OF demo_reachable] by simp
  show "x = piece_bytes (dl_metadata demo_download) ''hello'' q"
    if "q < pieceCount (dl_metadata demo_download)" "sha1Hex demo_platform x = fm_pieceHashes (dl_metadata demo_download) ! q" for q x
    using that demo_one_preimage [of x] demo_length by (simp add: demo_hash_def piece_bytes_def)
  show "honest_answer demo_platform (dl_metadata demo_download) ''hello'' (be_peer (rn_bitmaps demo_run 0))
      (bitmap_access demo_platform (rn_bitmaps demo_run) demo_tracker
        (snd (snd (Download_prepare demo_platform (rn_prepare demo_run) demo_disk demo_download))) 0) ''BITMAP'' 0"
    using demo_first_bitmap by simp
  show "\<exists>k\<ge>n. event_thread demo_step = Some i" if "i < length (tr_workers demo_start)" for i n :: nat
    using that by (intro exI [of _ n]) (simp add: demo_step_def)
qed (simp_all add: demo_run_def, simp_all add: demo_platform_def gcm_correct_def gcm_total_def toy_platform_def demo_download_def Download_init_def)

end
