(* ===== verification/Tracker_Service.thy ===== *)
theory Tracker_Service
  imports Secure_Channel Tracker_State
begin

text \<open>
  The tracker process around its state: \<open>tracker/tracker_log.cpp\<close> (what a log line may show),
  \<open>tracker/tracker_service.cpp\<close> (one decrypted request) and the connection handler of
  \<open>tracker/main.cpp\<close> (handshake, one request, one reply).  A log line is its text after the time
  stamp.
\<close>

section \<open>The log\<close>

definition log_info :: "string \<Rightarrow> string" where
  "log_info message = message"

definition log_error :: "string \<Rightarrow> string" where
  "log_error message = ''ERROR: '' @ message"

definition shown_arguments :: "(string \<times> nat) list" where
  "shown_arguments = [(''create_user'', 1), (''login'', 1), (''upload_file'', 2)]"

text \<open>The word with index \<open>i\<close>, as the loop appends it.\<close>

definition shown_word :: "nat option \<Rightarrow> nat \<Rightarrow> string \<Rightarrow> string" where
  "shown_word limit i word =
     (case limit of
        None \<Rightarrow> '' '' @ word
      | Some l \<Rightarrow> if i > l then (if i > l + 1 then [] else '' ***'') else '' '' @ word)"

definition safeCommand :: "string \<Rightarrow> string" where
  "safeCommand commandLine =
     (case words_of commandLine of
        [] \<Rightarrow> ''(empty)''
      | w # ws \<Rightarrow>
          let limit = map_of shown_arguments w in
          w @ concat (map (\<lambda>(i, word). shown_word limit i word) (zip [1..<Suc (length ws)] ws)))"

definition safeResponse :: "string \<Rightarrow> string" where
  "safeResponse response =
     (if starts_with response ''META'' then ''META ...''
      else if length response \<le> 200 then response else take 200 response @ ''...'')"

section \<open>One request\<close>

text \<open>\<open>(reply, log line, state)\<close>.\<close>

definition handle ::
  "platform \<Rightarrow> string \<Rightarrow> string \<Rightarrow> ApplyContext \<Rightarrow> TrackerState \<Rightarrow> string \<times> string \<times> TrackerState" where
  "handle P request client context st =
     (let parts = split request TAB in
      if length parts < 3 \<or> parts ! 0 \<noteq> ''C''
      then (''ERR malformed request'' @ [TAB] @ ''0'', log_error (client @ '' sent a malformed request''), st)
      else case parseU64 (parts ! 1) of
        None \<Rightarrow> (''ERR malformed request'' @ [TAB] @ ''0'', log_error (client @ '' sent a malformed request''), st)
      | Some session \<Rightarrow>
          let command = join (drop 2 parts) TAB;
              user = userOf st session;
              who = (if user = [] then ''(not logged in)'' else user) @ '' @ '' @ client;
              (result, st') = apply_command P session command context st in
          (cr_response result @ [TAB] @ to_string_u64 (cr_session result),
           log_info (who @ '': '' @ safeCommand command @ '' -> '' @ safeResponse (cr_response result)), st'))"

section \<open>One connection\<close>

record server_env =
  se_socket :: Socket
  se_keys :: keygen
  se_nonce :: entropy
  se_clock :: clock
  se_frame :: entropy
  se_context :: ApplyContext
  se_peer :: "Endpoint option"

text \<open>What the log calls the other side, from what \<open>peer\<close> says of the socket.\<close>

definition se_client :: "server_env \<Rightarrow> string" where
  "se_client env = (case se_peer env of Some e \<Rightarrow> Endpoint_toString e | None \<Rightarrow> ''unknown client'')"

text \<open>\<open>(log lines, state, channel)\<close>; the channel is the last one the handler held.\<close>

definition tracker_connection ::
  "platform \<Rightarrow> string \<Rightarrow> server_env \<Rightarrow> TrackerState \<Rightarrow> string list \<times> TrackerState \<times> SecureChannel option" where
  "tracker_connection P identityPrivateKey env st =
     (let client = se_client env;
          opened = log_info (''Connection from '' @ client) in
      case SecureChannel_accept P (se_keys env) (se_nonce env) (se_clock env) (se_socket env) identityPrivateKey of
        None \<Rightarrow> ([opened, log_error (client @ '': secure handshake failed'')], st, None)
      | Some channel \<Rightarrow>
          (case SecureChannel_receive P channel of
             (None, channel1) \<Rightarrow> ([opened, log_error (client @ '': no request received'')], st, Some channel1)
           | (Some request, channel1) \<Rightarrow>
               let (answer, line, st') = handle P request client (se_context env) st;
                   (sent, channel2) = SecureChannel_send P (se_frame env) channel1 answer in
               (opened # line # (if sent then [] else [log_error (client @ '': could not send the reply'')]),
                st', Some channel2)))"

section \<open>What the log shows\<close>

text \<open>The arguments of \<open>create_user\<close> and \<open>login\<close> after the name leave no trace but one mark.\<close>

lemma shown_after_limit:
  "l < i \<Longrightarrow> concat (map (\<lambda>(i, word). shown_word (Some l) i word) (zip [Suc i..<Suc i + length ws] ws)) = []"
proof (induction ws arbitrary: i)
  case (Cons w ws)
  have "[Suc i..<Suc i + length (w # ws)] = Suc i # [Suc (Suc i)..<Suc (Suc i) + length ws]"
    by (simp add: upt_conv_Cons del: upt_Suc)
  with Cons.IH [of "Suc i"] Cons.prems show ?case
    by (simp add: shown_word_def del: upt_Suc)
qed simp

lemma safeCommand_hides:
  assumes "words_of line = c # shown @ hidden" "map_of shown_arguments c = Some (length shown)"
  shows "safeCommand line = c @ concat (map (\<lambda>w. '' '' @ w) shown) @ (if hidden = [] then [] else '' ***'')"
proof -
  let ?f = "\<lambda>(i, word). shown_word (Some (length shown)) i word"
  have first: "map ?f (zip [1..<Suc (length shown)] shown) = map (\<lambda>w. '' '' @ w) shown"
    by (rule nth_equalityI) (simp_all add: shown_word_def del: upt_Suc)
  have rest: "concat (map ?f (zip [Suc (length shown)..<Suc (length shown) + length hidden] hidden)) =
      (if hidden = [] then [] else '' ***'')"
  proof (cases hidden)
    case (Cons h hs)
    have "concat (map ?f (zip [Suc (Suc (length shown))..<Suc (Suc (length shown)) + length hs] hs)) = []"
      by (rule shown_after_limit) simp
    moreover have "[Suc (length shown)..<Suc (length shown) + length (h # hs)] =
        Suc (length shown) # [Suc (Suc (length shown))..<Suc (Suc (length shown)) + length hs]"
      by (simp add: upt_conv_Cons del: upt_Suc)
    ultimately show ?thesis
      using Cons by (simp add: shown_word_def del: upt_Suc)
  qed simp
  have "zip [1..<Suc (length (shown @ hidden))] (shown @ hidden) =
      zip [1..<Suc (length shown)] shown @ zip [Suc (length shown)..<Suc (length shown) + length hidden] hidden"
    using upt_add_eq_append [of 1 "Suc (length shown)" "length hidden"] by (simp del: upt_Suc)
  with assms first rest show ?thesis
    by (simp add: safeCommand_def del: upt_Suc)
qed

text \<open>The request line the client sends is read back as it was built, tabs in the command included.\<close>

lemma handle_request:
  "handle P (''C'' @ [TAB] @ to_string_u64 session @ [TAB] @ command) client context st =
     (let (result, st') = apply_command P session command context st in
      (cr_response result @ [TAB] @ to_string_u64 (cr_session result),
       log_info ((if userOf st session = [] then ''(not logged in)'' else userOf st session) @ '' @ '' @ client @ '': '' @
         safeCommand command @ '' -> '' @ safeResponse (cr_response result)), st'))"
proof -
  have "TAB \<notin> set (to_string_u64 session)"
    by (auto dest: to_string_u64_chars)
  then have split: "split (''C'' @ [TAB] @ to_string_u64 session @ [TAB] @ command) TAB =
      ''C'' # to_string_u64 session # split command TAB"
    using split_at_delim [of TAB "''C''"] split_at_delim [of TAB "to_string_u64 session" command] by simp
  have "1 \<le> length (split command TAB)"
    by (cases "split command TAB") simp_all
  then show ?thesis
    unfolding handle_def Let_def split
    by (simp add: parseU64_to_string join_split split: prod.splits)
qed

end
