(* ===== verification/Client_Tracker.thy ===== *)
theory Client_Tracker
  imports Tracker_Client Tracker_Service Tracker_Properties "HOL-Library.Multiset"
begin

text \<open>
  The client and the tracker together: the commands that \<open>TrackerClient\<close> builds are the ones the
  tracker's handlers parse, the replies the tracker makes are the ones the client reads, and a
  whole request over the secure channel runs exactly the command that was asked for.
\<close>

section \<open>Words of a built command\<close>

definition word_ok :: "string \<Rightarrow> bool" where
  "word_ok w \<longleftrightarrow> w \<noteq> [] \<and> list_all (\<lambda>c. \<not> is_space c) w"

lemma words_of_words_join: "list_all word_ok ws \<Longrightarrow> words_of (join ws CHR '' '') = ws"
  by (rule words_of_join) (simp_all add: word_ok_def [abs_def])

lemma word_ok_toHex [simp]: "x \<noteq> [] \<Longrightarrow> word_ok (toHex x)"
  by (auto simp: word_ok_def list_all_iff dest: toHex_chars xdigit_not_space)

lemma word_ok_u64 [simp]: "word_ok (to_string_u64 n)"
  by (auto simp: word_ok_def list_all_iff dest: to_string_u64_chars digit_not_space)

lemma word_ok_int: "0 \<le> i \<Longrightarrow> word_ok (to_string_int i)"
  by (auto simp: word_ok_def list_all_iff dest: to_string_int_chars [rotated] digit_not_space)

lemma word_ok_valid:
  assumes "valid m"
  shows "word_ok (fm_fullHash m)" "word_ok (pieceHashList m)"
proof -
  have full: "isSha1Hex (fm_fullHash m)" and pieces: "list_all isSha1Hex (fm_pieceHashes m)"
    using assms by (simp_all add: valid_def list_all_iff)
  show "word_ok (fm_fullHash m)"
    using isSha1Hex_nonempty [OF full] isSha1Hex_xdigits [OF full] xdigit_not_space
    by (auto simp: word_ok_def list_all_iff)
  have "\<not> is_space c" if "c \<in> set (pieceHashList m)" for c
    using pieceHashList_chars [OF pieces that] xdigit_not_space by auto
  then show "word_ok (pieceHashList m)"
    using pieceHashList_nonempty [OF pieces] by (simp add: word_ok_def list_all_iff)
qed

section \<open>Sharing\<close>

text \<open>A client whose address and key the tracker can parse.\<close>

definition client_ok :: "platform \<Rightarrow> TrackerClient \<Rightarrow> bool" where
  "client_ok P tc \<longleftrightarrow> endpoint_ok P (tc_self tc) \<and> word_ok (ep_ip (tc_self tc)) \<and> length (tc_peerKey tc) = 32"

lemma shareCommand_words:
  assumes "client_ok P tc" "word_ok gname" "name \<noteq> []" "valid m"
  shows "words_of (shareCommand tc gname name m) = ''upload_file'' #
    [gname, toHex name, to_string_u64 (fm_size m), fm_fullHash m, pieceHashList m, ep_ip (tc_self tc),
     to_string_int (ep_port (tc_self tc)), toHex (tc_peerKey tc)]"
proof -
  have "shareCommand tc gname name m = join (''upload_file'' #
    [gname, toHex name, to_string_u64 (fm_size m), fm_fullHash m, pieceHashList m, ep_ip (tc_self tc),
     to_string_int (ep_port (tc_self tc)), toHex (tc_peerKey tc)]) CHR '' ''"
    by (simp add: shareCommand_def)
  moreover have "word_ok ''upload_file''"
    by (simp add: word_ok_def is_space_def)
  moreover have "tc_peerKey tc \<noteq> []" "0 \<le> ep_port (tc_self tc)"
    using assms(1) by (auto simp: client_ok_def endpoint_ok_def)
  ultimately show ?thesis
    using assms word_ok_valid [OF assms(4)]
    by (simp only:) (rule words_of_words_join, simp add: client_ok_def word_ok_int)
qed

lemma share_arguments:
  assumes "client_ok P tc" "name \<noteq> []" "valid m"
  shows "uploadArguments P [gname, toHex name, to_string_u64 (fm_size m), fm_fullHash m, pieceHashList m,
      ep_ip (tc_self tc), to_string_int (ep_port (tc_self tc)), toHex (tc_peerKey tc)] =
    Some (name, m, tc_self tc, tc_peerKey tc)"
proof -
  have "list_all isSha1Hex (fm_pieceHashes m)"
    using assms(3) by (simp add: valid_def list_all_iff)
  moreover have "Endpoint_parse P (ep_ip (tc_self tc) @ '':'' @ to_string_int (ep_port (tc_self tc))) = Some (tc_self tc)"
    using Endpoint_parse_toString [of P "tc_self tc"] assms(1) by (simp add: client_ok_def Endpoint_toString_def)
  ultimately show ?thesis
    using assms
    by (cases m) (simp add: uploadArguments_def fromHex_toHex parseU64_to_string parse_pieceHashList client_ok_def)
qed

section \<open>Locating\<close>

lemma locateCommand_words:
  assumes "word_ok gname" "name \<noteq> []"
  shows "words_of (locateCommand gname name) = [''download_file'', gname, toHex name]"
proof -
  have "word_ok ''download_file''"
    by (simp add: word_ok_def is_space_def)
  moreover have "locateCommand gname name = join [''download_file'', gname, toHex name] CHR '' ''"
    by (simp add: locateCommand_def)
  ultimately show ?thesis
    using assms by (simp only:) (rule words_of_words_join, simp)
qed

text \<open>A seeder whose address is dotted decimal: its entry cannot be taken apart.\<close>

definition plain_seeder :: "Seeder \<Rightarrow> bool" where
  "plain_seeder sd \<longleftrightarrow> list_all (\<lambda>c. is_digit c \<or> c = CHR ''.'') (ep_ip (sd_endpoint sd))"

lemma seederAccess_plain:
  assumes "hmac_total P" "ticket_ok t" "seeder_ok P sd" "plain_seeder sd"
  shows "access_plain P (seederAccess P t sd)"
proof -
  have "length (PeerTicket_key P t (sd_peerKey sd)) = 32"
    unfolding PeerTicket_key_def using assms(3) by (intro hmac_length assms(1)) (simp add: seeder_ok_def)
  with assms show ?thesis
    by (simp add: access_plain_def access_ok_def seederAccess_def seeder_ok_def plain_seeder_def decode_encode_ticket)
qed

lemma accesses_plain:
  assumes "hmac_total P" "ticket_ok t" "file_ok P S f" "\<And>u sd. (u, sd) \<in> set (sf_seeders f) \<Longrightarrow> plain_seeder sd"
  shows "list_all (access_plain P) (accessesFor P t f)"
proof -
  have "seeder_ok P sd" if "(u, sd) \<in> set (sf_seeders f)" for u sd
    using assms(3) that om_mem_find [of "sf_seeders f"] by (auto simp: file_ok_def)
  with assms show ?thesis
    by (auto simp: accessesFor_def list_all_iff intro: seederAccess_plain)
qed

text \<open>The client gets the metadata as it was uploaded and every seeder, in the order of their texts.\<close>

lemma sort_texts: "sort (map SeederAccess_encode as) = map SeederAccess_encode (sort_key SeederAccess_encode as)"
  by (rule properties_for_sort) simp_all

lemma accessesFor_nonempty: "file_ok P S f \<Longrightarrow> accessesFor P t f \<noteq> []"
  by (simp add: accessesFor_def file_ok_def)

lemma read_metaReply:
  assumes "hmac_total P" "ticket_ok t" "file_ok P S f"
    and plain: "\<And>u sd. (u, sd) \<in> set (sf_seeders f) \<Longrightarrow> plain_seeder sd"
  shows "readMeta P (metaReply P t f) = Inr (sf_metadata f, sort_key SeederAccess_encode (accessesFor P t f))"
proof -
  let ?m = "sf_metadata f" and ?as = "sort_key SeederAccess_encode (accessesFor P t f)"
  have valid: "valid ?m" and pieces: "list_all isSha1Hex (fm_pieceHashes ?m)"
    using assms(3) by (simp_all add: file_ok_def valid_def list_all_iff)
  have plain_as: "list_all (access_plain P) ?as"
    using accesses_plain [OF assms] by (simp add: list_all_iff)
  have some: "?as \<noteq> []"
    using accessesFor_nonempty [OF assms(3)] by (metis length_0_conv length_sort)
  let ?field = "join (map SeederAccess_encode ?as) CHR '',''"
  have field: "List.map_filter (SeederAccess_decode P) (split ?field CHR '','') = ?as"
    by (rule access_list.decode_list [OF some plain_as])
  have "\<not> is_space c" if "c \<in> set ?field" for c
    using that set_join [of "map SeederAccess_encode ?as" "CHR '',''"] plain_as plain_field_chars xdigit_not_space
    by (fastforce simp: list_all_iff)
  moreover have "?field \<noteq> []"
    using length_join_hash [of "map SeederAccess_encode ?as" "CHR '',''"] some
    by (cases ?as) (auto simp: SeederAccess_encode_def)
  ultimately have "word_ok ?field"
    by (simp add: word_ok_def list_all_iff)
  moreover have "word_ok ''META''"
    by (simp add: word_ok_def is_space_def)
  moreover have "metaReply P t f = join [''META'', to_string_u64 (fm_size ?m), fm_fullHash ?m, pieceHashList ?m, ?field] CHR '' ''"
    by (simp add: metaReply_def sort_texts)
  ultimately have "words_of (metaReply P t f) = [''META'', to_string_u64 (fm_size ?m), fm_fullHash ?m, pieceHashList ?m, ?field]"
    using word_ok_valid [OF valid] by (simp only:) (rule words_of_words_join, simp)
  moreover have eta: "\<lparr>fm_size = fm_size m, fm_fullHash = fm_fullHash m, fm_pieceHashes = fm_pieceHashes m\<rparr> = m"
    for m :: FileMetadata
    by (cases m) simp
  ultimately show ?thesis
    using valid some
    by (simp add: eta readMeta_def parseU64_to_string parse_pieceHashList [OF pieces] field Let_def)
qed

section \<open>One request over the channel\<close>

text \<open>The two environments of one connection: each side receives exactly what the other wrote.\<close>

definition connected :: "call_env \<Rightarrow> server_env \<Rightarrow> SecureChannel \<Rightarrow> SecureChannel \<Rightarrow> bool" where
  "connected ce se c s \<longleftrightarrow> (\<exists>sock. ce_socket ce = Some sock \<and> so_out sock = [] \<and> so_out (se_socket se) = [] \<and>
     so_in sock = so_out (sc_socket s) \<and> so_in (se_socket se) = so_out (sc_socket c))"

lemma send_socket:
  assumes "SecureChannel_send P r c x = (ok, c')"
  shows "\<exists>w. so_out (sc_socket c') = so_out (sc_socket c) @ w \<and> so_in (sc_socket c') = so_in (sc_socket c) \<and>
    sc_key c' = sc_key c \<and> sc_sendLabel c' = sc_sendLabel c \<and> sc_receiveLabel c' = sc_receiveLabel c \<and>
    (if ok then w = frame_bytes (seal P r c x) \<and> int (length (seal P r c x)) \<le> MAX_FRAME
     else w = [] \<or> (\<exists>y. frame_bytes (seal P r c x) = w @ y \<and> y \<noteq> [] \<and> int (length (seal P r c x)) \<le> MAX_FRAME))"
proof -
  obtain sock where sock: "Socket_sendFrame (sc_socket c) (seal P r c x) = (ok, sock)" "c' = c\<lparr>sc_socket := sock\<rparr>"
    using assms by (auto simp: SecureChannel_send_def split: prod.splits)
  then show ?thesis
    using Socket_sendFrame_True [of "sc_socket c" "seal P r c x" sock]
      Socket_sendFrame_False [of "sc_socket c" "seal P r c x" sock]
    by (cases ok) auto
qed

lemma receive_socket:
  assumes "SecureChannel_receive P c = (got, c')"
  shows "\<exists>f. Socket_receiveFrame (sc_socket c) = (f, sc_socket c') \<and> (got \<noteq> None \<longrightarrow> f \<noteq> None) \<and>
    so_out (sc_socket c') = so_out (sc_socket c) \<and> sc_key c' = sc_key c \<and>
    sc_sendLabel c' = sc_sendLabel c \<and> sc_receiveLabel c' = sc_receiveLabel c"
  using assms by (auto simp: SecureChannel_receive_def split: prod.splits option.splits if_splits)

lemma exchange:
  assumes laws: "gcm_correct P" "dh_agrees P (ce_keys ce) (se_keys se)"
    and call: "callTracker P ce pk message = Some (response, c2)"
    and serve: "tracker_connection P sk se st = (logs, st', Some s2)"
    and wires: "connected ce se c2 s2"
  shows "\<exists>line. handle P message (se_client se) (se_context se) st = (response, line, st') \<and>
    logs = [log_info (''Connection from '' @ se_client se), line]"
proof -
  obtain sock where sock: "ce_socket ce = Some sock" "so_out sock = []" "so_out (se_socket se) = []"
      "so_in sock = so_out (sc_socket s2)" "so_in (se_socket se) = so_out (sc_socket c2)"
    using wires by (auto simp: connected_def)
  from call sock(1) obtain c c1 where
    c: "SecureChannel_connect P (ce_keys ce) (ce_nonce ce) (ce_clock ce) sock pk = Some c"
    and c1: "SecureChannel_send P (ce_frame ce) c message = (True, c1)"
    and c2: "SecureChannel_receive P c1 = (Some response, c2)"
    by (auto simp: callTracker_def split: option.splits prod.splits if_splits)
  obtain s where s: "SecureChannel_accept P (se_keys se) (se_nonce se) (se_clock se) (se_socket se) sk = Some s"
    using serve by (auto simp: tracker_connection_def Let_def split: option.splits)
  obtain got s1 where s1: "SecureChannel_receive P s = (got, s1)"
    by (cases "SecureChannel_receive P s")
  obtain wc where wc: "so_out (sc_socket c2) = so_out (sc_socket c) @ wc" "wc = frame_bytes (seal P (ce_frame ce) c message)"
      "so_in (sc_socket c1) = so_in (sc_socket c)"
    using send_socket [OF c1] receive_socket [OF c2] by auto
  obtain ws where ws: "so_out (sc_socket s2) = so_out (sc_socket s) @ ws" "got = None \<longrightarrow> ws = []"
    using serve s s1 receive_socket [OF s1]
    by (auto simp: tracker_connection_def Let_def split: option.splits prod.splits dest!: send_socket)
  note pair = handshake_pairs [OF c s sock(2,3) sock(5) [unfolded wc(1)] sock(4) [unfolded ws(1)] laws(2)]
  have labels: "sc_sendLabel c = sc_receiveLabel s" "sc_sendLabel s = sc_receiveLabel c"
    using c s by (auto elim!: connect_Some accept_Some)
  have "ws \<noteq> []"
    using Socket_receiveFrame_empty [of "sc_socket c1"] receive_socket [OF c2] pair wc(3) by fastforce
  then obtain request where request: "got = Some request"
    using ws(2) by (cases got) auto
  have "so_in (sc_socket s) = drop (length (so_out (sc_socket c))) (so_out (sc_socket c1)) @ []"
    using pair wc send_socket [OF c1] by auto
  then have msg: "request = message" "so_out (sc_socket s1) = so_out (sc_socket s)"
    using seal_receive [OF laws(1) _ labels(1) c1 _ s1 [unfolded request]] pair by blast+
  obtain answer line sent where handled: "handle P message (se_client se) (se_context se) st = (answer, line, st')"
      and s2: "SecureChannel_send P (se_frame se) s1 answer = (sent, s2)"
      and logs: "logs = log_info (''Connection from '' @ se_client se) # line #
        (if sent then [] else [log_error (se_client se @ '': could not send the reply'')])"
    using serve s s1 request msg by (auto simp: tracker_connection_def Let_def split: prod.splits)
  have keys: "sc_key s1 = sc_key c1" "sc_sendLabel s1 = sc_receiveLabel c1"
    using receive_socket [OF s1] send_socket [OF c1] pair labels by auto
  have arrives: "so_in (sc_socket c1) = drop (length (so_out (sc_socket s1))) (so_out (sc_socket s2)) @ []"
    using pair wc(3) ws(1) msg(2) by simp
  have sent
  proof (rule ccontr)
    assume "\<not> sent"
    with send_socket [OF s2] have "so_in (sc_socket c1) = [] \<or>
        (\<exists>y. frame_bytes (seal P (se_frame se) s1 answer) = so_in (sc_socket c1) @ y \<and> y \<noteq> [] \<and>
           int (length (seal P (se_frame se) s1 answer)) \<le> MAX_FRAME)"
      using arrives by auto
    moreover obtain f where "Socket_receiveFrame (sc_socket c1) = (Some f, sc_socket c2)"
      using receive_socket [OF c2] by auto
    ultimately show False
      using Socket_receiveFrame_empty Socket_receiveFrame_part by blast
  qed
  then have "SecureChannel_send P (se_frame se) s1 answer = (True, s2)"
    using s2 by simp
  from seal_receive [OF laws(1) keys this arrives c2] have "response = answer"
    by simp
  with handled logs \<open>sent\<close> show ?thesis
    by simp
qed

end
