(* ===== verification/Tracker_Exchange.thy ===== *)
theory Tracker_Exchange
  imports Client_Tracker Delivery
begin

text \<open>
  A whole call to the tracker over a connection that moves the bytes: the handshake completes on both
  sides, the request arrives, and the client gets the tracker's answer.  \<open>Client_Tracker\<close> says what a call
  that reported success did; here is when it succeeds.
\<close>

section \<open>The handshake completes\<close>

lemma bar_not_in_decimal: "CHR ''|'' \<notin> set (to_string_int i)"
proof (cases "i < 0")
  case True
  then show ?thesis
    using to_string_int_chars [of "- i" "CHR ''|''"] by (auto simp: to_string_int_def)
qed (auto dest: to_string_int_chars [rotated])

lemma split_hello:
  "split (''HELLO|'' @ helloFields now eph nonce) CHR ''|'' = [''HELLO'', toHex (kp_public eph), toHex nonce, to_string_int now]"
  unfolding hello_split by (simp add: split_no_delim bar_not_in_decimal)

lemma split_tracker_hello:
  "split (''HELLO|'' @ helloFields now eph nonce @ ''|'' @ toHex sig) CHR ''|'' =
     [''HELLO'', toHex (kp_public eph), toHex nonce, to_string_int now, toHex sig]"
proof -
  have hex: "CHR ''|'' \<notin> set (toHex sig)"
    by (auto dest: toHex_chars)
  have shape: "''HELLO|'' @ helloFields now eph nonce @ ''|'' @ toHex sig =
      (''HELLO|'' @ helloFields now eph nonce) @ CHR ''|'' # toHex sig"
    by simp
  show ?thesis
    unfolding shape split_append split_hello split_no_delim [OF hex] by simp
qed

lemma connect_steps:
  assumes "generateKeyPair kg = Some eph" "length (randomBytes 16 r) = 16"
    and "Socket_sendFrame sock (''HELLO|'' @ helloFields (now 0) eph (randomBytes 16 r)) = (True, sock1)"
    and "Socket_receiveFrame sock1 = (Some frame, sock2)" "parseHello (now 1) (now 2) (split frame CHR ''|'') 5 = Some serverPublic"
    and "fromHex (split frame CHR ''|'' ! 4) = Some sig"
    and "transcript (''HELLO|'' @ helloFields (now 0) eph (randomBytes 16 r))
      (split frame CHR ''|'' ! 1 @ ''|'' @ split frame CHR ''|'' ! 2 @ ''|'' @ split frame CHR ''|'' ! 3) = msg"
    and "ed25519Verify P pk msg sig" "length (sessionKey P eph serverPublic msg) = 32"
  shows "SecureChannel_connect P kg r now sock pk = Some (SecureChannel_init sock2 (sessionKey P eph serverPublic msg) True)"
  using assms by (simp add: SecureChannel_connect_def Let_def)

lemma connect_completes:
  assumes "generateKeyPair kg = Some eph" "length (randomBytes 16 r) = 16"
    and "Socket_sendFrame sock (''HELLO|'' @ helloFields (now 0) eph (randomBytes 16 r)) = (True, sock1)"
    and "Socket_receiveFrame sock1 = (Some (''HELLO|'' @ helloFields t ephS nonceS @ ''|'' @ toHex sig), sock2)"
    and "length (kp_public ephS) = 32" "length nonceS = 16" "isFreshTimestamp (now 1) (now 2) (to_string_int t)"
    and "msg = transcript (''HELLO|'' @ helloFields (now 0) eph (randomBytes 16 r)) (helloFields t ephS nonceS)"
    and "ed25519Verify P pk msg sig" "length (sessionKey P eph (kp_public ephS) msg) = 32"
  shows "SecureChannel_connect P kg r now sock pk = Some (SecureChannel_init sock2 (sessionKey P eph (kp_public ephS) msg) True)"
proof (rule connect_steps [where now = now, OF assms(1-4) _ _ _ assms(9,10)])
  let ?frame = "''HELLO|'' @ helloFields t ephS nonceS @ ''|'' @ toHex sig"
  show "parseHello (now 1) (now 2) (split ?frame CHR ''|'') 5 = Some (kp_public ephS)"
    unfolding split_tracker_hello using assms(5-7) by (simp add: parseHello_def fromHex_toHex)
  show "fromHex (split ?frame CHR ''|'' ! 4) = Some sig"
    unfolding split_tracker_hello by (simp add: fromHex_toHex)
  show "transcript (''HELLO|'' @ helloFields (now 0) eph (randomBytes 16 r))
      (split ?frame CHR ''|'' ! 1 @ ''|'' @ split ?frame CHR ''|'' ! 2 @ ''|'' @ split ?frame CHR ''|'' ! 3) = msg"
    unfolding split_tracker_hello assms(8) by (simp add: helloFields_def)
qed

lemma accept_steps:
  assumes "Socket_receiveFrame sock = (Some hello, sock1)" "parseHello (now 0) (now 1) (split hello CHR ''|'') 4 = Some clientPublic"
    and "generateKeyPair kg = Some eph" "length (randomBytes 16 r) = 16"
    and "msg = transcript hello (helloFields (now 2) eph (randomBytes 16 r))"
    and "ed25519Sign P sk msg \<noteq> []" "length (sessionKey P eph clientPublic msg) = 32"
    and "Socket_sendFrame sock1 (''HELLO|'' @ helloFields (now 2) eph (randomBytes 16 r) @ ''|'' @ toHex (ed25519Sign P sk msg)) = (True, sock2)"
  shows "SecureChannel_accept P kg r now sock sk = Some (SecureChannel_init sock2 (sessionKey P eph clientPublic msg) False)"
  using assms by (simp add: SecureChannel_accept_def Let_def)

lemma hello_parses:
  assumes "length (kp_public eph) = 32" "length nonce = 16" "isFreshTimestamp now1 now2 (to_string_int t)"
  shows "parseHello now1 now2 (split (''HELLO|'' @ helloFields t eph nonce) CHR ''|'') 4 = Some (kp_public eph)"
  unfolding split_hello using assms by (simp add: parseHello_def fromHex_toHex)

section \<open>A sealed frame arrives\<close>

lemma seal_frame:
  assumes "gcm_total P" "length (sc_key c) = 32" "r \<noteq> None" "fitsInt (length plain)"
    and "sc_sendLabel c = ''client->tracker'' \<or> sc_sendLabel c = ''tracker->client''"
  shows "\<exists>m. encrypt P r (sc_key c) (sc_sendLabel c) plain = Some m \<and> seal P r c plain = gm_nonce m @ gm_tag m @ gm_ciphertext m \<and>
    length (seal P r c plain) = 28 + length plain"
proof -
  have "fitsInt (length (sc_sendLabel c))"
    using assms(5) by (auto simp: fitsInt_def INT_MAX_def)
  then obtain m where m: "encrypt P r (sc_key c) (sc_sendLabel c) plain = Some m"
    using encrypt_total [OF assms(1,2) _ assms(4)] assms(3) by blast
  with encrypt_SomeD [OF m] show ?thesis
    by (simp add: seal_def)
qed

lemma receive_sealed:
  assumes "gcm_correct P" "encrypt P r key label plain = Some m"
    and "Socket_receiveFrame (sc_socket c) = (Some (gm_nonce m @ gm_tag m @ gm_ciphertext m), sock)" "sc_key c = key" "sc_receiveLabel c = label"
  shows "SecureChannel_receive P c = (Some plain, c\<lparr>sc_socket := sock\<rparr>)"
  using assms encrypt_SomeD [OF assms(2)] decrypt_encrypt [OF assms(1,2)] by (cases m) (simp add: SecureChannel_receive_def)

section \<open>One call\<close>

text \<open>What the two sides write, as a function of what their machines gave them.\<close>

definition own_keys :: "keygen \<Rightarrow> KeyPair" where
  "own_keys kg = the (generateKeyPair kg)"

definition client_hello :: "call_env \<Rightarrow> string" where
  "client_hello ce = ''HELLO|'' @ helloFields (ce_clock ce 0) (own_keys (ce_keys ce)) (randomBytes 16 (ce_nonce ce))"

definition tracker_fields :: "server_env \<Rightarrow> string" where
  "tracker_fields se = helloFields (se_clock se 2) (own_keys (se_keys se)) (randomBytes 16 (se_nonce se))"

definition signed_text :: "call_env \<Rightarrow> server_env \<Rightarrow> string" where
  "signed_text ce se = transcript (client_hello ce) (tracker_fields se)"

definition tracker_hello :: "platform \<Rightarrow> string \<Rightarrow> call_env \<Rightarrow> server_env \<Rightarrow> string" where
  "tracker_hello P sk ce se = ''HELLO|'' @ tracker_fields se @ ''|'' @ toHex (ed25519Sign P sk (signed_text ce se))"

definition agreed_key :: "platform \<Rightarrow> call_env \<Rightarrow> server_env \<Rightarrow> string" where
  "agreed_key P ce se = sessionKey P (own_keys (ce_keys ce)) (kp_public (own_keys (se_keys se))) (signed_text ce se)"

definition sealed :: "platform \<Rightarrow> entropy \<Rightarrow> string \<Rightarrow> bool \<Rightarrow> string \<Rightarrow> string" where
  "sealed P r key client plain = seal P r (SecureChannel_init \<lparr>so_sends = [], so_recvs = [], so_in = [], so_out = []\<rparr> key client) plain"

lemma seal_sealed: "seal P r (SecureChannel_init sock key client) plain = sealed P r key client plain"
  by (simp add: sealed_def seal_def SecureChannel_init_def)

text \<open>Keys, random bytes and clocks: both key generators work and agree on a secret, the client holds the public key of
  the tracker's identity, all random bytes are there, and all clock readings are within the window of one another.\<close>

definition machines_work :: "platform \<Rightarrow> string \<Rightarrow> string \<Rightarrow> call_env \<Rightarrow> server_env \<Rightarrow> bool" where
  "machines_work P sk pk ce se \<longleftrightarrow>
     generateKeyPair (ce_keys ce) \<noteq> None \<and> generateKeyPair (se_keys se) \<noteq> None \<and> dh_agrees P (ce_keys ce) (se_keys se) \<and>
     length (agreed_key P ce se) = 32 \<and> ed25519Verify P pk (signed_text ce se) (ed25519Sign P sk (signed_text ce se)) \<and>
     ce_nonce ce \<noteq> None \<and> se_nonce se \<noteq> None \<and> ce_frame ce \<noteq> None \<and> se_frame se \<noteq> None \<and>
     (\<exists>now. 0 \<le> now \<and> now < 2 ^ 62 \<and>
        (\<forall>k. now \<le> ce_clock ce k \<and> ce_clock ce k \<le> now + 300 \<and> now \<le> se_clock se k \<and> se_clock se k \<le> now + 300))"

text \<open>The network: each side gets what the other writes, and the kernels move it.\<close>

definition bytes_move :: "call_env \<Rightarrow> server_env \<Rightarrow> string \<Rightarrow> string \<Rightarrow> string \<Rightarrow> string \<Rightarrow> bool" where
  "bytes_move ce se hello greeting request response \<longleftrightarrow>
     (\<exists>sock. ce_socket ce = Some sock \<and> so_out sock = [] \<and> so_out (se_socket se) = [] \<and>
        list_all (\<lambda>frame. int (length frame) \<le> MAX_FRAME) [hello, greeting, request, response] \<and>
        so_in (se_socket se) = frame_bytes hello @ frame_bytes request \<and> so_in sock = frame_bytes greeting @ frame_bytes response \<and>
        serves (so_sends sock) [4, length hello, 4, length request] \<and>
        serves (so_recvs (se_socket se)) [4, length hello, 4, length request] \<and>
        serves (so_sends (se_socket se)) [4, length greeting, 4, length response] \<and>
        serves (so_recvs sock) [4, length greeting, 4, length response])"

definition call_delivered :: "platform \<Rightarrow> string \<Rightarrow> string \<Rightarrow> call_env \<Rightarrow> server_env \<Rightarrow> string \<Rightarrow> string \<Rightarrow> bool" where
  "call_delivered P sk pk ce se message response \<longleftrightarrow> machines_work P sk pk ce se \<and> fitsInt (length message) \<and> fitsInt (length response) \<and>
     bytes_move ce se (client_hello ce) (tracker_hello P sk ce se) (sealed P (ce_frame ce) (agreed_key P ce se) True message)
       (sealed P (se_frame se) (agreed_key P ce se) False response)"

lemma machines_fresh:
  assumes "machines_work P sk pk ce se"
  shows "isFreshTimestamp (ce_clock ce 1) (ce_clock ce 2) (to_string_int (se_clock se 2))"
    "isFreshTimestamp (se_clock se 0) (se_clock se 1) (to_string_int (ce_clock ce 0))"
proof -
  obtain now where now: "0 \<le> now" "now < 2 ^ 62"
    "\<And>k. now \<le> ce_clock ce k \<and> ce_clock ce k \<le> now + 300 \<and> now \<le> se_clock se k \<and> se_clock se k \<le> now + 300"
    using assms by (auto simp: machines_work_def)
  show "isFreshTimestamp (ce_clock ce 1) (ce_clock ce 2) (to_string_int (se_clock se 2))"
    using now(1,2) now(3) [of 1] now(3) [of 2] by (auto intro!: fresh_own_clock)
  show "isFreshTimestamp (se_clock se 0) (se_clock se 1) (to_string_int (ce_clock ce 0))"
    using now(1,2) now(3) [of 1] now(3) [of 0] by (auto intro!: fresh_own_clock)
qed

lemma machines_keys:
  assumes "machines_work P sk pk ce se"
  shows "generateKeyPair (ce_keys ce) = Some (own_keys (ce_keys ce))" "generateKeyPair (se_keys se) = Some (own_keys (se_keys se))"
    "length (kp_public (own_keys (ce_keys ce))) = 32" "length (kp_public (own_keys (se_keys se))) = 32"
    "sessionKey P (own_keys (se_keys se)) (kp_public (own_keys (ce_keys ce))) (signed_text ce se) = agreed_key P ce se"
    "length (randomBytes 16 (ce_nonce ce)) = 16" "length (randomBytes 16 (se_nonce se)) = 16"
proof -
  show keys: "generateKeyPair (ce_keys ce) = Some (own_keys (ce_keys ce))" "generateKeyPair (se_keys se) = Some (own_keys (se_keys se))"
    using assms by (auto simp: machines_work_def own_keys_def)
  from generateKeyPair_lengths [OF keys(1)] generateKeyPair_lengths [OF keys(2)]
  show "length (kp_public (own_keys (ce_keys ce))) = 32" "length (kp_public (own_keys (se_keys se))) = 32"
    by simp_all
  show "sessionKey P (own_keys (se_keys se)) (kp_public (own_keys (ce_keys ce))) (signed_text ce se) = agreed_key P ce se"
    using assms keys by (simp add: machines_work_def dh_agrees_def agreed_key_def sessionKey_def)
  show "length (randomBytes 16 (ce_nonce ce)) = 16" "length (randomBytes 16 (se_nonce se)) = 16"
    using assms by (auto simp: machines_work_def)
qed

text \<open>The two ends after the handshake, and the frames that follow.\<close>

lemma handshake_delivered:
  assumes work: "machines_work P sk pk ce se"
    and sizes: "int (length (client_hello ce)) \<le> MAX_FRAME" "int (length (tracker_hello P sk ce se)) \<le> MAX_FRAME"
    and client: "so_in sock = frame_bytes (tracker_hello P sk ce se) @ restC" "so_out sock = []"
      "serves (so_sends sock) (4 # length (client_hello ce) # ns1)" "serves (so_recvs sock) (4 # length (tracker_hello P sk ce se) # ns2)"
    and tracker: "so_in ssock = frame_bytes (client_hello ce) @ restS" "so_out ssock = []"
      "serves (so_recvs ssock) (4 # length (client_hello ce) # ns3)" "serves (so_sends ssock) (4 # length (tracker_hello P sk ce se) # ns4)"
  shows "\<exists>sock' ssock'.
    SecureChannel_connect P (ce_keys ce) (ce_nonce ce) (ce_clock ce) sock pk = Some (SecureChannel_init sock' (agreed_key P ce se) True) \<and>
    SecureChannel_accept P (se_keys se) (se_nonce se) (se_clock se) ssock sk = Some (SecureChannel_init ssock' (agreed_key P ce se) False) \<and>
    so_in sock' = restC \<and> so_out sock' = frame_bytes (client_hello ce) \<and> serves (so_sends sock') ns1 \<and> serves (so_recvs sock') ns2 \<and>
    so_in ssock' = restS \<and> so_out ssock' = frame_bytes (tracker_hello P sk ce se) \<and> serves (so_recvs ssock') ns3 \<and> serves (so_sends ssock') ns4"
proof -
  note keys = machines_keys [OF work] and fresh = machines_fresh [OF work]
  have verified: "ed25519Verify P pk (signed_text ce se) (ed25519Sign P sk (signed_text ce se))" and key: "length (agreed_key P ce se) = 32"
    using work by (simp_all add: machines_work_def)
  obtain sock1 where sock1: "Socket_sendFrame sock (client_hello ce) = (True, sock1)" "so_out sock1 = frame_bytes (client_hello ce)"
      "so_in sock1 = so_in sock" "so_recvs sock1 = so_recvs sock" "serves (so_sends sock1) ns1"
    using Socket_sendFrame_serves [OF sizes(1) client(3)] client(2) by auto
  obtain sock2 where sock2: "Socket_receiveFrame sock1 = (Some (tracker_hello P sk ce se), sock2)" "so_in sock2 = restC"
      "so_out sock2 = so_out sock1" "so_sends sock2 = so_sends sock1" "serves (so_recvs sock2) ns2"
    using Socket_receiveFrame_serves [OF sizes(2), of sock1 ns2 restC] client(1,4) sock1(3,4) by auto
  obtain ssock1 where ssock1: "Socket_receiveFrame ssock = (Some (client_hello ce), ssock1)" "so_in ssock1 = restS" "so_out ssock1 = []"
      "so_sends ssock1 = so_sends ssock" "serves (so_recvs ssock1) ns3"
    using Socket_receiveFrame_serves [OF sizes(1) tracker(3,1)] tracker(2) by auto
  obtain ssock2 where ssock2: "Socket_sendFrame ssock1 (tracker_hello P sk ce se) = (True, ssock2)"
      "so_out ssock2 = frame_bytes (tracker_hello P sk ce se)" "so_in ssock2 = so_in ssock1" "so_recvs ssock2 = so_recvs ssock1"
      "serves (so_sends ssock2) ns4"
    using Socket_sendFrame_serves [OF sizes(2), of ssock1 ns4] tracker(4) ssock1(3,4) by auto
  have "SecureChannel_connect P (ce_keys ce) (ce_nonce ce) (ce_clock ce) sock pk = Some (SecureChannel_init sock2 (agreed_key P ce se) True)"
    unfolding agreed_key_def
    by (rule connect_completes [where now = "ce_clock ce", OF keys(1,6) sock1(1) [unfolded client_hello_def]
          sock2(1) [unfolded tracker_hello_def tracker_fields_def] keys(4,7) fresh(1) _ verified key [unfolded agreed_key_def]])
      (simp only: signed_text_def client_hello_def tracker_fields_def)
  moreover have "SecureChannel_accept P (se_keys se) (se_nonce se) (se_clock se) ssock sk = Some (SecureChannel_init ssock2 (agreed_key P ce se) False)"
  proof -
    have parses: "parseHello (se_clock se 0) (se_clock se 1) (split (client_hello ce) CHR ''|'') 4 = Some (kp_public (own_keys (ce_keys ce)))"
      unfolding client_hello_def by (rule hello_parses [OF keys(3,6) fresh(2)])
    have signs: "ed25519Sign P sk (signed_text ce se) \<noteq> []"
      using verified by (auto simp: ed25519Verify_def)
    have len: "length (sessionKey P (own_keys (se_keys se)) (kp_public (own_keys (ce_keys ce))) (signed_text ce se)) = 32"
      unfolding keys(5) by (rule key)
    from accept_steps [where now = "se_clock se", OF ssock1(1) parses keys(2,7) _ signs len
        ssock2(1) [unfolded tracker_hello_def tracker_fields_def]] show ?thesis
      unfolding keys(5) by (simp only: signed_text_def tracker_fields_def)
  qed
  ultimately show ?thesis
    using sock1 sock2 ssock1 ssock2 by (metis (no_types))
qed

lemma init_socket [simp]: "(SecureChannel_init sock key client)\<lparr>sc_socket := sock'\<rparr> = SecureChannel_init sock' key client"
  by (simp add: SecureChannel_init_def)

lemma sealed_delivered:
  assumes laws: "gcm_correct P" "gcm_total P" and key: "length key = 32" and r: "r \<noteq> None" and plain: "fitsInt (length plain)"
    and size: "int (length (sealed P r key client plain)) \<le> MAX_FRAME"
    and sends: "serves (so_sends a) (4 # length (sealed P r key client plain) # ns1)"
    and recvs: "serves (so_recvs b) (4 # length (sealed P r key client plain) # ns2)" "so_in b = frame_bytes (sealed P r key client plain) @ rest"
  shows "\<exists>a' b'. SecureChannel_send P r (SecureChannel_init a key client) plain = (True, SecureChannel_init a' key client) \<and>
    SecureChannel_receive P (SecureChannel_init b key (\<not> client)) = (Some plain, SecureChannel_init b' key (\<not> client)) \<and>
    so_in a' = so_in a \<and> so_recvs a' = so_recvs a \<and> so_out a' = so_out a @ frame_bytes (sealed P r key client plain) \<and> serves (so_sends a') ns1 \<and>
    so_in b' = rest \<and> so_sends b' = so_sends b \<and> so_out b' = so_out b \<and> serves (so_recvs b') ns2"
proof -
  let ?a = "SecureChannel_init a key client" and ?b = "SecureChannel_init b key (\<not> client)"
  have labels: "sc_key ?a = key" "sc_sendLabel ?a = ''client->tracker'' \<or> sc_sendLabel ?a = ''tracker->client''"
      "sc_receiveLabel ?b = sc_sendLabel ?a"
    by (cases client; simp)+
  obtain m where m: "encrypt P r key (sc_sendLabel ?a) plain = Some m"
      "sealed P r key client plain = gm_nonce m @ gm_tag m @ gm_ciphertext m"
    using seal_frame [OF laws(2), of ?a r plain] labels key r plain by (auto simp: seal_sealed)
  obtain a' where a': "Socket_sendFrame a (sealed P r key client plain) = (True, a')"
      "so_out a' = so_out a @ frame_bytes (sealed P r key client plain)" "so_in a' = so_in a" "so_recvs a' = so_recvs a" "serves (so_sends a') ns1"
    using Socket_sendFrame_serves [OF size sends] by blast
  obtain b' where b': "Socket_receiveFrame b = (Some (sealed P r key client plain), b')" "so_in b' = rest" "so_out b' = so_out b"
      "so_sends b' = so_sends b" "serves (so_recvs b') ns2"
    using Socket_receiveFrame_serves [OF size recvs] by blast
  have "SecureChannel_receive P ?b = (Some plain, SecureChannel_init b' key (\<not> client))"
    using receive_sealed [OF laws(1) m(1), of ?b b'] b'(1) m(2) labels(3) by simp
  moreover have "SecureChannel_send P r ?a plain = (True, SecureChannel_init a' key client)"
    using a'(1) by (simp add: SecureChannel_send_def seal_sealed)
  ultimately show ?thesis
    using a' b' by blast
qed

text \<open>The call succeeds, with the answer of the handler.\<close>

lemma call_answered:
  assumes laws: "gcm_correct P" "gcm_total P" and handled: "handle P message (se_client se) (se_context se) st = (response, line, st')"
    and delivered: "call_delivered P sk pk ce se message response"
  shows "\<exists>c s. callTracker P ce pk message = Some (response, c) \<and>
    tracker_connection P sk se st = ([log_info (''Connection from '' @ se_client se), line], st', Some s) \<and> connected ce se c s"
proof -
  let ?key = "agreed_key P ce se" and ?hello = "client_hello ce" and ?greeting = "tracker_hello P sk ce se"
  let ?request = "sealed P (ce_frame ce) ?key True message" and ?response = "sealed P (se_frame se) ?key False response"
  have work: "machines_work P sk pk ce se" and fits: "fitsInt (length message)" "fitsInt (length response)"
    using delivered by (simp_all add: call_delivered_def)
  have key: "length ?key = 32" and entropy: "ce_frame ce \<noteq> None" "se_frame se \<noteq> None"
    using work by (simp_all add: machines_work_def)
  obtain sock where net: "ce_socket ce = Some sock" "so_out sock = []" "so_out (se_socket se) = []"
      "int (length ?hello) \<le> MAX_FRAME" "int (length ?greeting) \<le> MAX_FRAME" "int (length ?request) \<le> MAX_FRAME" "int (length ?response) \<le> MAX_FRAME"
      "so_in (se_socket se) = frame_bytes ?hello @ frame_bytes ?request" "so_in sock = frame_bytes ?greeting @ frame_bytes ?response"
      "serves (so_sends sock) [4, length ?hello, 4, length ?request]" "serves (so_recvs (se_socket se)) [4, length ?hello, 4, length ?request]"
      "serves (so_sends (se_socket se)) [4, length ?greeting, 4, length ?response]" "serves (so_recvs sock) [4, length ?greeting, 4, length ?response]"
    using delivered by (auto simp: call_delivered_def bytes_move_def)
  obtain a b where hs:
      "SecureChannel_connect P (ce_keys ce) (ce_nonce ce) (ce_clock ce) sock pk = Some (SecureChannel_init a ?key True)"
      "SecureChannel_accept P (se_keys se) (se_nonce se) (se_clock se) (se_socket se) sk = Some (SecureChannel_init b ?key False)"
      "so_in a = frame_bytes ?response" "so_out a = frame_bytes ?hello" "serves (so_sends a) [4, length ?request]" "serves (so_recvs a) [4, length ?response]"
      "so_in b = frame_bytes ?request" "so_out b = frame_bytes ?greeting" "serves (so_recvs b) [4, length ?request]" "serves (so_sends b) [4, length ?response]"
    using handshake_delivered [OF work net(4,5) net(9,2,10,13) net(8,3,11,12)] by blast
  obtain a1 b1 where req:
      "SecureChannel_send P (ce_frame ce) (SecureChannel_init a ?key True) message = (True, SecureChannel_init a1 ?key True)"
      "SecureChannel_receive P (SecureChannel_init b ?key False) = (Some message, SecureChannel_init b1 ?key False)"
      "so_in a1 = so_in a" "so_recvs a1 = so_recvs a" "so_out a1 = so_out a @ frame_bytes ?request"
      "so_sends b1 = so_sends b" "so_out b1 = so_out b"
    using sealed_delivered [OF laws key entropy(1) fits(1) net(6) hs(5,9), of "[]"] hs(7) by auto
  obtain b2 a2 where res:
      "SecureChannel_send P (se_frame se) (SecureChannel_init b1 ?key False) response = (True, SecureChannel_init b2 ?key False)"
      "SecureChannel_receive P (SecureChannel_init a1 ?key True) = (Some response, SecureChannel_init a2 ?key True)"
      "so_out b2 = so_out b1 @ frame_bytes ?response" "so_out a2 = so_out a1"
    using sealed_delivered [OF laws key entropy(2) fits(2) net(7), of b1 "[]" a1 "[]" "[]"] hs(3,6,10) req(3,4,6) by auto
  have "callTracker P ce pk message = Some (response, SecureChannel_init a2 ?key True)"
    using net(1) hs(1) req(1) res(2) by (simp add: callTracker_def)
  moreover have "tracker_connection P sk se st = ([log_info (''Connection from '' @ se_client se), line], st', Some (SecureChannel_init b2 ?key False))"
    using hs(2) req(2) res(1) handled by (simp add: tracker_connection_def Let_def)
  moreover have "connected ce se (SecureChannel_init a2 ?key True) (SecureChannel_init b2 ?key False)"
    using net(1-3,8,9) hs(4,8) req(5,7) res(3,4) by (simp add: connected_def)
  ultimately show ?thesis
    by blast
qed

section \<open>One request\<close>

text \<open>The connection carries the request of the client for this command and the tracker's reply to it.\<close>

definition request_delivered ::
  "platform \<Rightarrow> string \<Rightarrow> TrackerClient \<Rightarrow> call_env \<Rightarrow> server_env \<Rightarrow> TrackerState \<Rightarrow> string \<Rightarrow> bool" where
  "request_delivered P sk tc ce se st command \<longleftrightarrow>
     (let result = fst (apply_command P (tc_session tc) command (se_context se) st) in
      call_delivered P sk (cc_trackerPublicKey (tc_config tc)) ce se
        (''C'' @ [TAB] @ to_string_u64 (tc_session tc) @ [TAB] @ command)
        (cr_response result @ [TAB] @ to_string_u64 (cr_session result)))"

lemma request_carried:
  assumes "gcm_correct P" "gcm_total P" "request_delivered P sk tc ce se st command"
    and "apply_command P (tc_session tc) command (se_context se) st = (result, st')"
  shows "TrackerClient_request P ce tc command = (True, cr_response result, tc\<lparr>tc_session := cr_session result\<rparr>)"
    "\<exists>logs c. tracker_connection P sk se st = (logs, st', Some c)"
proof -
  let ?message = "''C'' @ [TAB] @ to_string_u64 (tc_session tc) @ [TAB] @ command"
  let ?response = "cr_response result @ [TAB] @ to_string_u64 (cr_session result)"
  obtain line where "handle P ?message (se_client se) (se_context se) st = (?response, line, st')"
    using assms(4) unfolding handle_request by (auto simp: Let_def)
  then obtain c s where call: "callTracker P ce (cc_trackerPublicKey (tc_config tc)) ?message = Some (?response, c)"
      "tracker_connection P sk se st = ([log_info (''Connection from '' @ se_client se), line], st', Some s)"
    using call_answered [OF assms(1,2)] assms(3,4) unfolding request_delivered_def Let_def by (metis fst_conv)
  have "split_last_tab ?response = Some (cr_response result, to_string_u64 (cr_session result))"
    by (rule read_reply)
  then show "TrackerClient_request P ce tc command = (True, cr_response result, tc\<lparr>tc_session := cr_session result\<rparr>)"
    using call(1) by (simp add: TrackerClient_request_def parseU64_to_string)
  show "\<exists>logs c. tracker_connection P sk se st = (logs, st', Some c)"
    using call(2) by blast
qed

end
