(* ===== verification/Session_Demo.thy ===== *)
theory Session_Demo
  imports Tracker_Exchange
begin

text \<open>
  A concrete call to the tracker, for the witnesses: the frames both sides write, the channels they hold, and
  that the connection delivers them.
\<close>

section \<open>A concrete exchange\<close>

definition demo_socket :: "string \<Rightarrow> Socket" where
  "demo_socket input = \<lparr>so_sends = replicate 4 (Io_count 300), so_recvs = replicate 4 (Io_count 300),
     so_in = input, so_out = []\<rparr>"

definition demo_keys :: "char \<Rightarrow> keygen" where
  "demo_keys c = Some (replicate 32 c, replicate 32 c)"

definition demo_hello_text :: string where
  "demo_hello_text = ''HELLO|'' @ helloFields 1000 \<lparr>kp_private = replicate 32 CHR ''c'', kp_public = replicate 32 CHR ''c''\<rparr>
     (replicate 16 CHR ''n'')"

definition demo_fields :: string where
  "demo_fields = helloFields 1001 \<lparr>kp_private = replicate 32 CHR ''s'', kp_public = replicate 32 CHR ''s''\<rparr>
     (replicate 16 CHR ''m'')"

definition demo_identity :: string where "demo_identity = replicate 32 CHR ''i''"

definition demo_text :: string where "demo_text = transcript demo_hello_text demo_fields"

definition demo_hello :: string where "demo_hello = frame_bytes demo_hello_text"

definition demo_reply :: string where
  "demo_reply = frame_bytes (''HELLO|'' @ demo_fields @ ''|'' @ toHex (ed25519Sign toy_platform demo_identity demo_text))"

definition demo_session_key :: string where
  "demo_session_key = sha256 toy_platform
     (x25519SharedSecret toy_platform (replicate 32 CHR ''c'') (replicate 32 CHR ''s'') @ demo_text)"

definition demo_channel :: "string \<Rightarrow> string \<Rightarrow> bool \<Rightarrow> SecureChannel" where
  "demo_channel input output client = SecureChannel_init \<lparr>so_sends = replicate 2 (Io_count 300),
     so_recvs = replicate 2 (Io_count 300), so_in = input, so_out = output\<rparr> demo_session_key client"

definition demo_message :: string where
  "demo_message = ''C'' @ [TAB] @ ''9'' @ [TAB] @ ''list_groups''"

definition demo_request :: string where
  "demo_request = frame_bytes (seal toy_platform (Some (\<lambda>_. CHR ''x'')) (demo_channel [] [] True) demo_message)"

definition demo_answer :: string where
  "demo_answer = frame_bytes (seal toy_platform (Some (\<lambda>_. CHR ''y'')) (demo_channel [] [] False) (''OK g'' @ [TAB] @ ''9''))"

definition demo_call :: call_env where
  "demo_call = \<lparr>ce_socket = Some (demo_socket (demo_reply @ demo_answer)), ce_keys = demo_keys CHR ''c'',
     ce_nonce = Some (\<lambda>_. CHR ''n''), ce_clock = (\<lambda>_. 1000), ce_frame = Some (\<lambda>_. CHR ''x'')\<rparr>"

definition demo_serve :: server_env where
  "demo_serve = \<lparr>se_socket = demo_socket (demo_hello @ demo_request), se_keys = demo_keys CHR ''s'',
     se_nonce = Some (\<lambda>_. CHR ''m''), se_clock = (\<lambda>_. 1001), se_frame = Some (\<lambda>_. CHR ''y''),
     se_context = demo_context 0, se_peer = Some \<lparr>ep_ip = ''1.2.3.4'', ep_port = 5\<rparr>\<rparr>"

lemma demo_connect:
  "SecureChannel_connect toy_platform (ce_keys demo_call) (ce_nonce demo_call) (ce_clock demo_call)
     (demo_socket (demo_reply @ demo_answer)) demo_identity = Some (demo_channel demo_answer demo_hello True)"
  by code_simp

lemma demo_accept:
  "SecureChannel_accept toy_platform (se_keys demo_serve) (se_nonce demo_serve) (se_clock demo_serve)
     (demo_socket (demo_hello @ demo_request)) demo_identity = Some (demo_channel demo_request demo_reply False)"
  by code_simp

lemma demo_channel_fields [simp]:
  "so_in (sc_socket (demo_channel i out b)) = i" "so_out (sc_socket (demo_channel i out b)) = out"
  by (simp_all add: demo_channel_def)

lemma demo_dh: "dh_agrees toy_platform (ce_keys demo_call) (se_keys demo_serve)"
proof -
  have "x25519SharedSecret toy_platform (replicate 32 CHR ''c'') (replicate 32 CHR ''s'') =
      x25519SharedSecret toy_platform (replicate 32 CHR ''s'') (replicate 32 CHR ''c'')"
    by code_simp
  then show ?thesis
    by (simp add: dh_agrees_def demo_call_def demo_serve_def demo_keys_def generateKeyPair_def)
qed

definition demo_end :: "string \<Rightarrow> bool \<Rightarrow> SecureChannel" where
  "demo_end output client = SecureChannel_init \<lparr>so_sends = [], so_recvs = [], so_in = [], so_out = output\<rparr>
     demo_session_key client"

lemma demo_end_fields [simp]: "so_out (sc_socket (demo_end out b)) = out"
  by (simp add: demo_end_def)

lemma demo_client_exchange:
  "SecureChannel_receive toy_platform (snd (SecureChannel_send toy_platform (ce_frame demo_call)
     (demo_channel demo_answer demo_hello True) demo_message)) =
     (Some (''OK g'' @ [TAB] @ ''9''), demo_end (demo_hello @ demo_request) True)"
  "fst (SecureChannel_send toy_platform (ce_frame demo_call) (demo_channel demo_answer demo_hello True) demo_message)"
  by code_simp+

lemma demo_called:
  "callTracker toy_platform demo_call demo_identity demo_message =
     Some (''OK g'' @ [TAB] @ ''9'', demo_end (demo_hello @ demo_request) True)"
proof -
  have "ce_socket demo_call = Some (demo_socket (demo_reply @ demo_answer))"
    by (simp add: demo_call_def)
  with demo_connect demo_client_exchange show ?thesis
    by (simp add: callTracker_def case_prod_beta)
qed

lemma demo_server_exchange:
  "SecureChannel_receive toy_platform (demo_channel demo_request demo_reply False) =
     (Some demo_message, SecureChannel_init \<lparr>so_sends = replicate 2 (Io_count 300), so_recvs = [], so_in = [],
        so_out = demo_reply\<rparr> demo_session_key False)"
  "SecureChannel_send toy_platform (se_frame demo_serve) (SecureChannel_init \<lparr>so_sends = replicate 2 (Io_count 300),
     so_recvs = [], so_in = [], so_out = demo_reply\<rparr> demo_session_key False) (''OK g'' @ [TAB] @ ''9'') =
     (True, demo_end (demo_reply @ demo_answer) False)"
  "handle toy_platform demo_message (se_client demo_serve) (se_context demo_serve) demo_state =
     (''OK g'' @ [TAB] @ ''9'', ''bob @ 1.2.3.4:5: list_groups -> OK g'', demo_state)"
  by code_simp+

lemma demo_served:
  "tracker_connection toy_platform demo_identity demo_serve demo_state =
     ([''Connection from 1.2.3.4:5'', ''bob @ 1.2.3.4:5: list_groups -> OK g''], demo_state,
      Some (demo_end (demo_reply @ demo_answer) False))"
proof -
  have "se_socket demo_serve = demo_socket (demo_hello @ demo_request)" 
    by (simp add: demo_serve_def)
  moreover have "se_client demo_serve = ''1.2.3.4:5''"
    by code_simp
  ultimately show ?thesis
    using demo_accept demo_server_exchange by (simp add: tracker_connection_def Let_def log_info_def)
qed

lemma demo_connected:
  "connected demo_call demo_serve (demo_end (demo_hello @ demo_request) True) (demo_end (demo_reply @ demo_answer) False)"
  by (simp add: connected_def demo_call_def demo_serve_def demo_socket_def)

definition demo_client :: TrackerClient where
  "demo_client = \<lparr>tc_config = \<lparr>cc_tracker = \<lparr>ep_ip = ''1.1.1.1'', ep_port = 9\<rparr>, cc_trackerPublicKey = demo_identity\<rparr>,
     tc_self = \<lparr>ep_ip = ''5.6.7.8'', ep_port = 81\<rparr>, tc_peerKey = replicate 32 CHR ''k'', tc_session = 9\<rparr>"

section \<open>The connection delivers\<close>

lemma demo_texts:
  "client_hello demo_call = demo_hello_text" "tracker_hello toy_platform demo_identity demo_call demo_serve =
     ''HELLO|'' @ demo_fields @ ''|'' @ toHex (ed25519Sign toy_platform demo_identity demo_text)"
  "signed_text demo_call demo_serve = demo_text" "agreed_key toy_platform demo_call demo_serve = demo_session_key"
proof -
  have keys: "own_keys (ce_keys demo_call) = \<lparr>kp_private = replicate 32 CHR ''c'', kp_public = replicate 32 CHR ''c''\<rparr>"
      "own_keys (se_keys demo_serve) = \<lparr>kp_private = replicate 32 CHR ''s'', kp_public = replicate 32 CHR ''s''\<rparr>"
      "randomBytes 16 (ce_nonce demo_call) = replicate 16 CHR ''n''" "randomBytes 16 (se_nonce demo_serve) = replicate 16 CHR ''m''"
    by code_simp+
  then show hello: "client_hello demo_call = demo_hello_text"
    by (simp add: client_hello_def demo_hello_text_def demo_call_def)
  have fields: "tracker_fields demo_serve = demo_fields"
    using keys by (simp add: tracker_fields_def demo_fields_def demo_serve_def)
  then show signed: "signed_text demo_call demo_serve = demo_text"
    by (simp add: signed_text_def hello demo_text_def)
  show "tracker_hello toy_platform demo_identity demo_call demo_serve =
      ''HELLO|'' @ demo_fields @ ''|'' @ toHex (ed25519Sign toy_platform demo_identity demo_text)"
    by (simp add: tracker_hello_def fields signed)
  have "x25519SharedSecret toy_platform (replicate 32 CHR ''c'') (replicate 32 CHR ''s'') \<noteq> []"
    by code_simp
  then show "agreed_key toy_platform demo_call demo_serve = demo_session_key"
    unfolding agreed_key_def signed keys demo_session_key_def sessionKey_def by (simp add: Let_def)
qed

lemma demo_lengths:
  "list_all (\<lambda>frame. 0 < length frame \<and> length frame \<le> 300) [demo_hello_text, ''HELLO|'' @ demo_fields @ ''|'' @ toHex (ed25519Sign toy_platform demo_identity demo_text),
     sealed toy_platform (Some (\<lambda>_. CHR ''x'')) demo_session_key True demo_message,
     sealed toy_platform (Some (\<lambda>_. CHR ''y'')) demo_session_key False (''OK g'' @ [TAB] @ ''9'')]"
  "length demo_session_key = 32"
  "ed25519Verify toy_platform demo_identity demo_text (ed25519Sign toy_platform demo_identity demo_text)"
  by code_simp+

text \<open>Four calls that may move 300 bytes each are enough for two short frames.\<close>

lemma serves_300:
  assumes "0 < n" "n \<le> 300" "0 < m" "m \<le> 300"
  shows "serves (replicate 4 (Io_count 300)) [4, n, 4, m]"
proof -
  have "replicate 4 (Io_count 300) = [Io_count 300, Io_count 300, Io_count 300, Io_count 300]"
    by (simp add: numeral_eq_Suc)
  with assms show ?thesis
    by (simp only: serves_count serves.simps)
qed

lemma short_frames_move:
  assumes "ce_socket ce = Some (demo_socket (frame_bytes greeting @ frame_bytes response))"
    and "se_socket se = demo_socket (frame_bytes hello @ frame_bytes request)"
    and "list_all (\<lambda>frame. 0 < length frame \<and> length frame \<le> 300) [hello, greeting, request, response]"
  shows "bytes_move ce se hello greeting request response"
  unfolding bytes_move_def
  by (intro exI [of _ "demo_socket (frame_bytes greeting @ frame_bytes response)"] conjI)
    (use assms in \<open>simp_all add: demo_socket_def serves_300 MAX_FRAME_def\<close>)

lemma demo_works: "machines_work toy_platform demo_identity demo_identity demo_call demo_serve"
proof -
  have "\<exists>now. 0 \<le> now \<and> now < 2 ^ 62 \<and> (\<forall>k. now \<le> ce_clock demo_call k \<and> ce_clock demo_call k \<le> now + 300 \<and>
      now \<le> se_clock demo_serve k \<and> se_clock demo_serve k \<le> now + 300)"
    by (intro exI [of _ 1000]) (simp add: demo_call_def demo_serve_def)
  moreover have "generateKeyPair (ce_keys demo_call) \<noteq> None" "generateKeyPair (se_keys demo_serve) \<noteq> None"
      "ce_nonce demo_call \<noteq> None" "se_nonce demo_serve \<noteq> None" "ce_frame demo_call \<noteq> None" "se_frame demo_serve \<noteq> None"
    by (simp_all add: demo_call_def demo_serve_def demo_keys_def generateKeyPair_def)
  ultimately show ?thesis
    using demo_dh demo_lengths(2,3) by (simp add: machines_work_def demo_texts)
qed

lemma demo_delivered: "request_delivered toy_platform demo_identity demo_client demo_call demo_serve demo_state ''list_groups''"
proof -
  let ?greeting = "''HELLO|'' @ demo_fields @ ''|'' @ toHex (ed25519Sign toy_platform demo_identity demo_text)"
  let ?request = "sealed toy_platform (Some (\<lambda>_. CHR ''x'')) demo_session_key True demo_message"
  let ?response = "sealed toy_platform (Some (\<lambda>_. CHR ''y'')) demo_session_key False (''OK g'' @ [TAB] @ ''9'')"
  have run: "apply_command toy_platform 9 ''list_groups'' (demo_context 0) demo_state = (\<lparr>cr_response = ''OK g'', cr_session = 9\<rparr>, demo_state)"
      "''C'' @ [TAB] @ ''9'' @ [TAB] @ ''list_groups'' = demo_message" "to_string_u64 9 = ''9''"
    by code_simp+
  have frames: "demo_hello = frame_bytes demo_hello_text" "demo_reply = frame_bytes ?greeting" "demo_request = frame_bytes ?request"
      "demo_answer = frame_bytes ?response"
    by (simp_all only: demo_hello_def demo_reply_def demo_request_def demo_answer_def demo_channel_def seal_sealed)
  have "bytes_move demo_call demo_serve demo_hello_text ?greeting ?request ?response"
    by (rule short_frames_move [OF _ _ demo_lengths(1)]) (simp_all only: demo_call_def demo_serve_def frames call_env.simps server_env.simps)
  moreover have fields: "ce_frame demo_call = Some (\<lambda>_. CHR ''x'')" "se_frame demo_serve = Some (\<lambda>_. CHR ''y'')"
      "se_context demo_serve = demo_context 0" "tc_session demo_client = 9" "cc_trackerPublicKey (tc_config demo_client) = demo_identity"
    by (simp_all add: demo_call_def demo_serve_def demo_client_def)
  moreover have "fitsInt (length demo_message)" "fitsInt (length (''OK g'' @ [TAB] @ ''9''))"
    by (simp_all add: demo_message_def fitsInt_def INT_MAX_def)
  ultimately show ?thesis
    unfolding request_delivered_def call_delivered_def demo_texts fields run Let_def fst_conv CommandResult.simps
    using demo_works by blast
qed

end
