(* ===== verification/Session_Properties.thy ===== *)
theory Session_Properties
  imports Session_Demo
begin

text \<open>
  Properties of the client and the tracker talking over a connection: the handshake, one request,
  the two commands the client builds itself, the log, the configuration files.
\<close>

section \<open>The handshake\<close>

lemma hello_has_four_fields: "length (split (''HELLO|'' @ helloFields now eph nonce) CHR ''|'') = 4"
  unfolding hello_split by (simp add: split_no_delim bar_not_in_decimal)

text \<open>C12: Whatever the network does, a client that gets a channel got it from a run of the tracker: if the
  pinned key verifies only what runs of the tracker have signed with its private key, then one of these runs
  read exactly this client's hello and signed the transcript that the client checked; the client's session key
  is computed from the ephemeral key of that very run and that transcript; and if the run itself
  came to a channel, it holds the same key (X25519 agreeing on both sides).\<close>

theorem connect_authenticates:
  assumes "SecureChannel_connect P kg r now sock pk = Some c"
    and "\<And>msg sig. ed25519Verify P pk msg sig \<Longrightarrow> \<exists>run\<in>set runs. \<exists>hello eph. accept_signs P identity run = Some (hello, eph, msg)"
  shows "\<exists>own run hello eph text. generateKeyPair kg = Some own \<and> run \<in> set runs \<and>
    hello = ''HELLO|'' @ helloFields (now 0) own (randomBytes 16 r) \<and>
    accept_signs P identity run = Some (hello, eph, text) \<and> sc_key c = sessionKey P own (kp_public eph) text \<and>
    (\<forall>s. accept_in P identity run = Some s \<and> dh_agrees P kg (ar_keys run) \<longrightarrow> sc_key s = sc_key c)"
  using assms(1)
proof (rule connect_Some)
  fix own sock1 reply sock2 serverPublic sig msg
  let ?hello = "''HELLO|'' @ helloFields (now 0) own (randomBytes 16 r)"
  let ?ps = "split reply CHR ''|''"
  assume own: "generateKeyPair kg = Some own" and parsed: "parseHello (now 1) (now 2) ?ps 5 = Some serverPublic"
    and msg: "msg = transcript ?hello (?ps ! 1 @ ''|'' @ ?ps ! 2 @ ''|'' @ ?ps ! 3)"
    and verified: "ed25519Verify P pk msg sig" and c: "c = SecureChannel_init sock2 (sessionKey P own serverPublic msg) True"
  obtain run hello eph where signs: "run \<in> set runs" "accept_signs P identity run = Some (hello, eph, msg)"
    using assms(2) [OF verified] by blast
  define parts where "parts = helloFields (ar_clock run 2) eph (randomBytes 16 (ar_nonce run))"
  obtain key where run: "parseHello (ar_clock run 0) (ar_clock run 1) (split hello CHR ''|'') 4 = Some key"
      "msg = transcript hello parts" "generateKeyPair (ar_keys run) = Some eph"
    using accept_signs_Some [OF signs(2)] by (auto simp: parts_def)
  have "transcript ?hello (?ps ! 1 @ ''|'' @ ?ps ! 2 @ ''|'' @ ?ps ! 3) = transcript hello parts"
    using msg run(2) by simp
  then have same: "hello = ?hello" "parts = ?ps ! 1 @ ''|'' @ ?ps ! 2 @ ''|'' @ ?ps ! 3"
    using transcript_inject hello_has_four_fields parseHello_Some [OF run(1)] by metis+
  have server: "serverPublic = kp_public eph"
  proof -
    have ps: "length ?ps = 5" "fromHex (?ps ! 1) = Some serverPublic"
      using parseHello_Some [OF parsed] by simp_all
    then have "CHR ''|'' \<notin> set (?ps ! 1)"
      by (intro split_parts [of _ reply]) simp
    moreover have "CHR ''|'' \<notin> set (toHex (kp_public eph))"
      by (auto dest: toHex_chars)
    ultimately have "?ps ! 1 = toHex (kp_public eph)"
      using same(2) split_at_delim [of "CHR ''|''"] by (metis append_Cons append_Nil helloFields_def list.inject parts_def)
    then show ?thesis
      using ps(2) by (simp add: fromHex_toHex)
  qed
  have "key = kp_public own"
    using client_fields [OF run(1) [unfolded same(1)]] .
  then have "sc_key s = sc_key c" if "accept_in P identity run = Some s" "dh_agrees P kg (ar_keys run)" for s
    using that own run(1,3) unfolding accept_by_signing signs(2)
    by (auto simp: c server Let_def dh_agrees_def sessionKey_def split: prod.splits bool.splits if_splits)
  with own c same(1) signs server show ?thesis
    by (intro exI [of _ own] exI [of _ run] exI [of _ ?hello] exI [of _ eph] exI [of _ msg]) simp
qed

text \<open>A pinned key under which nothing verifies but the one signature that the tracker's run made; of its two runs,
  the other was given no bytes at all.\<close>

definition demo_signing :: platform where
  "demo_signing = toy_platform\<lparr>pf_ed25519_verify := (\<lambda>k msg sig.
     k = demo_identity \<and> msg = demo_text \<and> sig = ed25519Sign toy_platform demo_identity demo_text)\<rparr>"

definition demo_run_of_tracker :: accept_run where
  "demo_run_of_tracker = \<lparr>ar_keys = se_keys demo_serve, ar_nonce = se_nonce demo_serve, ar_clock = se_clock demo_serve,
     ar_socket = se_socket demo_serve\<rparr>"

theorem connect_authenticates_witness:
  "\<exists>own run hello eph text. generateKeyPair (ce_keys demo_call) = Some own \<and>
    run \<in> set [demo_run_of_tracker\<lparr>ar_socket := demo_socket []\<rparr>, demo_run_of_tracker] \<and>
    hello = ''HELLO|'' @ helloFields (ce_clock demo_call 0) own (randomBytes 16 (ce_nonce demo_call)) \<and>
    accept_signs demo_signing demo_identity run = Some (hello, eph, text) \<and>
    sc_key (demo_channel demo_answer demo_hello True) = sessionKey demo_signing own (kp_public eph) text \<and>
    (\<forall>s. accept_in demo_signing demo_identity run = Some s \<and> dh_agrees demo_signing (ce_keys demo_call) (ar_keys run) \<longrightarrow>
       sc_key s = sc_key (demo_channel demo_answer demo_hello True))"
proof (rule connect_authenticates)
  show "SecureChannel_connect demo_signing (ce_keys demo_call) (ce_nonce demo_call) (ce_clock demo_call)
      (demo_socket (demo_reply @ demo_answer)) demo_identity = Some (demo_channel demo_answer demo_hello True)"
    by code_simp
  fix msg sig
  assume "ed25519Verify demo_signing demo_identity msg sig"
  then have msg: "msg = demo_text"
    by (simp add: ed25519Verify_def demo_signing_def split: if_splits)
  have "accept_signs demo_signing demo_identity demo_run_of_tracker =
      Some (demo_hello_text, \<lparr>kp_private = replicate 32 CHR ''s'', kp_public = replicate 32 CHR ''s''\<rparr>, demo_text)"
    by code_simp
  then show "\<exists>run\<in>set [demo_run_of_tracker\<lparr>ar_socket := demo_socket []\<rparr>, demo_run_of_tracker].
      \<exists>hello eph. accept_signs demo_signing demo_identity run = Some (hello, eph, msg)"
    unfolding msg by auto
qed

text \<open>C13: When each side receives what the other wrote, both hold the same 32-byte session key,
  what one labels as sent the other expects as received, the two directions have different
  labels, and the bytes after the handshake are still to be read.\<close>

theorem handshake_agreement:
  assumes "SecureChannel_connect P kgC rC nowC sockC pk = Some c" "SecureChannel_accept P kgS rS nowS sockS sk = Some s"
    and "so_out sockC = []" "so_out sockS = []"
    and "so_in sockS = so_out (sc_socket c) @ restC" "so_in sockC = so_out (sc_socket s) @ restS"
    and "dh_agrees P kgC kgS"
  shows "sc_key c = sc_key s \<and> length (sc_key c) = 32 \<and> sc_sendLabel c = sc_receiveLabel s \<and>
    sc_sendLabel s = sc_receiveLabel c \<and> sc_sendLabel c \<noteq> sc_sendLabel s \<and>
    so_in (sc_socket c) = restS \<and> so_in (sc_socket s) = restC"
proof -
  have "length (sc_key c) = 32 \<and> sc_sendLabel c = ''client->tracker'' \<and> sc_receiveLabel c = ''tracker->client''"
    using assms(1) by (auto elim!: connect_Some)
  moreover have "sc_sendLabel s = ''tracker->client'' \<and> sc_receiveLabel s = ''client->tracker''"
    using assms(2) by (auto elim!: accept_Some)
  ultimately show ?thesis
    using handshake_pairs [OF assms] by simp
qed

theorem handshake_agreement_witness:
  "sc_key (demo_channel demo_answer demo_hello True) = sc_key (demo_channel demo_request demo_reply False) \<and>
   length (sc_key (demo_channel demo_answer demo_hello True)) = 32 \<and>
   sc_sendLabel (demo_channel demo_answer demo_hello True) = sc_receiveLabel (demo_channel demo_request demo_reply False) \<and>
   sc_sendLabel (demo_channel demo_request demo_reply False) = sc_receiveLabel (demo_channel demo_answer demo_hello True) \<and>
   sc_sendLabel (demo_channel demo_answer demo_hello True) \<noteq> sc_sendLabel (demo_channel demo_request demo_reply False) \<and>
   so_in (sc_socket (demo_channel demo_answer demo_hello True)) = demo_answer \<and>
   so_in (sc_socket (demo_channel demo_request demo_reply False)) = demo_request"
  by (rule handshake_agreement [OF demo_connect demo_accept])
    (simp_all add: demo_dh, simp_all add: demo_socket_def)

section \<open>One request\<close>

lemma request_ran:
  assumes "gcm_correct P" "dh_agrees P (ce_keys ce) (se_keys se)"
    and "callTracker P ce (cc_trackerPublicKey (tc_config tc))
      (''C'' @ [TAB] @ to_string_u64 (tc_session tc) @ [TAB] @ command) = Some (full, c2)"
    and "tracker_connection P sk se st = (logs, st', Some s2)" "connected ce se c2 s2"
  shows "\<exists>response tc'. TrackerClient_request P ce tc command = (True, response, tc') \<and>
    apply_command P (tc_session tc) command (se_context se) st =
      (\<lparr>cr_response = response, cr_session = tc_session tc'\<rparr>, st') \<and> tc' = tc\<lparr>tc_session := tc_session tc'\<rparr>"
proof -
  obtain line where handled: "handle P (''C'' @ [TAB] @ to_string_u64 (tc_session tc) @ [TAB] @ command)
      (se_client se) (se_context se) st = (full, line, st')"
    using exchange [OF assms] by blast
  obtain result where run: "apply_command P (tc_session tc) command (se_context se) st = (result, st')"
      and full: "full = cr_response result @ [TAB] @ to_string_u64 (cr_session result)"
    using handled unfolding handle_request by (auto simp: Let_def split: prod.splits)
  have "split_last_tab full = Some (cr_response result, to_string_u64 (cr_session result))"
    unfolding full by (rule read_reply)
  then have "TrackerClient_request P ce tc command = (True, cr_response result, tc\<lparr>tc_session := cr_session result\<rparr>)"
    using assms(3) by (simp add: TrackerClient_request_def parseU64_to_string)
  with run show ?thesis
    by simp
qed

text \<open>C14: In an exchange that nobody disturbs - each side receives what the other wrote, both sides come to the end
  (\<open>callTracker\<close> got a reply, the tracker's handler has its channel until it is done), AES-GCM and X25519
  do what they should - the tracker ran exactly the command that was asked for, under the client's
  session; the response and session the client keeps are the ones the tracker's state machine
  produced; and the tracker's state is that command's result.\<close>

theorem request_runs_command:
  assumes "gcm_correct P" "dh_agrees P (ce_keys ce) (se_keys se)"
    and "callTracker P ce (cc_trackerPublicKey (tc_config tc))
      (''C'' @ [TAB] @ to_string_u64 (tc_session tc) @ [TAB] @ command) = Some (full, c2)"
    and "tracker_connection P sk se st = (logs, st', Some s2)" "connected ce se c2 s2"
  shows "\<exists>response tc'. TrackerClient_request P ce tc command = (True, response, tc') \<and>
    apply_command P (tc_session tc) command (se_context se) st =
      (\<lparr>cr_response = response, cr_session = tc_session tc'\<rparr>, st') \<and> tc' = tc\<lparr>tc_session := tc_session tc'\<rparr>"
  using assms by (rule request_ran)

theorem request_runs_command_witness:
  "\<exists>response tc'. TrackerClient_request toy_platform demo_call demo_client ''list_groups'' = (True, response, tc') \<and>
    apply_command toy_platform (tc_session demo_client) ''list_groups'' (se_context demo_serve) demo_state =
      (\<lparr>cr_response = response, cr_session = tc_session tc'\<rparr>, demo_state) \<and> tc' = demo_client\<lparr>tc_session := tc_session tc'\<rparr>"
proof (rule request_runs_command [OF _ demo_dh _ demo_served demo_connected])
  have "''C'' @ [TAB] @ to_string_u64 (tc_session demo_client) @ [TAB] @ ''list_groups'' = demo_message"
    by code_simp
  with demo_called show "callTracker toy_platform demo_call (cc_trackerPublicKey (tc_config demo_client))
      (''C'' @ [TAB] @ to_string_u64 (tc_session demo_client) @ [TAB] @ ''list_groups'') =
    Some (''OK g'' @ [TAB] @ ''9'', demo_end (demo_hello @ demo_request) True)"
    by (simp add: demo_client_def)
qed simp

text \<open>C16: A request is answered: when both machines work - keys, random bytes, clocks within five minutes of one
  another, the pinned key belongs to the tracker's identity - and the kernels move the bytes between them,
  then the handshake completes on both sides, the tracker runs the command, and the client has its
  response and session.\<close>

theorem request_is_answered:
  assumes "gcm_correct P" "gcm_total P" "request_delivered P sk tc ce se st command"
    and "apply_command P (tc_session tc) command (se_context se) st = (result, st')"
  shows "TrackerClient_request P ce tc command = (True, cr_response result, tc\<lparr>tc_session := cr_session result\<rparr>) \<and>
    (\<exists>logs c. tracker_connection P sk se st = (logs, st', Some c))"
  using request_carried [OF assms] by blast

theorem request_is_answered_witness:
  "TrackerClient_request toy_platform demo_call demo_client ''list_groups'' = (True, ''OK g'', demo_client)"
proof -
  have "apply_command toy_platform (tc_session demo_client) ''list_groups'' (se_context demo_serve) demo_state =
      (\<lparr>cr_response = ''OK g'', cr_session = 9\<rparr>, demo_state)"
    by code_simp
  from request_is_answered [OF _ _ demo_delivered this] show ?thesis
    by (simp add: demo_client_def)
qed

section \<open>Sharing and locating\<close>

text \<open>C15: A member's \<open>share\<close> is accepted exactly if the file is not listed with other metadata.  If it is
  accepted, the tracker lists the file with the client's metadata and the client as seeder, with the address and
  peer key it holds; otherwise the tracker answers that the metadata conflict and changes nothing.\<close>

theorem share_accepted:
  assumes "client_ok P tc" "word_ok n" "name \<noteq> []" "valid m"
    and "findGroup (tracker_after P h) n = Some g" "userOf (tracker_after P h) s \<in> set (gr_members g)"
  shows "if \<exists>f. om_find (gr_files g) name = Some f \<and> sf_metadata f \<noteq> m
    then apply_command P s (shareCommand tc n name m) cx (tracker_after P h) =
      (\<lparr>cr_response = ''ERR conflicting file metadata'', cr_session = s\<rparr>, tracker_after P h)
    else \<exists>st' g' f'. apply_command P s (shareCommand tc n name m) cx (tracker_after P h) =
        (\<lparr>cr_response = ''OK file shared'', cr_session = s\<rparr>, st') \<and>
      findGroup st' n = Some g' \<and> om_find (gr_files g') name = Some f' \<and> sf_metadata f' = m \<and>
      om_find (sf_seeders f') (userOf (tracker_after P h) s) =
        Some \<lparr>sd_endpoint = tc_self tc, sd_peerKey = tc_peerKey tc\<rparr>"
proof -
  let ?st = "tracker_after P h"
  note ok = tracker_okD(7) [OF tracker_after_ok assms(5)]
  have user: "userOf ?st s \<noteq> []"
    using assms(6) tracker_okD(5,6) [OF tracker_after_ok] ok by (fastforce simp: group_ok_def)
  note run = apply_command_def shareCommand_words [OF assms(1-4)] uploadFile_def share_arguments [OF assms(1,3,4)]
    emptyFile_def Let_def reply_def
  show ?thesis
  proof (cases "om_find (gr_files g) name")
    case None
    then show ?thesis
      using assms(5,6) user by (auto simp: run findGroup_putGroup om_find_insert om_find_Cons)
  next
    case (Some f)
    have f: "fm_fullHash (sf_metadata f) \<noteq> []" "om_insert name f (gr_files g) = gr_files g"
      using ok Some by (auto simp: group_ok_def om_insert_same file_ok_def valid_fullHash)
    then have "putGroup n (g\<lparr>gr_files := om_insert name f (gr_files g)\<rparr>) ?st = ?st"
      using putGroup_same [OF tracker_after_ok assms(5)] by simp
    with Some f show ?thesis
      using assms(5,6) user by (auto simp: run findGroup_putGroup om_find_insert om_find_Cons sameContent_iff)
  qed
qed

theorem share_accepted_witness:
  "(\<exists>st' g' f'. apply_command toy_platform 7 (shareCommand demo_client ''g'' ''f'' (sf_metadata demo_file)) (demo_context 0)
      (tracker_after toy_platform demo_history) = (\<lparr>cr_response = ''OK file shared'', cr_session = 7\<rparr>, st') \<and>
    findGroup st' ''g'' = Some g' \<and> om_find (gr_files g') ''f'' = Some f' \<and> sf_metadata f' = sf_metadata demo_file \<and>
    om_find (sf_seeders f') (userOf (tracker_after toy_platform demo_history) 7) =
      Some \<lparr>sd_endpoint = tc_self demo_client, sd_peerKey = tc_peerKey demo_client\<rparr>) \<and>
   apply_command toy_platform 7 (shareCommand demo_client ''g'' ''f'' (sf_metadata demo_file\<lparr>fm_size := 6\<rparr>)) (demo_context 0)
      (tracker_after toy_platform demo_history) =
     (\<lparr>cr_response = ''ERR conflicting file metadata'', cr_session = 7\<rparr>, tracker_after toy_platform demo_history)"
proof -
  have ok: "client_ok toy_platform demo_client" "word_ok ''g''" "(''f'' :: string) \<noteq> []" "valid (sf_metadata demo_file)"
    "valid (sf_metadata demo_file\<lparr>fm_size := 6\<rparr>)"
    by code_simp+
  have "userOf (tracker_after toy_platform demo_history) 7 \<in> set [''alice'', ''bob'']"
    by (simp add: demo_reaches)
  note member = demo_group [folded demo_reaches] this
  show ?thesis
    using share_accepted [OF ok(1-4) member(1), of 7 "demo_context 0"] share_accepted [OF ok(1-3,5) member(1), of 7 "demo_context 0"] member(2)
    by (simp add: om_find_Cons demo_file_def)
qed

lemma located:
  assumes "hmac_total P" "word_ok n" "name \<noteq> []"
    and "findGroup (tracker_after P h) n = Some g" "userOf (tracker_after P h) s \<in> set (gr_members g)"
    and "om_find (gr_files g) name = Some f" "\<And>u sd. (u, sd) \<in> set (sf_seeders f) \<Longrightarrow> plain_seeder sd"
    and "0 \<le> cx_now cx" "cx_now cx \<le> 2 ^ 61"
  shows "\<exists>response. apply_command P s (locateCommand n name) cx (tracker_after P h) =
      (\<lparr>cr_response = response, cr_session = s\<rparr>, tracker_after P h) \<and> starts_with response ''META '' \<and>
    readMeta P response = Inr (sf_metadata f, sort_key SeederAccess_encode
      (accessesFor P (downloadTicket (userOf (tracker_after P h) s) n name (cx_now cx)) f))"
proof -
  let ?st = "tracker_after P h"
  let ?t = "downloadTicket (userOf ?st s) n name (cx_now cx)"
  have ok: "group_ok P (registered ?st) (online ?st) g"
    by (rule tracker_okD(7) [OF tracker_after_ok assms(4)])
  then have "userOf ?st s \<noteq> []" "file_ok P (set (gr_members g) \<inter> online ?st) f"
    using assms(5,6) tracker_okD(5,6) [OF tracker_after_ok] by (fastforce simp: group_ok_def)+
  moreover from this have "ticket_ok ?t"
    using assms(2,3,8,9) by (simp add: ticket_ok_def downloadTicket_def word_ok_def LIFETIME_SECONDS_def)
  moreover have "starts_with (metaReply P ?t f) ''META ''"
    by (simp add: metaReply_def)
  ultimately show ?thesis
    using download_reply [OF assms(1,4,5,6) locateCommand_words [OF assms(2,3)]] read_metaReply [OF assms(1) _ _ assms(7)]
    by auto
qed

text \<open>A member's \<open>locate\<close> gets back the metadata as it was uploaded and one access per seeder, in
  the order of their texts, each with a ticket for this member that the seeder's key opens.\<close>

theorem locate_reads_download:
  assumes "hmac_total P" "word_ok n" "name \<noteq> []"
    and "findGroup (tracker_after P h) n = Some g" "userOf (tracker_after P h) s \<in> set (gr_members g)"
    and "om_find (gr_files g) name = Some f" "\<And>u sd. (u, sd) \<in> set (sf_seeders f) \<Longrightarrow> plain_seeder sd"
    and "0 \<le> cx_now cx" "cx_now cx \<le> 2 ^ 61"
  shows "\<exists>response. apply_command P s (locateCommand n name) cx (tracker_after P h) =
      (\<lparr>cr_response = response, cr_session = s\<rparr>, tracker_after P h) \<and> starts_with response ''META '' \<and>
    readMeta P response = Inr (sf_metadata f, sort_key SeederAccess_encode
      (accessesFor P (downloadTicket (userOf (tracker_after P h) s) n name (cx_now cx)) f))"
  using assms by (rule located)

theorem locate_reads_download_witness:
  "\<exists>response. apply_command toy_platform 7 (locateCommand ''g'' ''f'') (demo_context 0) (tracker_after toy_platform demo_history) =
      (\<lparr>cr_response = response, cr_session = 7\<rparr>, tracker_after toy_platform demo_history) \<and> starts_with response ''META '' \<and>
    readMeta toy_platform response = Inr (sf_metadata demo_file, sort_key SeederAccess_encode
      (accessesFor toy_platform (downloadTicket (userOf (tracker_after toy_platform demo_history) 7) ''g'' ''f''
        (cx_now (demo_context 0))) demo_file))"
proof (rule locate_reads_download [OF _ _ _ demo_group [folded demo_reaches]])
  show "word_ok ''g''"
    by code_simp
  show "plain_seeder sd" if "(u, sd) \<in> set (sf_seeders demo_file)" for u sd
    using that by (simp add: demo_file_def plain_seeder_def is_digit_def)
qed (simp_all add: demo_reaches om_find_Cons demo_context_def)

section \<open>The log\<close>

text \<open>What the tracker can answer to these two commands: texts that nothing typed goes into.\<close>

definition account_answers :: "string list" where
  "account_answers = [''OK user created'', ''OK logged in'', ''ERR user already exists'', ''ERR no such user'',
     ''ERR invalid password'', ''ERR logout before logging in again'', ''ERR secure random generation failed'']"

lemma account_answers_in [simp]:
  "''OK user created'' \<in> set account_answers" "''OK logged in'' \<in> set account_answers"
  "''ERR user already exists'' \<in> set account_answers" "''ERR no such user'' \<in> set account_answers"
  "''ERR invalid password'' \<in> set account_answers" "''ERR logout before logging in again'' \<in> set account_answers"
  "''ERR secure random generation failed'' \<in> set account_answers"
  by (simp_all add: account_answers_def)

lemma account_handlers:
  "cr_response (fst (login P rq st)) \<in> set account_answers" "cr_response (fst (createUser P rq st)) \<in> set account_answers"
  by (simp_all add: login_def createUser_def Let_def split: option.split)

lemma account_answer:
  assumes "words_of cmd = [c, u, pw]" "c = ''login'' \<or> c = ''create_user''"
  shows "cr_response (fst (apply_command P s cmd cx st)) \<in> set account_answers"
  using assms(2) by (elim disjE) (simp_all add: apply_command_def assms(1) account_handlers Let_def case_prod_beta)

text \<open>C17: No password is logged: whatever the password and the tracker's state, the log line of a \<open>login\<close> or
  \<open>create_user\<close> request is who sent it, the command, the user's name, the mark \<open>***\<close> and one of seven fixed
  answers.\<close>

theorem log_hides_passwords:
  assumes "words_of cmd = [c, u, pw]" "c = ''login'' \<or> c = ''create_user''"
  shows "\<exists>answer\<in>set account_answers. fst (snd (handle P (''C'' @ [TAB] @ to_string_u64 s @ [TAB] @ cmd) client cx st)) =
    (if userOf st s = [] then ''(not logged in)'' else userOf st s) @ '' @ '' @ client @ '': '' @ c @ '' '' @ u @
      '' *** -> '' @ answer"
proof -
  have "map_of shown_arguments c = Some (length [u])"
    using assms(2) by (auto simp: shown_arguments_def)
  then have "safeCommand cmd = c @ '' '' @ u @ '' ***''"
    using safeCommand_hides [of cmd c "[u]" "[pw]"] assms(1) by simp
  moreover have "safeResponse answer = answer" if "answer \<in> set account_answers" for answer
    using that by (auto simp: account_answers_def safeResponse_def)
  ultimately show ?thesis
    using account_answer [OF assms, of P s cx st] unfolding handle_request
    by (auto simp: Let_def case_prod_beta log_info_def)
qed

theorem log_hides_passwords_witness:
  "\<exists>answer\<in>set account_answers.
    fst (snd (handle toy_platform (''C'' @ [TAB] @ to_string_u64 0 @ [TAB] @ ''login bob secret1'') ''x'' (demo_context 0) demo_state)) =
      ''(not logged in) @ x: login bob *** -> '' @ answer"
proof -
  have "words_of ''login bob secret1'' = [''login'', ''bob'', ''secret1'']"
    by code_simp
  from log_hides_passwords [OF this, of toy_platform 0 "''x''" "demo_context 0" demo_state] show ?thesis
    by simp
qed

section \<open>Configuration\<close>

text \<open>C18: What \<open>torrent_keygen\<close> writes is what the two programs load: the tracker gets the private key
  it generated, the client the address and the matching public key, and the key file's mode is 0600.\<close>

theorem keygen_roundtrip:
  assumes "keygen_main P raw w1 w2 [prog, address, keysDir, conf] fs = (0, output, fs')"
    and "conf \<noteq> keyPath keysDir" "list_all (\<lambda>c. \<not> is_space c) address"
  shows "\<exists>pair e. generateKeyPair raw = Some pair \<and> Endpoint_parse P address = Some e \<and>
    TrackerIdentity_load fs' keysDir = Some (kp_private pair) \<and>
    ClientConfig_load P fs' conf = Some \<lparr>cc_tracker = e, cc_trackerPublicKey = kp_public pair\<rparr> \<and>
    fs_modes fs' (keyPath keysDir) = Some 384"
proof -
  from assms(1) obtain e pair where e: "Endpoint_parse P address = Some e" and pair: "generateKeyPair raw = Some pair"
      and fs': "fs' = write_file conf (config_text \<lparr>cc_tracker = e, cc_trackerPublicKey = kp_public pair\<rparr>)
        (set_mode (keyPath keysDir) 384 (write_file (keyPath keysDir) (toHex (kp_private pair) @ [NL]) (set_mode keysDir 448 fs)))"
    by (auto simp: keygen_main_def TrackerIdentity_create_def ClientConfig_save_def Let_def
        split: option.splits sum.splits prod.splits if_splits)
  have "list_all (\<lambda>c. \<not> is_space c) (ep_ip e)"
    using assms(3) Endpoint_parse_ip [OF e] by (auto simp: list_all_iff)
  moreover note Endpoint_parse_ok [OF e] generateKeyPair_lengths [OF pair]
  ultimately show ?thesis
    using e pair fs' assms(2)
    by (auto intro!: load_config_text load_key_text)
qed

definition demo_keygen_files :: file_system where
  "demo_keygen_files = snd (snd (keygen_main toy_platform (demo_keys CHR ''i'') True True
     [''torrent_keygen'', ''1.1.1.1:9'', ''keys'', ''client.conf''] \<lparr>fs_files = Map.empty, fs_modes = Map.empty\<rparr>))"

theorem keygen_roundtrip_witness:
  "\<exists>pair e. generateKeyPair (demo_keys CHR ''i'') = Some pair \<and> Endpoint_parse toy_platform ''1.1.1.1:9'' = Some e \<and>
    TrackerIdentity_load demo_keygen_files ''keys'' = Some (kp_private pair) \<and>
    ClientConfig_load toy_platform demo_keygen_files ''client.conf'' =
      Some \<lparr>cc_tracker = e, cc_trackerPublicKey = kp_public pair\<rparr> \<and>
    fs_modes demo_keygen_files (keyPath ''keys'') = Some 384"
proof (rule keygen_roundtrip)
  let ?run = "keygen_main toy_platform (demo_keys CHR ''i'') True True
    [''torrent_keygen'', ''1.1.1.1:9'', ''keys'', ''client.conf''] \<lparr>fs_files = Map.empty, fs_modes = Map.empty\<rparr>"
  have "fst ?run = 0"
    by code_simp
  then show "?run = (0, fst (snd ?run), demo_keygen_files)"
    by (simp add: demo_keygen_files_def prod_eq_iff)
  show "''client.conf'' \<noteq> keyPath ''keys''" "list_all (\<lambda>c. \<not> is_space c) ''1.1.1.1:9''"
    by code_simp+
qed

end
