(* ===== verification/Download_Manager.thy ===== *)
theory Download_Manager
  imports Download_Outcome
begin

text \<open>
  \<open>client/download/download_manager.cpp\<close>: every download this client has started, oldest first.  A
  \<open>Download\<close> goes on running on its own thread between the calls; here that is the event that
  replaces it by a later state of the same download.
\<close>

text \<open>\<open>operator/\<close> of \<open>std::filesystem::path\<close>: an absolute right-hand side replaces the left.\<close>

definition path_append :: "string \<Rightarrow> string \<Rightarrow> string" where
  "path_append dir name =
     (if starts_with name ''/'' then name
      else if dir = [] \<or> last dir = CHR ''/'' then dir @ name
      else dir @ ''/'' @ name)"

record start_env =
  sn_is_directory :: "string \<Rightarrow> bool"
  sn_exists :: "string \<Rightarrow> bool"
  sn_call :: call_env

text \<open>The first half of \<open>start\<close>, up to the end of its first look at the list: an error, or the path to write to.\<close>

definition start_check :: "start_env \<Rightarrow> string \<Rightarrow> string \<Rightarrow> Download list \<Rightarrow> string + string" where
  "start_check env name destination downloads =
     (let path = (if sn_is_directory env destination then path_append destination name else destination) in
      if sn_exists env path then Inl (''ERR destination already exists: '' @ path @ [NL])
      else if list_ex (\<lambda>download. \<not> dl_finished download \<and> dl_destination download = path) downloads
      then Inl (''ERR destination is already being downloaded: '' @ path @ [NL])
      else Inr path)"

text \<open>The second half: the list is not locked while the tracker is asked, and then the download is added to what
  the list is by then.  What is printed, the client's session, the downloads.\<close>

definition start_located ::
  "platform \<Rightarrow> call_env \<Rightarrow> string \<Rightarrow> string \<Rightarrow> string \<Rightarrow> TrackerClient \<Rightarrow> Download list \<Rightarrow>
     string \<times> TrackerClient \<times> Download list" where
  "start_located P call gname name path tc downloads =
     (case TrackerClient_locate P call tc gname name of
        (Inl message, tc') \<Rightarrow> (message @ [NL], tc', downloads)
      | (Inr (metadata, seeders), tc') \<Rightarrow>
          (''OK download started'' @ [NL], tc', downloads @ [Download_init gname name path metadata seeders]))"

text \<open>The whole of it, when nothing else happens in between.\<close>

definition DownloadManager_start ::
  "platform \<Rightarrow> start_env \<Rightarrow> string \<Rightarrow> string \<Rightarrow> string \<Rightarrow> TrackerClient \<Rightarrow> Download list \<Rightarrow>
     string \<times> TrackerClient \<times> Download list" where
  "DownloadManager_start P env gname name destination tc downloads =
     (case start_check env name destination downloads of
        Inl message \<Rightarrow> (message, tc, downloads)
      | Inr path \<Rightarrow> start_located P (sn_call env) gname name path tc downloads)"

lemmas manager_start_defs = DownloadManager_start_def start_check_def start_located_def

text \<open>The loop of \<open>cancel\<close>, over the downloads from the last one.\<close>

fun cancel_last :: "string \<Rightarrow> Download list \<Rightarrow> (Download list) option" where
  "cancel_last name [] = None"
| "cancel_last name (download # older) =
     (if dl_name download = name \<and> \<not> dl_finished download then Some (Download_cancel download # older)
      else map_option ((#) download) (cancel_last name older))"

definition DownloadManager_cancel :: "string \<Rightarrow> Download list \<Rightarrow> string \<times> Download list" where
  "DownloadManager_cancel name downloads =
     (case cancel_last name (rev downloads) of
        None \<Rightarrow> (''ERR no active download with that name'' @ [NL], downloads)
      | Some newest_first \<Rightarrow> (''OK cancellation requested'' @ [NL], rev newest_first))"

definition DownloadManager_print :: "Download list \<Rightarrow> string" where
  "DownloadManager_print downloads = concat (map printSummary downloads)"

text \<open>What the destructor asks of the downloads before it waits for their threads.\<close>

definition DownloadManager_stop :: "Download list \<Rightarrow> Download list" where
  "DownloadManager_stop downloads = map Download_cancel downloads"

section \<open>Cancelling\<close>

lemma cancel_last_None: "cancel_last name ds = None \<longleftrightarrow> (\<forall>d\<in>set ds. dl_name d = name \<longrightarrow> dl_finished d)"
  by (induction ds) auto

lemma cancel_last_Some:
  "cancel_last name ds = Some ds' \<Longrightarrow> \<exists>newer d older. ds = newer @ d # older \<and> ds' = newer @ Download_cancel d # older \<and>
     dl_name d = name \<and> \<not> dl_finished d \<and> (\<forall>x\<in>set newer. dl_name x = name \<longrightarrow> dl_finished x)"
proof (induction ds arbitrary: ds')
  case (Cons d ds)
  show ?case
  proof (cases "dl_name d = name \<and> \<not> dl_finished d")
    case True
    then show ?thesis
      using Cons.prems by (intro exI [of _ "[]"] exI [of _ d] exI [of _ ds]) simp
  next
    case False
    then obtain rest where rest: "cancel_last name ds = Some rest" "ds' = d # rest"
      using Cons.prems by auto
    then obtain newer e older where "ds = newer @ e # older" "rest = newer @ Download_cancel e # older" "dl_name e = name"
        "\<not> dl_finished e" "\<forall>x\<in>set newer. dl_name x = name \<longrightarrow> dl_finished x"
      using Cons.IH by blast
    then show ?thesis
      using rest(2) False by (intro exI [of _ "d # newer"] exI [of _ e] exI [of _ older]) auto
  qed
qed simp

section \<open>One download per destination\<close>

text \<open>The manager as the prompt's thread uses it, in the steps in which it holds the lock; \<open>mg_starting\<close> is the \<open>start\<close>
  that is asking the tracker.  Meanwhile, and at any other time, downloads advance on their threads, and use the
  tracker's session.  There is one prompt, so no other call comes between the two halves of \<open>start\<close>.\<close>

record manager =
  mg_tracker :: TrackerClient
  mg_downloads :: "Download list"
  mg_starting :: "(call_env \<times> string \<times> string \<times> string) option"

datatype manager_event =
    Mgr_start start_env string string string
  | Mgr_located
  | Mgr_cancel string
  | Mgr_print
  | Mgr_advance nat Download
  | Mgr_session TrackerClient

text \<open>A later state of a download: the same job, and finished once it was finished.\<close>

definition later_state :: "Download \<Rightarrow> Download \<Rightarrow> bool" where
  "later_state d d' \<longleftrightarrow> job_of d' = job_of d \<and> (dl_finished d \<longrightarrow> dl_finished d')"

definition manager_step :: "platform \<Rightarrow> manager \<Rightarrow> manager_event \<Rightarrow> manager" where
  "manager_step P s ev =
     (case ev of
        Mgr_start env gname name destination \<Rightarrow>
          if mg_starting s \<noteq> None then s
          else (case start_check env name destination (mg_downloads s) of
                  Inl message \<Rightarrow> s
                | Inr path \<Rightarrow> s\<lparr>mg_starting := Some (sn_call env, gname, name, path)\<rparr>)
      | Mgr_located \<Rightarrow>
          (case mg_starting s of
             None \<Rightarrow> s
           | Some (call, gname, name, path) \<Rightarrow>
               (case start_located P call gname name path (mg_tracker s) (mg_downloads s) of
                  (out, tc, downloads) \<Rightarrow> \<lparr>mg_tracker = tc, mg_downloads = downloads, mg_starting = None\<rparr>))
      | Mgr_cancel name \<Rightarrow>
          if mg_starting s \<noteq> None then s
          else s\<lparr>mg_downloads := snd (DownloadManager_cancel name (mg_downloads s))\<rparr>
      | Mgr_print \<Rightarrow> s
      | Mgr_advance i d \<Rightarrow>
          if i < length (mg_downloads s) \<and> later_state (mg_downloads s ! i) d
          then s\<lparr>mg_downloads := (mg_downloads s)[i := d]\<rparr> else s
      | Mgr_session tc \<Rightarrow> s\<lparr>mg_tracker := tc\<rparr>)"

text \<open>Nothing in between: the two halves are the whole \<open>start\<close>.\<close>

lemma start_in_two_steps:
  "foldl (manager_step P) \<lparr>mg_tracker = tc, mg_downloads = ds, mg_starting = None\<rparr> [Mgr_start env g n dest, Mgr_located] =
     (case DownloadManager_start P env g n dest tc ds of (out, tc', ds') \<Rightarrow>
        \<lparr>mg_tracker = tc', mg_downloads = ds', mg_starting = None\<rparr>)"
  by (simp add: manager_step_def DownloadManager_start_def split: sum.splits prod.splits)

definition exclusive :: "Download list \<Rightarrow> bool" where
  "exclusive downloads \<longleftrightarrow>
     (\<forall>i<length downloads. \<forall>j<length downloads. \<not> dl_finished (downloads ! i) \<longrightarrow> \<not> dl_finished (downloads ! j) \<longrightarrow>
        dl_destination (downloads ! i) = dl_destination (downloads ! j) \<longrightarrow> i = j)"

definition free_for :: "string \<Rightarrow> Download list \<Rightarrow> bool" where
  "free_for path downloads \<longleftrightarrow> (\<forall>i<length downloads. dl_destination (downloads ! i) = path \<longrightarrow> dl_finished (downloads ! i))"

text \<open>What the lock protects, and what the check found is still so when the download is added.\<close>

definition manager_ok :: "manager \<Rightarrow> bool" where
  "manager_ok s \<longleftrightarrow> exclusive (mg_downloads s) \<and>
     (case mg_starting s of None \<Rightarrow> True | Some (_, _, _, path) \<Rightarrow> free_for path (mg_downloads s))"

lemma exclusive_later:
  assumes "exclusive ds" "list_all2 later_state ds ds'"
  shows "exclusive ds'"
  using assms unfolding exclusive_def later_state_def job_of_def list_all2_conv_all_nth by (metis prod.inject)

lemma free_later:
  assumes "free_for path ds" "list_all2 later_state ds ds'"
  shows "free_for path ds'"
  using assms unfolding free_for_def later_state_def job_of_def list_all2_conv_all_nth by (metis prod.inject)

lemma manager_later:
  assumes "manager_ok s" "list_all2 later_state (mg_downloads s) ds"
  shows "manager_ok (s\<lparr>mg_downloads := ds\<rparr>)"
  using assms exclusive_later free_later by (auto simp: manager_ok_def split: option.splits)

lemma exclusive_snoc:
  assumes "exclusive ds" "free_for (dl_destination x) ds"
  shows "exclusive (ds @ [x])"
  using assms unfolding exclusive_def free_for_def
  by (auto simp: nth_append less_Suc_eq)

lemma start_check_free: "start_check env name destination ds = Inr path \<Longrightarrow> free_for path ds"
  by (auto simp: start_check_def free_for_def Let_def list_ex_length split: if_splits)

lemma later_refl [simp]: "later_state d d" "later_state d (Download_cancel d)"
  by (simp_all add: later_state_def Download_cancel_def job_of_def)

lemma later_list_refl [simp]: "list_all2 later_state ds ds"
  by (simp add: list.rel_refl)

lemma cancel_later: "list_all2 later_state ds (snd (DownloadManager_cancel name ds))"
proof (cases "cancel_last name (rev ds)")
  case (Some ds')
  then obtain newer d older where "rev ds = newer @ d # older" "ds' = newer @ Download_cancel d # older"
    using cancel_last_Some by blast
  then have "list_all2 later_state (rev ds) ds'"
    by (simp add: list_all2_append)
  then have "list_all2 later_state ds (rev ds')"
    by (metis list_all2_rev rev_rev_ident)
  with Some show ?thesis
    by (simp add: DownloadManager_cancel_def)
qed (simp add: DownloadManager_cancel_def)

lemma advance_later: "i < length ds \<Longrightarrow> later_state (ds ! i) d \<Longrightarrow> list_all2 later_state ds (ds[i := d])"
  by (auto simp: list_all2_conv_all_nth nth_list_update)

lemma manager_ok_step:
  assumes "manager_ok s"
  shows "manager_ok (manager_step P s ev)"
proof (cases ev)
  case (Mgr_start env g n dest)
  then show ?thesis
    using assms start_check_free by (auto simp: manager_step_def manager_ok_def split: sum.split option.splits)
next
  case Mgr_located
  then show ?thesis
    using assms
    by (auto simp: manager_step_def manager_ok_def start_located_def Download_init_def split: option.split prod.split sum.split
        intro!: exclusive_snoc)
next
  case (Mgr_cancel name)
  then show ?thesis
    using assms manager_later [OF assms cancel_later] by (simp add: manager_step_def)
next
  case (Mgr_advance i d)
  then show ?thesis
    using assms manager_later [OF assms advance_later] by (simp add: manager_step_def)
qed (use assms in \<open>auto simp: manager_step_def manager_ok_def split: option.splits\<close>)

lemma manager_ok_run: "manager_ok s \<Longrightarrow> manager_ok (foldl (manager_step P) s evs)"
  by (induction evs arbitrary: s) (simp_all add: manager_ok_step)

section \<open>The destructor\<close>

text \<open>\<open>~DownloadManager\<close> with the workers of every download that is being fetched: it cancels them all and
  returns when all have been joined; thread \<open>j\<close> takes the steps \<open>evs j\<close> meanwhile.  \<^const>\<open>None\<close>: some worker is
  still at it.\<close>

definition DownloadManager_destroy ::
  "platform \<Rightarrow> (nat \<Rightarrow> nat list) \<Rightarrow> (nat \<Rightarrow> event list) \<Rightarrow> transfer list \<Rightarrow> transfer list option" where
  "DownloadManager_destroy P order evs ts =
     (let ts' = map (\<lambda>(j, t). transfer_run P (order j) (evs j) (transfer_step P (order j) t Ev_cancel)) (enumerate 0 ts) in
      if list_all joined_all ts' then Some ts' else None)"

definition in_flight :: "platform \<Rightarrow> nat list \<Rightarrow> transfer \<Rightarrow> bool" where
  "in_flight P order t \<longleftrightarrow>
     (\<exists>env tc fs files dl fs1 t0 evs. Download_begin P env tc fs files dl = Inr (fs1, order, t0) \<and> t = transfer_run P order evs t0)"

lemma in_flight_tries: "in_flight P order t \<Longrightarrow> \<exists>a. tries_ok a (length (tr_workers t)) t"
proof -
  assume "in_flight P order t"
  then obtain tc3 content files2 dl2 evs where t: "t = transfer_run P order evs (fetch_start order tc3 content files2 dl2)"
    unfolding in_flight_def by (metis begin_start)
  have "tries_ok (PASSES_PER_PIECE * length (dl_seeders dl2)) (min MAX_THREADS (min (length (dl_seeders dl2)) (length order))) t"
    unfolding t transfer_run_def by (rule fetching.inv_run) (rule tries_start)
  then show ?thesis
    by (auto simp: tries_ok_def)
qed

lemma joined_step: "joined_all t \<Longrightarrow> joined_all (transfer_step P order t ev)"
proof (cases ev)
  case (Ev_step i env)
  assume joined: "joined_all t"
  show ?thesis
  proof (cases "i < length (tr_workers t)")
    case True
    with joined have "tr_workers t ! i = W_done" "(tr_workers t)[i := W_done] = tr_workers t"
      by (simp_all add: joined_all_def list_all_length list_update_same_conv)
    with True joined show ?thesis
      by (simp add: Ev_step transfer_step_def worker_step_def joined_all_def)
  qed (simp add: Ev_step transfer_step_def joined)
qed (simp_all add: transfer_step_def joined_all_def)

lemma joined_later: "n \<le> m \<Longrightarrow> joined_all (transfer_run P order (map sched [0..<n]) t) \<Longrightarrow> joined_all (transfer_run P order (map sched [0..<m]) t)"
proof -
  assume le: "n \<le> m" and joined: "joined_all (transfer_run P order (map sched [0..<n]) t)"
  have "[0..<m] = [0..<n] @ [n..<m]"
    using le upt_add_eq_append [of 0 n "m - n"] by simp
  then have "transfer_run P order (map sched [0..<m]) t =
      transfer_run P order (map sched [n..<m]) (transfer_run P order (map sched [0..<n]) t)"
    by (simp add: transfer_run_def)
  with joined show ?thesis
    using run_keeps [of joined_all P order] joined_step by metis
qed

lemma cancelled_step: "dl_cancelled (tr_download t) \<Longrightarrow> dl_cancelled (tr_download (transfer_step P order t ev))"
  by (cases ev) (auto simp: transfer_step_def Download_cancel_def dest: worker_step_flags split: prod.splits)

text \<open>Under any fair scheduler the destructor returns, with every download cancelled, whatever their
  workers were doing.\<close>

theorem destructor_returns:
  assumes "\<And>j. j < length ts \<Longrightarrow> in_flight P (order j) (ts ! j)"
    and fair: "\<And>j i n. j < length ts \<Longrightarrow> i < length (tr_workers (ts ! j)) \<Longrightarrow> \<exists>k\<ge>n. event_thread (sched j k) = Some i"
  shows "\<exists>n ts'. DownloadManager_destroy P order (\<lambda>j. map (sched j) [0..<n]) ts = Some ts' \<and>
    list_all (\<lambda>t. dl_cancelled (tr_download t)) ts'"
proof -
  let ?start = "\<lambda>j. transfer_step P (order j) (ts ! j) Ev_cancel"
  have "\<exists>n. joined_all (transfer_run P (order j) (map (sched j) [0..<n]) (?start j))" if j: "j < length ts" for j
  proof -
    obtain a where "tries_ok a (length (tr_workers (ts ! j))) (ts ! j)"
      using in_flight_tries [OF assms(1) [OF j]] by blast
    then have "tries_ok a (length (tr_workers (ts ! j))) (?start j)"
      by (rule fetching.inv_step)
    from fetching.fair_finishes [OF this, of "sched j" P "order j"] fair [OF j] show ?thesis
      by (simp add: transfer_run_def)
  qed
  then obtain n where n: "joined_all (transfer_run P (order j) (map (sched j) [0..<n j]) (?start j))" if "j < length ts" for j
    by metis
  let ?n = "Max (insert 0 (n ` {..<length ts}))"
  have joined: "joined_all (transfer_run P (order j) (map (sched j) [0..<?n]) (?start j))" if "j < length ts" for j
    using that by (intro joined_later [OF _ n]) auto
  moreover have "dl_cancelled (tr_download (transfer_run P (order j) (map (sched j) [0..<?n]) (?start j)))" for j
    by (rule run_keeps [of "\<lambda>t. dl_cancelled (tr_download t)"]) (rule cancelled_step, assumption, simp add: transfer_step_def Download_cancel_def)
  ultimately show ?thesis
    by (intro exI [of _ ?n]) (auto simp: DownloadManager_destroy_def Let_def list_all_length nth_enumerate_eq)
qed

end
