(* ===== verification/Arrival.thy ===== *)
theory Arrival
  imports Honest_Download Session_Properties Download_Manager
begin

text \<open>
  From a file on one client to the same file on another: the tracker that lists it, the request that
  locates it, the download that this starts, and its run against an honest seeder.
\<close>

section \<open>Locating over a connection\<close>

lemma locate_answered:
  assumes laws: "gcm_correct P" "gcm_total P" "hmac_total P"
    and listed: "word_ok n" "name \<noteq> []" "findGroup (tracker_after P h) n = Some g"
      "userOf (tracker_after P h) (tc_session tc) \<in> set (gr_members g)" "om_find (gr_files g) name = Some f"
      "\<And>u sd. (u, sd) \<in> set (sf_seeders f) \<Longrightarrow> plain_seeder sd" "0 \<le> cx_now (se_context se)" "cx_now (se_context se) \<le> 2 ^ 61"
    and delivered: "request_delivered P sk tc ce se (tracker_after P h) (locateCommand n name)"
  shows "TrackerClient_locate P ce tc n name = (Inr (sf_metadata f, sort_key SeederAccess_encode
      (accessesFor P (downloadTicket (userOf (tracker_after P h) (tc_session tc)) n name (cx_now (se_context se))) f)), tc)"
proof -
  obtain response where "apply_command P (tc_session tc) (locateCommand n name) (se_context se) (tracker_after P h) =
      (\<lparr>cr_response = response, cr_session = tc_session tc\<rparr>, tracker_after P h)" "starts_with response ''META ''"
      "readMeta P response = Inr (sf_metadata f, sort_key SeederAccess_encode
        (accessesFor P (downloadTicket (userOf (tracker_after P h) (tc_session tc)) n name (cx_now (se_context se))) f))"
    using located [OF laws(3) listed(1-5) _ listed(7,8)] listed(6) by blast
  with request_carried(1) [OF laws(1,2) delivered this(1)] show ?thesis
    by (simp add: TrackerClient_locate_def)
qed

section \<open>A run against an honest seeder\<close>

text \<open>The download \<open>dl\<close> gets under way, the seeder \<open>s\<close> answers honestly whenever it is asked, the disk
  does not fail at the end, the user does not cancel and the schedule is fair.\<close>

definition honest_run :: "platform \<Rightarrow> run_env \<Rightarrow> TrackerClient \<Rightarrow> file_system \<Rightarrow> shared_files \<Rightarrow> Download \<Rightarrow> string \<Rightarrow> nat \<Rightarrow> (nat \<Rightarrow> event) \<Rightarrow> bool" where
  "honest_run P env tc fs files dl content s sched \<longleftrightarrow>
     (\<exists>fs1 order t0. Download_begin P env tc fs files dl = Inr (fs1, order, t0) \<and> s < length (dl_seeders dl) \<and>
        honest_answer P (dl_metadata dl) content (be_peer (rn_bitmaps env s))
          (bitmap_access P (rn_bitmaps env) tc (snd (snd (Download_prepare P (rn_prepare env) fs dl))) s) ''BITMAP'' 0 \<and>
        \<not> co_bad (rn_complete env) \<and> co_renames (rn_complete env) \<and>
        (\<forall>i<length (tr_workers t0). \<forall>n. \<exists>k\<ge>n. event_thread (sched k) = Some i) \<and>
        (\<forall>n. honest_step P s order (dl_metadata dl) content (transfer_run P order (map sched [0..<n]) t0) (sched n)))"

lemma honest_run_completes:
  assumes laws: "gcm_correct P" "gcm_total P" and run: "honest_run P env tc fs files dl original s sched"
    and fresh: "dl_resumed dl = 0" "\<not> dl_cancelled dl"
    and original: "PieceFile_hash P (Some original) False = Some (dl_metadata dl)" "length original < 2 ^ 63"
      "\<And>q x. q < pieceCount (dl_metadata dl) \<Longrightarrow> sha1Hex P x = fm_pieceHashes (dl_metadata dl) ! q \<Longrightarrow>
        x = piece_bytes (dl_metadata dl) original q" "pieceCount (dl_metadata dl) \<le> 8000000"
  shows "\<exists>n r. Download_run P (env\<lparr>rn_schedule := map sched [0..<n]\<rparr>) tc fs files dl = Some r \<and>
    Download_state (snd (snd (snd r))) = CHR ''C'' \<and> fs_files (fst (snd r)) (dl_destination dl) = Some original"
proof -
  obtain fs1 order t0 where h: "Download_begin P env tc fs files dl = Inr (fs1, order, t0)" "s < length (dl_seeders dl)"
      "honest_answer P (dl_metadata dl) original (be_peer (rn_bitmaps env s))
        (bitmap_access P (rn_bitmaps env) tc (snd (snd (Download_prepare P (rn_prepare env) fs dl))) s) ''BITMAP'' 0"
      "\<not> co_bad (rn_complete env)" "co_renames (rn_complete env)"
      "\<And>i n. i < length (tr_workers t0) \<Longrightarrow> \<exists>k\<ge>n. event_thread (sched k) = Some i"
      "\<And>n. honest_step P s order (dl_metadata dl) original (transfer_run P order (map sched [0..<n]) t0) (sched n)"
    using run unfolding honest_run_def by blast
  show ?thesis
    by (rule honest_completes [OF laws h(1) fresh(1) original(1-3) h(2) original(4) h(3) fresh(2) h(4-7)])
qed

section \<open>A concrete arrival\<close>

text \<open>The history of the tracker's demonstration with the digest of \<open>hello\<close>, and bob's request over a connection.\<close>

definition arrival_file :: SharedFile where
  "arrival_file = \<lparr>sf_metadata = demo_metadata, sf_seeders = [(''bob'', seed_seeder)]\<rparr>"

definition arrival_history :: "tracker_input list" where
  "arrival_history = demo_setup @
    [(9, ''join_group g'', demo_context 0), (7, ''accept_request g bob'', demo_context 0),
     (9, ''upload_file g 66 5 '' @ Download_Demo.demo_hash @ '' '' @ Download_Demo.demo_hash @ '' 1.2.3.4 80 '' @ replicate 64 CHR ''6'',
      demo_context 0)]"

definition arrival_state :: TrackerState where
  "arrival_state = demo_early\<lparr>ts_groups := [(''g'', \<lparr>gr_owner = ''alice'', gr_members = [''alice'', ''bob''], gr_pending = [],
     gr_files = [(''f'', arrival_file)]\<rparr>)]\<rparr>"

lemma arrival_early: "tracker_after demo_platform demo_setup = demo_early"
  by code_simp

lemma arrival_reaches: "tracker_after demo_platform arrival_history = arrival_state"
proof -
  have "after (tracker_step demo_platform) demo_early (drop (length demo_setup) arrival_history) = arrival_state"
    by code_simp
  then show ?thesis
    by (simp add: arrival_history_def after_append arrival_early)
qed

definition arrival_message :: string where
  "arrival_message = ''C'' @ [TAB] @ ''9'' @ [TAB] @ ''download_file g 66''"

definition arrival_response :: string where
  "arrival_response = metaReply demo_platform (downloadTicket ''bob'' ''g'' ''f'' 1000) arrival_file @ [TAB] @ ''9''"

text \<open>The client's side of the call when the tracker's response is the given one.\<close>

definition call_for :: "string \<Rightarrow> call_env" where
  "call_for response = demo_call\<lparr>ce_socket := Some (demo_socket (demo_reply @
     frame_bytes (sealed demo_platform (Some (\<lambda>_. CHR ''y'')) demo_session_key False response)))\<rparr>"

definition arrival_call :: call_env where
  "arrival_call = call_for arrival_response"

definition arrival_serve :: server_env where
  "arrival_serve = demo_serve\<lparr>se_socket := demo_socket (demo_hello @
     frame_bytes (sealed demo_platform (Some (\<lambda>_. CHR ''x'')) demo_session_key True arrival_message))\<rparr>"

text \<open>The handshake does not use the file hash, in which the two platforms differ.\<close>

lemma arrival_same_keys [simp]:
  "ed25519Sign demo_platform = ed25519Sign toy_platform" "ed25519Verify demo_platform = ed25519Verify toy_platform"
  "sha256 demo_platform = sha256 toy_platform" "x25519SharedSecret demo_platform = x25519SharedSecret toy_platform"
  by (simp_all add: fun_eq_iff demo_platform_def ed25519Sign_def ed25519Verify_def sha256_def x25519SharedSecret_def)

lemma arrival_same_session [simp]:
  "sessionKey demo_platform = sessionKey toy_platform" "dh_agrees demo_platform = dh_agrees toy_platform"
  by (simp_all add: fun_eq_iff sessionKey_def dh_agrees_def Let_def)

lemma arrival_environment:
  "client_hello (call_for x) = client_hello demo_call" "tracker_fields arrival_serve = tracker_fields demo_serve"
  "signed_text (call_for x) arrival_serve = signed_text demo_call demo_serve"
  "tracker_hello demo_platform demo_identity (call_for x) arrival_serve = tracker_hello toy_platform demo_identity demo_call demo_serve"
  "agreed_key demo_platform (call_for x) arrival_serve = agreed_key toy_platform demo_call demo_serve"
  "machines_work demo_platform demo_identity demo_identity (call_for x) arrival_serve =
     machines_work toy_platform demo_identity demo_identity demo_call demo_serve"
  "ce_frame (call_for x) = Some (\<lambda>_. CHR ''x'')" "se_frame arrival_serve = Some (\<lambda>_. CHR ''y'')" "se_context arrival_serve = demo_context 0"
  by (simp_all add: call_for_def arrival_serve_def client_hello_def tracker_fields_def signed_text_def tracker_hello_def
      agreed_key_def machines_work_def)
    (simp_all add: demo_call_def demo_serve_def)

lemma arrival_message_length:
  "0 < length (sealed demo_platform (Some (\<lambda>_. CHR ''x'')) demo_session_key True arrival_message)"
  "length (sealed demo_platform (Some (\<lambda>_. CHR ''x'')) demo_session_key True arrival_message) \<le> 300"
  "fitsInt (length arrival_message)"
  by code_simp+

lemma arrival_asks: "''C'' @ [TAB] @ ''9'' @ [TAB] @ locateCommand ''g'' ''f'' = arrival_message" "to_string_u64 9 = ''9''"
  by code_simp+

text \<open>Whatever the tracker's state makes of the request, its response arrives if it is short.\<close>

lemma answer_delivered:
  assumes "fst (apply_command demo_platform 9 (locateCommand ''g'' ''f'') (demo_context 0) st) = \<lparr>cr_response = r, cr_session = 9\<rparr>"
    and "response = r @ [TAB] @ ''9''" "fitsInt (length response)"
    and "0 < length (sealed demo_platform (Some (\<lambda>_. CHR ''y'')) demo_session_key False response)"
      "length (sealed demo_platform (Some (\<lambda>_. CHR ''y'')) demo_session_key False response) \<le> 300"
  shows "request_delivered demo_platform demo_identity demo_client (call_for response) arrival_serve st (locateCommand ''g'' ''f'')"
proof -
  let ?greeting = "''HELLO|'' @ demo_fields @ ''|'' @ toHex (ed25519Sign toy_platform demo_identity demo_text)"
  let ?request = "sealed demo_platform (Some (\<lambda>_. CHR ''x'')) demo_session_key True arrival_message"
  let ?response = "sealed demo_platform (Some (\<lambda>_. CHR ''y'')) demo_session_key False response"
  have frames: "demo_hello = frame_bytes demo_hello_text" "demo_reply = frame_bytes ?greeting"
    by (simp_all only: demo_hello_def demo_reply_def)
  have sockets: "ce_socket (call_for response) = Some (demo_socket (demo_reply @ frame_bytes ?response))"
      "se_socket arrival_serve = demo_socket (demo_hello @ frame_bytes ?request)"
    by (simp_all add: call_for_def arrival_serve_def)
  have "list_all (\<lambda>frame. 0 < length frame \<and> length frame \<le> 300) [demo_hello_text, ?greeting, ?request, ?response]"
    using demo_lengths(1) arrival_message_length(1,2) assms(4,5) unfolding list.pred_inject by blast
  from short_frames_move [OF sockets(1) [unfolded frames] sockets(2) [unfolded frames] this]
  have "bytes_move (call_for response) arrival_serve demo_hello_text ?greeting ?request ?response" .
  moreover have "tc_session demo_client = 9" "cc_trackerPublicKey (tc_config demo_client) = demo_identity"
    by (simp_all add: demo_client_def)
  ultimately show ?thesis
    unfolding request_delivered_def call_delivered_def arrival_environment demo_texts
    using demo_works arrival_message_length(3) assms(3)
    by (simp only: Let_def CommandResult.simps assms(1) arrival_asks assms(2) [symmetric] arrival_environment(6) simp_thms)
qed

lemma arrival_answers:
  "apply_command demo_platform 9 (locateCommand ''g'' ''f'') (demo_context 0) arrival_state =
     (\<lparr>cr_response = metaReply demo_platform (downloadTicket ''bob'' ''g'' ''f'' 1000) arrival_file, cr_session = 9\<rparr>, arrival_state)"
  by code_simp

lemma arrival_response_length:
  "0 < length (sealed demo_platform (Some (\<lambda>_. CHR ''y'')) demo_session_key False arrival_response)"
  "length (sealed demo_platform (Some (\<lambda>_. CHR ''y'')) demo_session_key False arrival_response) \<le> 300"
  "fitsInt (length arrival_response)"
  by code_simp+

lemma arrival_delivered:
  "request_delivered demo_platform demo_identity demo_client arrival_call arrival_serve arrival_state (locateCommand ''g'' ''f'')"
  unfolding arrival_call_def
  by (rule answer_delivered [OF _ arrival_response_def arrival_response_length(3,1,2)]) (simp add: arrival_answers)

section \<open>From the tracker's list to the file\<close>

text \<open>C32: A shared file arrives.  Let the tracker, after any history, list the file in a group, with the metadata its
  seeder computed from it, and let a member ask for the download, over a connection that works, to a place
  where nothing is and no other download goes.  Then a download starts with exactly that metadata and the
  accesses the tracker issued for this member; and whenever it runs with one of these seeders
  answering honestly, it ends complete, with exactly the seeder's file at that place.\<close>

theorem shared_file_arrives:
  assumes laws: "gcm_correct P" "gcm_total P" "hmac_total P"
    and listed: "word_ok n" "name \<noteq> []" "findGroup (tracker_after P h) n = Some g"
      "userOf (tracker_after P h) (tc_session tc) \<in> set (gr_members g)" "om_find (gr_files g) name = Some f"
      "\<And>u sd. (u, sd) \<in> set (sf_seeders f) \<Longrightarrow> plain_seeder sd" "0 \<le> cx_now (se_context se)" "cx_now (se_context se) \<le> 2 ^ 61"
    and delivered: "request_delivered P sk tc (sn_call en) se (tracker_after P h) (locateCommand n name)"
    and free: "\<not> sn_is_directory en path" "\<not> sn_exists en path" "\<And>d. d \<in> set downloads \<Longrightarrow> dl_destination d = path \<Longrightarrow> dl_finished d"
    and original: "PieceFile_hash P (Some original) False = Some (sf_metadata f)" "length original < 2 ^ 63"
      "\<And>q x. q < pieceCount (sf_metadata f) \<Longrightarrow> sha1Hex P x = fm_pieceHashes (sf_metadata f) ! q \<Longrightarrow>
        x = piece_bytes (sf_metadata f) original q" "pieceCount (sf_metadata f) \<le> 8000000"
  shows "\<exists>dl. DownloadManager_start P en n name path tc downloads = (''OK download started'' @ [NL], tc, downloads @ [dl]) \<and>
    dl = Download_init n name path (sf_metadata f) (sort_key SeederAccess_encode
      (accessesFor P (downloadTicket (userOf (tracker_after P h) (tc_session tc)) n name (cx_now (se_context se))) f)) \<and>
    (\<forall>env tc' fs files s sched. honest_run P env tc' fs files dl original s sched \<longrightarrow>
       (\<exists>k r. Download_run P (env\<lparr>rn_schedule := map sched [0..<k]\<rparr>) tc' fs files dl = Some r \<and>
          Download_state (snd (snd (snd r))) = CHR ''C'' \<and> fs_files (fst (snd r)) path = Some original))"
proof -
  let ?seeders = "sort_key SeederAccess_encode
    (accessesFor P (downloadTicket (userOf (tracker_after P h) (tc_session tc)) n name (cx_now (se_context se))) f)"
  let ?dl = "Download_init n name path (sf_metadata f) ?seeders"
  have fields: "dl_metadata ?dl = sf_metadata f" "dl_destination ?dl = path" "dl_resumed ?dl = 0" "\<not> dl_cancelled ?dl"
    by (simp_all add: Download_init_def)
  have "\<not> list_ex (\<lambda>d. \<not> dl_finished d \<and> dl_destination d = path) downloads"
    using free(3) by (auto simp: list_ex_iff)
  moreover have "TrackerClient_locate P (sn_call en) tc n name = (Inr (sf_metadata f, ?seeders), tc)"
    by (rule locate_answered [OF laws listed(1-5) _ listed(7,8) delivered]) (rule listed(6))
  ultimately have "DownloadManager_start P en n name path tc downloads = (''OK download started'' @ [NL], tc, downloads @ [?dl])"
    using free(1,2) by (simp add: manager_start_defs Let_def)
  moreover note honest_run_completes [OF laws(1,2) _ fields(3,4), unfolded fields(1,2), OF _ original]
  ultimately show ?thesis
    by blast
qed


text \<open>bob, who seeds the five bytes of \<open>hello\<close>, fetches them to another place.\<close>

lemma arrival_group: "findGroup (tracker_after demo_platform arrival_history) ''g'' = Some \<lparr>gr_owner = ''alice'',
    gr_members = [''alice'', ''bob''], gr_pending = [], gr_files = [(''f'', arrival_file)]\<rparr>"
  by (simp add: arrival_reaches arrival_state_def findGroup_def om_find_def)

lemma arrival_user: "userOf (tracker_after demo_platform arrival_history) 9 = ''bob''"
  by (simp add: arrival_reaches arrival_state_def demo_early_def userOf_def om_find_def)

lemma arrival_download:
  "Download_init ''g'' ''f'' ''d'' (sf_metadata arrival_file) (sort_key SeederAccess_encode
      (accessesFor demo_platform (downloadTicket (userOf (tracker_after demo_platform arrival_history) (tc_session demo_client)) ''g'' ''f''
        (cx_now (se_context arrival_serve))) arrival_file)) = demo_download"
proof -
  have "seederAccess demo_platform (downloadTicket ''bob'' ''g'' ''f'' 1000) seed_seeder = seed_access"
    by code_simp
  then show ?thesis
    by (simp add: arrival_user demo_client_def accessesFor_def arrival_file_def arrival_environment demo_context_def demo_download_def)
qed

lemma arrival_located:
  "TrackerClient_locate demo_platform arrival_call demo_client ''g'' ''f'' = (Inr (sf_metadata arrival_file, sort_key SeederAccess_encode
      (accessesFor demo_platform (downloadTicket (userOf (tracker_after demo_platform arrival_history) (tc_session demo_client)) ''g'' ''f''
        (cx_now (se_context arrival_serve))) arrival_file)), demo_client)"
proof (rule locate_answered [OF _ _ _ _ _ arrival_group])
  show "word_ok ''g''"
    by code_simp
  show "request_delivered demo_platform demo_identity demo_client arrival_call arrival_serve (tracker_after demo_platform arrival_history)
      (locateCommand ''g'' ''f'')"
    using arrival_delivered by (simp add: arrival_reaches)
  show "plain_seeder sd" if "(u, sd) \<in> set (sf_seeders arrival_file)" for u sd
    using that by (simp add: arrival_file_def seed_seeder_def plain_seeder_def is_digit_def)
  show "gcm_correct demo_platform" "gcm_total demo_platform" "hmac_total demo_platform"
    by (simp_all add: demo_platform_def gcm_correct_def gcm_total_def hmac_total_def toy_platform_def)
qed (simp_all add: arrival_user demo_client_def arrival_environment demo_context_def arrival_file_def om_find_def)

lemma arrival_run: "honest_run demo_platform demo_run demo_tracker demo_disk [] demo_download ''hello'' 0 (\<lambda>_. demo_step)"
proof -
  have "\<exists>k\<ge>n. event_thread demo_step = Some i" if "i < length (tr_workers demo_start)" for i n :: nat
    using that by (intro exI [of _ n]) (simp add: demo_step_def)
  moreover have "honest_step demo_platform 0 [0] demo_metadata ''hello'' (transfer_run demo_platform [0] (map (\<lambda>_. demo_step) [0..<n]) demo_start) demo_step" for n
    by (rule demo_honest_step [OF demo_reachable])
  ultimately show ?thesis
    unfolding honest_run_def using demo_begins demo_first_bitmap by (intro exI conjI) (auto simp: demo_run_def)
qed

theorem shared_file_arrives_witness:
  "DownloadManager_start demo_platform \<lparr>sn_is_directory = (\<lambda>_. False), sn_exists = (\<lambda>_. False), sn_call = arrival_call\<rparr>
      ''g'' ''f'' ''d'' demo_client [] = (''OK download started'' @ [NL], demo_client, [demo_download]) \<and>
    (\<exists>k r. Download_run demo_platform (demo_run\<lparr>rn_schedule := map (\<lambda>_. demo_step) [0..<k]\<rparr>) demo_tracker demo_disk [] demo_download = Some r \<and>
       fs_files (fst (snd r)) ''d'' = Some ''hello'')"
proof -
  let ?en = "\<lparr>sn_is_directory = (\<lambda>_. False), sn_exists = (\<lambda>_. False), sn_call = arrival_call\<rparr>"
  have "\<exists>dl. DownloadManager_start demo_platform ?en ''g'' ''f'' ''d'' demo_client [] = (''OK download started'' @ [NL], demo_client, [] @ [dl]) \<and>
    dl = demo_download \<and>
    (\<forall>env tc' fs files s sched. honest_run demo_platform env tc' fs files dl ''hello'' s sched \<longrightarrow>
       (\<exists>k r. Download_run demo_platform (env\<lparr>rn_schedule := map sched [0..<k]\<rparr>) tc' fs files dl = Some r \<and>
          Download_state (snd (snd (snd r))) = CHR ''C'' \<and> fs_files (fst (snd r)) ''d'' = Some ''hello''))"
    unfolding arrival_download [symmetric]
  proof (rule shared_file_arrives [OF _ _ _ _ _ arrival_group])
    show "word_ok ''g''"
      by code_simp
    show "request_delivered demo_platform demo_identity demo_client (sn_call ?en) arrival_serve (tracker_after demo_platform arrival_history)
        (locateCommand ''g'' ''f'')"
      using arrival_delivered by (simp add: arrival_reaches)
    show "plain_seeder sd" if "(u, sd) \<in> set (sf_seeders arrival_file)" for u sd
      using that by (simp add: arrival_file_def seed_seeder_def plain_seeder_def is_digit_def)
    show "PieceFile_hash demo_platform (Some ''hello'') False = Some (sf_metadata arrival_file)"
      using demo_hashed by (simp add: arrival_file_def)
    show "x = piece_bytes (sf_metadata arrival_file) ''hello'' q"
      if "q < pieceCount (sf_metadata arrival_file)" "sha1Hex demo_platform x = fm_pieceHashes (sf_metadata arrival_file) ! q" for q x
      using that demo_one_preimage [of x] demo_length by (simp add: arrival_file_def Download_Demo.demo_hash_def piece_bytes_def)
    show "gcm_correct demo_platform" "gcm_total demo_platform" "hmac_total demo_platform"
      by (simp_all add: demo_platform_def gcm_correct_def gcm_total_def hmac_total_def toy_platform_def)
  qed (simp_all add: arrival_user demo_client_def arrival_environment demo_context_def arrival_file_def om_find_def)
  then obtain dl where dl: "DownloadManager_start demo_platform ?en ''g'' ''f'' ''d'' demo_client [] = (''OK download started'' @ [NL], demo_client, [] @ [dl])"
      "dl = demo_download" and runs: "\<And>env tc' fs files s sched. honest_run demo_platform env tc' fs files dl ''hello'' s sched \<Longrightarrow>
        \<exists>k r. Download_run demo_platform (env\<lparr>rn_schedule := map sched [0..<k]\<rparr>) tc' fs files dl = Some r \<and>
          Download_state (snd (snd (snd r))) = CHR ''C'' \<and> fs_files (fst (snd r)) ''d'' = Some ''hello''"
    by blast
  from runs [unfolded dl(2), OF arrival_run] dl show ?thesis
    by (simp only: append_Nil) blast
qed

end
