(* ===== verification/Renewal.thy ===== *)
theory Renewal
  imports Arrival
begin

text \<open>
  Tickets last five minutes and downloads take longer.  What \<open>Download::seederAt\<close> gets when a ticket is
  about to expire: a member of the group gets new tickets for the same seeders, somebody who is no
  member any more gets nothing, and the ticket he still has is refused once it has expired.
\<close>

section \<open>The loop over the fresh accesses\<close>

lemma renewed_Nil [simp]: "renewed [] a = a"
  by (simp add: renewed_def)

lemma renewed_Cons [simp]: "renewed (x # fresh) a = renewed fresh (if sa_endpoint x = sa_endpoint a then x else a)"
  by (simp add: renewed_def)

lemma renewed_endpoint [simp]: "sa_endpoint (renewed fresh a) = sa_endpoint a"
  by (induction fresh arbitrary: a) simp_all

lemma renewed_cases: "renewed fresh a = a \<or> renewed fresh a \<in> set fresh"
  by (induction fresh arbitrary: a) (simp_all, metis)

lemma renewed_listed: "x \<in> set fresh \<Longrightarrow> sa_endpoint x = sa_endpoint a \<Longrightarrow> renewed fresh a \<in> set fresh"
proof (induction fresh arbitrary: a)
  case (Cons y ys)
  then show ?case
    using renewed_cases [of ys y] by (cases "x = y") auto
qed simp

text \<open>The whole list: nobody new is asked, and everybody the tracker still lists has a fresh access.\<close>

definition endpoints :: "Download \<Rightarrow> Endpoint list" where
  "endpoints dl = map sa_endpoint (dl_seeders dl)"

lemma seederAt_endpoints: "seederAt P now env tc i dl = (a, tc', dl') \<Longrightarrow> endpoints dl' = endpoints dl"
  by (auto simp: seederAt_def endpoints_def Let_def split: if_splits prod.splits sum.splits)

lemma worker_step_endpoints:
  "worker_step P order env w t = (w', t') \<Longrightarrow> endpoints (tr_download t') = endpoints (tr_download t)"
  by (cases w) (auto simp: worker_step_def Let_def markVerified_def endpoints_def [of "_\<lparr>dl_completed := _\<rparr>"]
      endpoints_def [of "_\<lparr>dl_integrity := _\<rparr>"] endpoints_def [of "tr_download t"]
      dest: seederAt_endpoints fetch_step_held split: prod.splits if_splits)

lemma transfer_step_endpoints: "endpoints (tr_download (transfer_step P order t ev)) = endpoints (tr_download t)"
  by (cases ev) (auto simp: transfer_step_def Download_cancel_def endpoints_def [of "_\<lparr>dl_cancelled := _\<rparr>"]
      endpoints_def [of "tr_download t"] dest: worker_step_endpoints split: prod.splits)

lemma transfer_run_endpoints: "endpoints (tr_download (transfer_run P order evs t)) = endpoints (tr_download t)"
  by (rule run_keeps [of "\<lambda>t'. endpoints (tr_download t') = endpoints (tr_download t)"])
    (simp_all add: transfer_step_endpoints)

section \<open>Members\<close>

lemma seederAccess_expires: "ticket_ok t \<Longrightarrow> SeederAccess_expires (seederAccess P t sd) = tk_expires t"
  by (simp add: SeederAccess_expires_def seederAccess_def decode_encode_ticket)

lemma accessesFor_mem: "a \<in> set (accessesFor P t f) \<longleftrightarrow> (\<exists>u sd. (u, sd) \<in> set (sf_seeders f) \<and> a = seederAccess P t sd)"
  by (auto simp: accessesFor_def)

text \<open>C36: A download of a member does not run out of tickets.  When a thread asks for a seeder whose ticket
  is about to expire, the tracker lists the file and the request gets there and back, then every seeder the
  tracker still lists has a new access, issued to this member for this file, with the key that this
  seeder derives, valid until five minutes after the tracker's clock; and no seeder is exchanged
  for another one.\<close>

theorem member_is_renewed:
  assumes laws: "gcm_correct P" "gcm_total P" "hmac_total P"
    and listed: "word_ok (dl_group dl)" "dl_name dl \<noteq> []" "findGroup (tracker_after P h) (dl_group dl) = Some g"
      "userOf (tracker_after P h) (tc_session tc) \<in> set (gr_members g)" "om_find (gr_files g) (dl_name dl) = Some f"
      "\<And>u sd. (u, sd) \<in> set (sf_seeders f) \<Longrightarrow> plain_seeder sd" "0 \<le> cx_now (se_context se)" "cx_now (se_context se) \<le> 2 ^ 61"
    and delivered: "request_delivered P sk tc env se (tracker_after P h) (locateCommand (dl_group dl) (dl_name dl))"
    and due: "i < length (dl_seeders dl)" "SeederAccess_expires (dl_seeders dl ! i) - now < TICKET_MARGIN_SECONDS"
    and result: "seederAt P now env tc i dl = (access, tc', dl')"
  shows "tc' = tc \<and> access = dl_seeders dl' ! i \<and> endpoints dl' = endpoints dl \<and>
    (\<forall>j<length (dl_seeders dl). (\<exists>(u, sd)\<in>set (sf_seeders f). sd_endpoint sd = sa_endpoint (dl_seeders dl ! j)) \<longrightarrow>
       SeederAccess_expires (dl_seeders dl' ! j) = cx_now (se_context se) + 300 \<and>
       (\<exists>(u, sd)\<in>set (sf_seeders f). sd_endpoint sd = sa_endpoint (dl_seeders dl ! j) \<and>
          dl_seeders dl' ! j = seederAccess P (downloadTicket (userOf (tracker_after P h) (tc_session tc)) (dl_group dl) (dl_name dl)
            (cx_now (se_context se))) sd))"
proof -
  let ?user = "userOf (tracker_after P h) (tc_session tc)"
  let ?t = "downloadTicket ?user (dl_group dl) (dl_name dl) (cx_now (se_context se))"
  let ?fresh = "sort_key SeederAccess_encode (accessesFor P ?t f)"
  have "TrackerClient_locate P env tc (dl_group dl) (dl_name dl) = (Inr (sf_metadata f, ?fresh), tc)"
    by (rule locate_answered [OF laws listed(1-5) _ listed(7,8) delivered]) (rule listed(6))
  then have r: "tc' = tc" "dl' = dl\<lparr>dl_seeders := map (renewed ?fresh) (dl_seeders dl)\<rparr>" "access = dl_seeders dl' ! i"
    using result due(2) by (auto simp: seederAt_def Let_def)
  have "?user \<noteq> []"
    using tracker_okD(5,6) [OF tracker_after_ok] tracker_okD(7) [OF tracker_after_ok listed(3)] listed(4)
    by (fastforce simp: group_ok_def)
  then have ok: "ticket_ok ?t"
    using listed(1,2,7,8) by (simp add: ticket_ok_def downloadTicket_def word_ok_def LIFETIME_SECONDS_def)
  have new: "\<exists>u sd'. (u, sd') \<in> set (sf_seeders f) \<and> sd_endpoint sd' = sa_endpoint (dl_seeders dl ! j) \<and>
      dl_seeders dl' ! j = seederAccess P ?t sd'"
    if j: "j < length (dl_seeders dl)" and there: "(u, sd) \<in> set (sf_seeders f)" "sd_endpoint sd = sa_endpoint (dl_seeders dl ! j)"
    for j u sd
  proof -
    have "seederAccess P ?t sd \<in> set ?fresh"
      using there(1) accessesFor_mem [of "seederAccess P ?t sd" P ?t f] by auto
    then have "renewed ?fresh (dl_seeders dl ! j) \<in> set (accessesFor P ?t f)"
      using renewed_listed [of "seederAccess P ?t sd" ?fresh "dl_seeders dl ! j"] there(2) by (simp add: seederAccess_def)
    then obtain u' sd' where "(u', sd') \<in> set (sf_seeders f)" "renewed ?fresh (dl_seeders dl ! j) = seederAccess P ?t sd'"
      unfolding accessesFor_mem by blast
    moreover from this have "sd_endpoint sd' = sa_endpoint (dl_seeders dl ! j)"
      using renewed_endpoint [of ?fresh "dl_seeders dl ! j"] by (simp add: seederAccess_def)
    ultimately show ?thesis
      using j by (auto simp: r(2))
  qed
  have "SeederAccess_expires (seederAccess P ?t sd) = cx_now (se_context se) + 300" for sd
    using seederAccess_expires [OF ok] by (simp add: downloadTicket_def LIFETIME_SECONDS_def)
  with new r(1,3) seederAt_endpoints [OF result] show ?thesis
    by (auto simp: Bex_def) (metis+)
qed

text \<open>The download of the arrival with a ticket that has ten seconds left.\<close>

definition old_access :: SeederAccess where
  "old_access = seederAccess demo_platform (downloadTicket ''bob'' ''g'' ''f'' 710) seed_seeder"

definition old_download :: Download where
  "old_download = Download_init ''g'' ''f'' ''d'' demo_metadata [old_access]"

lemma old_expires: "SeederAccess_expires old_access = 1010"
  "SeederAccess_expires (seederAccess demo_platform (downloadTicket ''bob'' ''g'' ''f'' 1000) seed_seeder) = 1300"
  by code_simp+

theorem member_is_renewed_witness:
  "\<exists>access dl'. seederAt demo_platform 1000 arrival_call demo_client 0 old_download = (access, demo_client, dl') \<and>
    access = dl_seeders dl' ! 0 \<and> sa_endpoint access = sd_endpoint seed_seeder \<and> SeederAccess_expires access = 1300"
proof -
  obtain access tc' dl' where s: "seederAt demo_platform 1000 arrival_call demo_client 0 old_download = (access, tc', dl')"
    by (metis prod_cases3)
  have fields: "dl_group old_download = ''g''" "dl_name old_download = ''f''" "dl_seeders old_download = [old_access]"
    by (simp_all add: old_download_def Download_init_def)
  have at: "sa_endpoint old_access = sd_endpoint seed_seeder"
    by (simp add: old_access_def seederAccess_def)
  have word: "word_ok ''g''"
    by code_simp
  have laws: "gcm_correct demo_platform" "gcm_total demo_platform" "hmac_total demo_platform"
    by (simp_all add: demo_platform_def gcm_correct_def gcm_total_def hmac_total_def toy_platform_def)
  have call: "request_delivered demo_platform demo_identity demo_client arrival_call arrival_serve (tracker_after demo_platform arrival_history)
      (locateCommand ''g'' ''f'')"
    using arrival_delivered by (simp add: arrival_reaches)
  have plain: "plain_seeder sd" if "(u, sd) \<in> set (sf_seeders arrival_file)" for u sd
    using that by (simp add: arrival_file_def seed_seeder_def plain_seeder_def is_digit_def)
  from member_is_renewed [OF laws _ _ _ _ _ _ _ _ _ _ _ s, unfolded fields, OF word _ arrival_group _ _ _ _ _ call, of arrival_file]
  have "tc' = demo_client \<and> access = dl_seeders dl' ! 0 \<and> endpoints dl' = endpoints old_download \<and>
      SeederAccess_expires (dl_seeders dl' ! 0) = 1300"
    using plain by (simp add: arrival_user demo_client_def arrival_environment demo_context_def om_find_def old_expires
        TICKET_MARGIN_SECONDS_def at arrival_file_def)
  moreover from this have "length (dl_seeders dl') = 1" "sa_endpoint (dl_seeders dl' ! 0) = sd_endpoint seed_seeder"
    using at by (auto simp: endpoints_def fields map_eq_Cons_conv)
  ultimately show ?thesis
    using s by auto
qed

section \<open>Everybody else\<close>

lemma locate_refused:
  assumes "word_ok n" "name \<noteq> []" "\<And>g. findGroup (tracker_after P h) n = Some g \<Longrightarrow> userOf (tracker_after P h) s \<notin> set (gr_members g)"
  shows "\<exists>response. apply_command P s (locateCommand n name) cx (tracker_after P h) =
    (\<lparr>cr_response = response, cr_session = s\<rparr>, tracker_after P h) \<and> \<not> starts_with response ''META ''"
proof (cases "findGroup (tracker_after P h) n")
  case None
  then show ?thesis
    by (simp add: apply_command_def locateCommand_words [OF assms(1,2)] commands_def downloadFile_def reply_def Let_def starts_with_def)
next
  case (Some g)
  with assms(3) show ?thesis
    by (simp add: apply_command_def locateCommand_words [OF assms(1,2)] commands_def downloadFile_def reply_def Let_def starts_with_def)
qed

text \<open>A frame with an expired ticket is denied, whatever else is in it.\<close>

lemma expired_is_denied:
  assumes "split frame CHR ''|'' ! 1 = sa_ticket access" "SeederAccess_expires access \<le> sv_clock env 0"
  shows "respond P peerKey env files frame = DENIED"
  using assms by (auto simp: respond_def Let_def SeederAccess_expires_def expired_def split: option.splits)

text \<open>C22: Who is no longer a member loses access with his last ticket.  When the tracker answers a renewal of
  somebody who is not (or not any more) a member of the group, no access of his download changes; and from
  the moment the ticket he has expires, by the seeder's clock, every frame that carries it is denied,
  whatever key, files and disk the seeder has.\<close>

theorem removed_member_loses_access:
  assumes laws: "gcm_correct P" "gcm_total P"
    and gone: "word_ok (dl_group dl)" "dl_name dl \<noteq> []"
      "\<And>g. findGroup (tracker_after P h) (dl_group dl) = Some g \<Longrightarrow> userOf (tracker_after P h) (tc_session tc) \<notin> set (gr_members g)"
    and delivered: "request_delivered P sk tc env se (tracker_after P h) (locateCommand (dl_group dl) (dl_name dl))"
  shows "seederAt P now env tc i dl = (dl_seeders dl ! i, tc, dl) \<and>
    (\<forall>peerKey senv files frame. split frame CHR ''|'' ! 1 = sa_ticket (dl_seeders dl ! i) \<longrightarrow>
       SeederAccess_expires (dl_seeders dl ! i) \<le> sv_clock senv 0 \<longrightarrow> respond P peerKey senv files frame = DENIED)"
proof -
  obtain response where "apply_command P (tc_session tc) (locateCommand (dl_group dl) (dl_name dl)) (se_context se) (tracker_after P h) =
      (\<lparr>cr_response = response, cr_session = tc_session tc\<rparr>, tracker_after P h)" "\<not> starts_with response ''META ''"
    using locate_refused [OF gone(1,2), of P h "tc_session tc"] gone(3) by blast
  with request_carried(1) [OF laws delivered this(1)]
  have "TrackerClient_locate P env tc (dl_group dl) (dl_name dl) = (Inl response, tc)"
    by (simp add: TrackerClient_locate_def)
  then show ?thesis
    using expired_is_denied by (auto simp: seederAt_def)
qed

text \<open>Before alice has accepted him, bob asks again with an old ticket.\<close>

definition refusal :: string where
  "refusal = ''ERR not a group member'' @ [TAB] @ ''9''"

lemma refusal_delivered:
  "request_delivered demo_platform demo_identity demo_client (call_for refusal) arrival_serve (tracker_after demo_platform demo_setup)
     (locateCommand ''g'' ''f'')"
proof (rule answer_delivered [OF _ refusal_def])
  show "fst (apply_command demo_platform 9 (locateCommand ''g'' ''f'') (demo_context 0) (tracker_after demo_platform demo_setup)) =
      \<lparr>cr_response = ''ERR not a group member'', cr_session = 9\<rparr>"
    unfolding arrival_early by code_simp
qed code_simp+

theorem removed_member_loses_access_witness:
  "seederAt demo_platform 1000 (call_for refusal) demo_client 0 old_download = (old_access, demo_client, old_download) \<and>
    respond demo_platform seed_key (seed_env\<lparr>sv_clock := (\<lambda>_. 1010)\<rparr>) seed_files (''21|'' @ sa_ticket old_access @ ''|00|00|00'') = DENIED"
proof -
  have fields: "dl_group old_download = ''g''" "dl_name old_download = ''f''" "dl_seeders old_download ! 0 = old_access"
    by (simp_all add: old_download_def Download_init_def)
  have word: "word_ok ''g''"
    by code_simp
  have laws: "gcm_correct demo_platform" "gcm_total demo_platform"
    by (simp_all add: demo_platform_def gcm_correct_def gcm_total_def toy_platform_def)
  have "split (''21|'' @ sa_ticket old_access @ ''|00|00|00'') CHR ''|'' ! 1 = sa_ticket old_access"
    by code_simp
  moreover note removed_member_loses_access [OF laws, of old_download demo_setup demo_client, unfolded fields, OF word _ _ refusal_delivered, of 1000 0]
  moreover have "userOf (tracker_after demo_platform demo_setup) (tc_session demo_client) \<notin> set (gr_members g)"
    if "findGroup (tracker_after demo_platform demo_setup) ''g'' = Some g" for g
    using that by (auto simp: arrival_early demo_early_def findGroup_def om_find_def userOf_def demo_client_def)
  ultimately show ?thesis
    by (simp add: fields old_expires)
qed

end
