(* ===== verification/Tracker_Threads.thy ===== *)
theory Tracker_Threads
  imports Tracker_Service Tracker_Access
begin

text \<open>
  The tracker serves each connection on a thread of its own (\<open>tracker/main.cpp\<close>,
  \<open>tracker/tracker_service.cpp\<close>).  A step of a thread is one access to what the threads share: the tracker's
  state, whose methods hold a mutex from beginning to end, or the log; what the thread does on its own
  connection before and after goes with it.  \<open>handle\<close> is not one such access: it reads the user of the
  session, applies the command and writes the log line in three.
\<close>

section \<open>The threads\<close>

text \<open>The fields of a request as \<open>handle\<close> takes them apart.\<close>

definition parse_request :: "string \<Rightarrow> (u64 \<times> string) option" where
  "parse_request request =
     (let parts = split request TAB in
      if length parts < 3 \<or> parts ! 0 \<noteq> ''C'' then None
      else case parseU64 (parts ! 1) of None \<Rightarrow> None | Some session \<Rightarrow> Some (session, join (drop 2 parts) TAB))"

definition reply_text :: "CommandResult \<Rightarrow> string" where
  "reply_text result = cr_response result @ [TAB] @ to_string_u64 (cr_session result)"

definition request_line :: "string \<Rightarrow> string \<Rightarrow> string \<Rightarrow> CommandResult \<Rightarrow> string" where
  "request_line user client command result =
     log_info ((if user = [] then ''(not logged in)'' else user) @ '' @ '' @ client @ '': '' @ safeCommand command @ '' -> '' @
       safeResponse (cr_response result))"

lemma handle_parsed:
  "handle P request client cx st =
     (case parse_request request of
        None \<Rightarrow> (''ERR malformed request'' @ [TAB] @ ''0'', log_error (client @ '' sent a malformed request''), st)
      | Some (session, command) \<Rightarrow>
          (case apply_command P session command cx st of
             (result, st') \<Rightarrow> (reply_text result, request_line (userOf st session) client command result, st')))"
  by (simp add: handle_def parse_request_def reply_text_def request_line_def Let_def split: option.split prod.split)

datatype conn =
    Cn_new                                             \<comment> \<open>about to log the connection\<close>
  | Cn_open                                            \<comment> \<open>about to shake hands and receive\<close>
  | Cn_asked SecureChannel u64 string                  \<comment> \<open>about to look the session's user up\<close>
  | Cn_named SecureChannel u64 string string           \<comment> \<open>about to apply the command\<close>
  | Cn_applied SecureChannel string string CommandResult  \<comment> \<open>about to log it\<close>
  | Cn_ready SecureChannel string                      \<comment> \<open>about to reply\<close>
  | Cn_closed "SecureChannel option"

record tracker_system =
  sy_state :: TrackerState
  sy_log :: "string list"
  sy_conns :: "conn list"

text \<open>One step of the thread of the connection \<open>env\<close>: its next phase, the state, the line it logs.\<close>

definition conn_step :: "platform \<Rightarrow> string \<Rightarrow> server_env \<Rightarrow> conn \<Rightarrow> TrackerState \<Rightarrow> conn \<times> TrackerState \<times> string list" where
  "conn_step P identityPrivateKey env c st =
     (let client = se_client env in
      case c of
        Cn_new \<Rightarrow> (Cn_open, st, [log_info (''Connection from '' @ client)])
      | Cn_open \<Rightarrow>
          (case SecureChannel_accept P (se_keys env) (se_nonce env) (se_clock env) (se_socket env) identityPrivateKey of
             None \<Rightarrow> (Cn_closed None, st, [log_error (client @ '': secure handshake failed'')])
           | Some channel \<Rightarrow>
               (case SecureChannel_receive P channel of
                  (None, channel1) \<Rightarrow> (Cn_closed (Some channel1), st, [log_error (client @ '': no request received'')])
                | (Some request, channel1) \<Rightarrow>
                    (case parse_request request of
                       None \<Rightarrow> (Cn_ready channel1 (''ERR malformed request'' @ [TAB] @ ''0''), st,
                         [log_error (client @ '' sent a malformed request'')])
                     | Some (session, command) \<Rightarrow> (Cn_asked channel1 session command, st, []))))
      | Cn_asked channel session command \<Rightarrow> (Cn_named channel session command (userOf st session), st, [])
      | Cn_named channel session command user \<Rightarrow>
          (case apply_command P session command (se_context env) st of
             (result, st') \<Rightarrow> (Cn_applied channel user command result, st', []))
      | Cn_applied channel user command result \<Rightarrow>
          (Cn_ready channel (reply_text result), st, [request_line user client command result])
      | Cn_ready channel message \<Rightarrow>
          (case SecureChannel_send P (se_frame env) channel message of
             (sent, channel') \<Rightarrow>
               (Cn_closed (Some channel'), st, if sent then [] else [log_error (client @ '': could not send the reply'')]))
      | Cn_closed channel \<Rightarrow> (Cn_closed channel, st, []))"

definition system_step :: "platform \<Rightarrow> string \<Rightarrow> server_env list \<Rightarrow> tracker_system \<Rightarrow> nat \<Rightarrow> tracker_system" where
  "system_step P identityPrivateKey envs t i =
     (if i < length (sy_conns t)
      then case conn_step P identityPrivateKey (envs ! i) (sy_conns t ! i) (sy_state t) of
        (c, st, lines) \<Rightarrow> \<lparr>sy_state = st, sy_log = sy_log t @ lines, sy_conns = (sy_conns t)[i := c]\<rparr>
      else t)"

definition system_start :: "server_env list \<Rightarrow> TrackerState \<Rightarrow> tracker_system" where
  "system_start envs st = \<lparr>sy_state = st, sy_log = [], sy_conns = replicate (length envs) Cn_new\<rparr>"

definition system_run :: "platform \<Rightarrow> string \<Rightarrow> server_env list \<Rightarrow> TrackerState \<Rightarrow> nat list \<Rightarrow> tracker_system" where
  "system_run P identityPrivateKey envs st sched = foldl (system_step P identityPrivateKey envs) (system_start envs st) sched"

text \<open>The same connections one after the other.\<close>

definition served :: "platform \<Rightarrow> string \<Rightarrow> server_env list \<Rightarrow> TrackerState \<Rightarrow> nat list \<Rightarrow> TrackerState" where
  "served P identityPrivateKey envs st os =
     foldl (\<lambda>st i. fst (snd (tracker_connection P identityPrivateKey (envs ! i) st))) st os"

definition outcome :: "platform \<Rightarrow> string \<Rightarrow> server_env \<Rightarrow> TrackerState \<Rightarrow> SecureChannel option" where
  "outcome P identityPrivateKey env st = snd (snd (tracker_connection P identityPrivateKey env st))"

section \<open>Interleaved and one after the other\<close>

definition received :: "platform \<Rightarrow> string \<Rightarrow> server_env \<Rightarrow> SecureChannel \<Rightarrow> u64 \<Rightarrow> string \<Rightarrow> bool" where
  "received P sk env channel1 session command \<longleftrightarrow>
     (\<exists>channel request. SecureChannel_accept P (se_keys env) (se_nonce env) (se_clock env) (se_socket env) sk = Some channel \<and>
        SecureChannel_receive P channel = (Some request, channel1) \<and> parse_request request = Some (session, command))"

text \<open>What a connection that came this far does as a whole.\<close>

lemma received_connection:
  assumes "received P sk env channel session command" "apply_command P session command (se_context env) st = (result, st')"
  shows "fst (snd (tracker_connection P sk env st)) = st' \<and>
    outcome P sk env st = Some (snd (SecureChannel_send P (se_frame env) channel (reply_text result)))"
  using assms by (auto simp: received_def tracker_connection_def outcome_def handle_parsed Let_def split: prod.splits)

text \<open>A connection that never applies a command: whatever the state is, it leaves it alone and does the same.\<close>

definition idle :: "platform \<Rightarrow> string \<Rightarrow> server_env \<Rightarrow> SecureChannel option \<Rightarrow> bool" where
  "idle P sk env c \<longleftrightarrow> (\<forall>st. fst (snd (tracker_connection P sk env st)) = st \<and> outcome P sk env st = c)"

definition before :: "nat list \<Rightarrow> nat \<Rightarrow> nat list" where
  "before os i = takeWhile (\<lambda>j. j \<noteq> i) os"

text \<open>\<open>os\<close> are the connections whose command has been applied, and those that ended without one, in that order.\<close>

definition conn_ok :: "platform \<Rightarrow> string \<Rightarrow> server_env list \<Rightarrow> TrackerState \<Rightarrow> nat list \<Rightarrow> nat \<Rightarrow> conn \<Rightarrow> bool" where
  "conn_ok P sk envs st0 os i c \<longleftrightarrow>
     (let env = envs ! i; st = served P sk envs st0 (before os i) in
      case c of
        Cn_new \<Rightarrow> i \<notin> set os
      | Cn_open \<Rightarrow> i \<notin> set os
      | Cn_asked channel session command \<Rightarrow> i \<notin> set os \<and> received P sk env channel session command
      | Cn_named channel session command user \<Rightarrow> i \<notin> set os \<and> received P sk env channel session command
      | Cn_applied channel user command result \<Rightarrow>
          i \<in> set os \<and> outcome P sk env st = Some (snd (SecureChannel_send P (se_frame env) channel (reply_text result)))
      | Cn_ready channel message \<Rightarrow>
          if i \<in> set os then outcome P sk env st = Some (snd (SecureChannel_send P (se_frame env) channel message))
          else idle P sk env (Some (snd (SecureChannel_send P (se_frame env) channel message)))
      | Cn_closed channel \<Rightarrow> i \<in> set os \<and> outcome P sk env st = channel)"

lemma before_snoc: "i \<in> set os \<Longrightarrow> before (os @ js) i = before os i" "i \<notin> set os \<Longrightarrow> before (os @ i # js) i = os"
  by (auto simp: before_def takeWhile_append)

lemma before_prefix:
  assumes "i \<in> set (take k os)" "j \<notin> set (take k os)"
  shows "i \<in> set (before os j)"
proof -
  have "takeWhile (\<lambda>x. x \<noteq> j) (take k os @ drop k os) = take k os @ takeWhile (\<lambda>x. x \<noteq> j) (drop k os)"
    using assms(2) by (intro takeWhile_append2) blast
  with assms(1) show ?thesis
    by (simp add: before_def)
qed

lemma conn_ok_snoc: "i \<noteq> j \<Longrightarrow> conn_ok P sk envs st0 os i c \<Longrightarrow> conn_ok P sk envs st0 (os @ [j]) i c"
  by (cases "i \<in> set os"; cases c) (auto simp: conn_ok_def before_snoc Let_def)

definition system_ok :: "platform \<Rightarrow> string \<Rightarrow> server_env list \<Rightarrow> TrackerState \<Rightarrow> nat list \<Rightarrow> tracker_system \<Rightarrow> bool" where
  "system_ok P sk envs st0 os t \<longleftrightarrow> distinct os \<and> set os \<subseteq> {..<length envs} \<and> length (sy_conns t) = length envs \<and>
     sy_state t = served P sk envs st0 os \<and> (\<forall>i<length envs. conn_ok P sk envs st0 os i (sy_conns t ! i))"

text \<open>Every step keeps the correspondence; the order grows by the connection whose command is applied, or that
  ends without one.\<close>

lemma open_step:
  assumes "conn_step P sk env Cn_open st = (c, st', lines)"
  shows "st' = st \<and> ((\<exists>channel. c = Cn_closed channel \<and> idle P sk env channel) \<or>
    (\<exists>channel message. c = Cn_ready channel message \<and> idle P sk env (Some (snd (SecureChannel_send P (se_frame env) channel message)))) \<or>
    (\<exists>channel session command. c = Cn_asked channel session command \<and> received P sk env channel session command))"
  using assms
  by (auto simp: conn_step_def Let_def idle_def outcome_def tracker_connection_def received_def handle_parsed split: option.splits prod.splits)

lemma served_snoc: "served P sk envs st0 (os @ [i]) = fst (snd (tracker_connection P sk (envs ! i) (served P sk envs st0 os)))"
  by (simp add: served_def)

lemma idle_joins:
  assumes "idle P sk (envs ! i) channel" "i \<notin> set os"
  shows "\<exists>os'. (os' = os \<or> i \<notin> set os \<and> os' = os @ [i]) \<and> served P sk envs st0 os = served P sk envs st0 os' \<and>
    conn_ok P sk envs st0 os' i (Cn_closed channel)"
  using assms by (intro exI [of _ "os @ [i]"]) (simp add: served_snoc idle_def conn_ok_def Let_def)

lemma conn_step_ok:
  assumes step: "conn_step P sk (envs ! i) w (served P sk envs st0 os) = (c, st', lines)" and ok: "conn_ok P sk envs st0 os i w"
  shows "\<exists>os'. (os' = os \<or> i \<notin> set os \<and> os' = os @ [i]) \<and> st' = served P sk envs st0 os' \<and> conn_ok P sk envs st0 os' i c"
proof (cases w)
  case Cn_open
  then have new: "i \<notin> set os"
    using ok by (simp add: conn_ok_def Let_def)
  from open_step [OF step [unfolded Cn_open]] consider
      channel where "st' = served P sk envs st0 os" "c = Cn_closed channel" "idle P sk (envs ! i) channel"
    | "st' = served P sk envs st0 os" "conn_ok P sk envs st0 os i c"
    using new by (auto simp: conn_ok_def Let_def)
  then show ?thesis
  proof cases
    case 1
    from idle_joins [OF this(3) new] show ?thesis
      unfolding 1(1,2) .
  next
    case 2
    then show ?thesis
      by blast
  qed
next
  case (Cn_named channel session command user)
  then have new: "i \<notin> set os" and req: "received P sk (envs ! i) channel session command"
    using ok by (simp_all add: conn_ok_def Let_def)
  obtain result where run: "apply_command P session command (se_context (envs ! i)) (served P sk envs st0 os) = (result, st')"
      and c: "c = Cn_applied channel user command result"
    using step Cn_named by (auto simp: conn_step_def Let_def split: prod.splits)
  from received_connection [OF req run] new show ?thesis
    by (intro exI [of _ "os @ [i]"]) (simp add: c served_snoc conn_ok_def Let_def before_snoc)
next
  case (Cn_ready channel message)
  let ?c = "Some (snd (SecureChannel_send P (se_frame (envs ! i)) channel message))"
  have over: "st' = served P sk envs st0 os" "c = Cn_closed ?c"
    using step Cn_ready by (auto simp: conn_step_def Let_def split: prod.splits)
  show ?thesis
  proof (cases "i \<in> set os")
    case True
    then show ?thesis
      using ok Cn_ready by (simp add: over conn_ok_def Let_def)
  next
    case False
    then have "idle P sk (envs ! i) ?c"
      using ok Cn_ready by (simp add: conn_ok_def Let_def)
    from idle_joins [OF this False] show ?thesis
      unfolding over .
  qed
qed (use step ok in \<open>auto simp: conn_step_def conn_ok_def Let_def split: prod.splits\<close>)

lemma system_step_ok:
  assumes ok: "system_ok P sk envs st0 os t"
  shows "\<exists>js. system_ok P sk envs st0 (os @ js) (system_step P sk envs t i)"
proof (cases "i < length envs")
  case True
  have t: "distinct os" "set os \<subseteq> {..<length envs}" "length (sy_conns t) = length envs" "sy_state t = served P sk envs st0 os"
      "\<And>j. j < length envs \<Longrightarrow> conn_ok P sk envs st0 os j (sy_conns t ! j)"
    using ok by (auto simp: system_ok_def)
  obtain c st' lines where step: "conn_step P sk (envs ! i) (sy_conns t ! i) (sy_state t) = (c, st', lines)"
    by (metis prod_cases3)
  from conn_step_ok [OF step [unfolded t(4)] t(5) [OF True]] obtain os' where
    os': "os' = os \<or> i \<notin> set os \<and> os' = os @ [i]" "st' = served P sk envs st0 os'" "conn_ok P sk envs st0 os' i c"
    by blast
  have "conn_ok P sk envs st0 os' j (sy_conns t ! j)" if "j < length envs" "j \<noteq> i" for j
    using os'(1) t(5) [OF that(1)] conn_ok_snoc [OF that(2)] by blast
  then have "system_ok P sk envs st0 os' (system_step P sk envs t i)"
    using t(1-3) os' True step by (auto simp: system_ok_def system_step_def nth_list_update)
  with os'(1) show ?thesis
    by (metis append_Nil2)
qed (use ok in \<open>auto simp: system_step_def system_ok_def intro: exI [of _ "[]"]\<close>)

text \<open>One order serves for a whole schedule: for each of its beginnings, the beginning of the order is good.\<close>

lemma system_run_ok:
  "\<exists>os. system_ok P sk envs st0 os (system_run P sk envs st0 sched) \<and>
    (\<forall>a b. sched = a @ b \<longrightarrow> (\<exists>k\<le>length os. system_ok P sk envs st0 (take k os) (system_run P sk envs st0 a)))"
proof (induction sched rule: rev_induct)
  case Nil
  have "system_ok P sk envs st0 [] (system_start envs st0)"
    by (simp add: system_ok_def system_start_def served_def conn_ok_def Let_def)
  then show ?case
    by (auto simp: system_run_def)
next
  case (snoc i sched)
  then obtain os where os: "system_ok P sk envs st0 os (system_run P sk envs st0 sched)"
      "\<And>a b. sched = a @ b \<Longrightarrow> \<exists>k\<le>length os. system_ok P sk envs st0 (take k os) (system_run P sk envs st0 a)"
    by blast
  obtain js where js: "system_ok P sk envs st0 (os @ js) (system_run P sk envs st0 (sched @ [i]))"
    using system_step_ok [OF os(1), of i] by (auto simp: system_run_def)
  have "\<exists>k\<le>length (os @ js). system_ok P sk envs st0 (take k (os @ js)) (system_run P sk envs st0 a)" if "sched @ [i] = a @ b" for a b
  proof (cases b rule: rev_cases)
    case Nil
    then show ?thesis
      using js that by (intro exI [of _ "length (os @ js)"]) simp
  next
    case (snoc b' j)
    then have "sched = a @ b'"
      using that by simp
    from os(2) [OF this] show ?thesis
      by (metis append_Nil2 diff_is_0_eq length_append take0 take_append trans_le_add1)
  qed
  with js show ?case
    by blast
qed

section \<open>Every thread comes to its end\<close>

fun conn_rank :: "conn \<Rightarrow> nat" where
  "conn_rank Cn_new = 6"
| "conn_rank Cn_open = 5"
| "conn_rank (Cn_asked ch s cmd) = 4"
| "conn_rank (Cn_named ch s cmd u) = 3"
| "conn_rank (Cn_applied ch u cmd r) = 2"
| "conn_rank (Cn_ready ch m) = 1"
| "conn_rank (Cn_closed c) = 0"

lemma conn_rank_closed: "conn_rank c = 0 \<longleftrightarrow> (\<exists>channel. c = Cn_closed channel)"
  by (cases c) simp_all

lemma conn_step_rank: "conn_step P sk env w st = (c, st', lines) \<Longrightarrow> conn_rank c \<le> conn_rank w - 1"
  by (cases w) (auto simp: conn_step_def Let_def split: option.splits prod.splits)

lemma system_run_snoc: "system_run P sk envs st (sched @ [i]) = system_step P sk envs (system_run P sk envs st sched) i"
  by (simp add: system_run_def)

lemma length_conns: "length (sy_conns (system_run P sk envs st sched)) = length envs"
proof (induction sched rule: rev_induct)
  case (snoc i sched)
  then show ?case
    unfolding system_run_snoc by (simp add: system_step_def split: prod.split)
qed (simp add: system_run_def system_start_def)

lemma turns_left:
  "i < length envs \<Longrightarrow> conn_rank (sy_conns (system_run P sk envs st sched) ! i) \<le> 6 - count_list sched i"
proof (induction sched rule: rev_induct)
  case (snoc j sched)
  let ?t = "system_run P sk envs st sched"
  obtain c st' lines where step: "conn_step P sk (envs ! i) (sy_conns ?t ! i) (sy_state ?t) = (c, st', lines)"
    by (metis prod_cases3)
  show ?case
  proof (cases "j = i")
    case True
    then have "sy_conns (system_run P sk envs st (sched @ [j])) ! i = c"
      using snoc.prems step length_conns [of P sk envs st sched] unfolding system_run_snoc by (simp add: system_step_def)
    with conn_step_rank [OF step] snoc True show ?thesis
      by simp
  next
    case False
    then have "sy_conns (system_run P sk envs st (sched @ [j])) ! i = sy_conns ?t ! i"
      unfolding system_run_snoc by (simp add: system_step_def split: prod.split)
    with snoc False show ?thesis
      by simp
  qed
qed (simp add: system_run_def system_start_def)

section \<open>Histories\<close>

text \<open>At any moment the state is one that a history of commands leads to, with at most one command per
  connection: what holds after every history holds of the concurrent tracker.\<close>

lemma connection_history:
  "\<exists>h. length h \<le> 1 \<and> fst (snd (tracker_connection P sk env (tracker_after P h0))) = tracker_after P (h0 @ h)"
proof -
  have "fst (snd (tracker_connection P sk env st)) = st \<or>
      (\<exists>session command. fst (snd (tracker_connection P sk env st)) = snd (apply_command P session command (se_context env) st))" for st
    unfolding tracker_connection_def handle_parsed Let_def
    by (auto split: option.split prod.split) (metis snd_conv)
  then consider "fst (snd (tracker_connection P sk env (tracker_after P h0))) = tracker_after P h0"
    | session command where "fst (snd (tracker_connection P sk env (tracker_after P h0))) =
        snd (apply_command P session command (se_context env) (tracker_after P h0))"
    by metis
  then show ?thesis
  proof cases
    case 1
    then show ?thesis by (intro exI [of _ "[]"]) simp
  next
    case 2
    then show ?thesis by (intro exI [of _ "[(session, command, se_context env)]"]) simp
  qed
qed

lemma concurrent_history:
  "\<exists>h. length h \<le> length envs \<and> sy_state (system_run P sk envs (tracker_after P h0) sched) = tracker_after P (h0 @ h)"
proof -
  obtain os where ok: "system_ok P sk envs (tracker_after P h0) os (system_run P sk envs (tracker_after P h0) sched)"
    using system_run_ok by blast
  have "\<exists>h. length h \<le> length os \<and> served P sk envs (tracker_after P h0) os = tracker_after P (h0 @ h)"
  proof (induction os rule: rev_induct)
    case (snoc i os)
    then obtain h where h: "length h \<le> length os" "served P sk envs (tracker_after P h0) os = tracker_after P (h0 @ h)"
      by blast
    obtain g where "length g \<le> 1" "fst (snd (tracker_connection P sk (envs ! i) (tracker_after P (h0 @ h)))) = tracker_after P ((h0 @ h) @ g)"
      using connection_history by blast
    with h show ?case
      by (intro exI [of _ "h @ g"]) (simp add: served_snoc)
  qed (auto simp: served_def intro: exI [of _ "[]"])
  moreover have "length os \<le> length envs"
    using ok card_mono [of "{..<length envs}" "set os"] by (auto simp: system_ok_def distinct_card)
  ultimately show ?thesis
    using ok by (fastforce simp: system_ok_def)
qed

end
