(* ===== verification/Concurrency_Properties.thy ===== *)
theory Concurrency_Properties
  imports Tracker_Threads Session_Properties
begin

text \<open>
  What the interleaving of the tracker's connection threads can and cannot do: their effect is that of
  serving the connections one after the other, although a request is handled in several steps.
\<close>

text \<open>C6: The tracker is linearizable: let connections be served on threads of their own, in any interleaving in
  which each gets its six turns.  Then the state they leave, and what each of them received and sent, is
  that of serving the same connections one after the other in some order; and in that order a
  connection that was closed before another one began comes first.\<close>

theorem connections_serialize:
  assumes "\<And>i. i < length envs \<Longrightarrow> 6 \<le> count_list sched i"
  shows "\<exists>os. distinct os \<and> set os = {..<length envs} \<and>
    sy_state (system_run P sk envs st sched) = served P sk envs st os \<and>
    (\<forall>i<length envs. sy_conns (system_run P sk envs st sched) ! i =
       Cn_closed (snd (snd (tracker_connection P sk (envs ! i) (served P sk envs st (takeWhile (\<lambda>j. j \<noteq> i) os)))))) \<and>
    (\<forall>a b i j c. sched = a @ b \<longrightarrow> i < length envs \<longrightarrow> j < length envs \<longrightarrow>
       sy_conns (system_run P sk envs st a) ! i = Cn_closed c \<longrightarrow> sy_conns (system_run P sk envs st a) ! j = Cn_new \<longrightarrow>
       i \<in> set (takeWhile (\<lambda>k. k \<noteq> j) os))"
proof -
  let ?t = "system_run P sk envs st sched"
  from system_run_ok [of P sk envs st sched] obtain os where ok: "system_ok P sk envs st os ?t"
      and prefixes: "\<And>a b. sched = a @ b \<Longrightarrow> \<exists>k\<le>length os. system_ok P sk envs st (take k os) (system_run P sk envs st a)"
    by (metis (no_types))
  have closed: "\<exists>c. sy_conns ?t ! i = Cn_closed c" if "i < length envs" for i
    using turns_left [OF that, of P sk st sched] assms [OF that] conn_rank_closed by simp
  have ended: "i \<in> set os \<and> sy_conns ?t ! i = Cn_closed (outcome P sk (envs ! i) (served P sk envs st (before os i)))"
    if "i < length envs" for i
    using ok closed [OF that] that by (auto simp: system_ok_def conn_ok_def Let_def)
  have earlier: "i \<in> set (before os j)"
    if split: "sched = a @ b" and "i < length envs" "j < length envs" and
      "sy_conns (system_run P sk envs st a) ! i = Cn_closed c" "sy_conns (system_run P sk envs st a) ! j = Cn_new" for a b i j c
  proof -
    obtain k where "system_ok P sk envs st (take k os) (system_run P sk envs st a)"
      using prefixes [OF split] by blast
    then have "i \<in> set (take k os)" "j \<notin> set (take k os)"
      using that by (force simp: system_ok_def conn_ok_def Let_def)+
    then show ?thesis
      by (rule before_prefix)
  qed
  have "distinct os" "set os = {..<length envs}" "sy_state ?t = served P sk envs st os"
    using ok ended by (auto simp: system_ok_def)
  with ended earlier show ?thesis
    unfolding outcome_def before_def by blast
qed

text \<open>Two connections of one client, taking turns.\<close>

theorem connections_serialize_witness:
  "\<exists>os. distinct os \<and> set os = {0, 1} \<and>
    sy_state (system_run toy_platform demo_identity [demo_serve, demo_serve] demo_state (concat (replicate 6 [0, 1]))) =
      served toy_platform demo_identity [demo_serve, demo_serve] demo_state os"
proof -
  have "6 \<le> count_list (concat (replicate 6 [0, 1])) i" if "i < length [demo_serve, demo_serve]" for i :: nat
    using that by (auto simp: less_Suc_eq eval_nat_numeral)
  from connections_serialize [of "[demo_serve, demo_serve]" "concat (replicate 6 [0, 1])" toy_platform demo_identity demo_state, OF this]
  show ?thesis
    by (auto simp: lessThan_Suc insert_commute)
qed

end
