(* ===== verification/Findings.thy ===== *)
theory Findings
  imports Renewal Concurrency_Properties
begin

text \<open>
  Behaviour of the code that its comments or documents describe otherwise, or that it cannot mean to
  have.  Each lemma exhibits it on the model; the manifest says which place in the sources it is about.
\<close>

section \<open>The channel between client and tracker\<close>

text \<open>A hello is refused when its time stamp is not fresh: clocks do have to agree.\<close>

lemma stale_hello_is_refused:
  assumes "Socket_receiveFrame sock = (Some hello, sock')" "\<not> isFreshTimestamp (now 0) (now 1) (split hello CHR ''|'' ! 3)"
  shows "SecureChannel_accept P kg r now sock sk = None"
  using assms by (auto simp: SecureChannel_accept_def parseHello_def split: option.split)

text \<open>Sealed frames carry no number: one that arrives twice on a connection is accepted twice.\<close>

lemma replayed_frame_is_accepted:
  assumes "SecureChannel_receive P channel = (Some plain, channel1)"
    and "Socket_receiveFrame (sc_socket channel) = (Some frame, sock1)" "Socket_receiveFrame sock1 = (Some frame, sock2)"
  shows "fst (SecureChannel_receive P channel1) = Some plain"
  using assms by (auto simp: SecureChannel_receive_def split: if_splits)

section \<open>The tracker\<close>

text \<open>A refused command leaves the password where it was.\<close>

lemma refused_account_keeps_password:
  assumes "om_find (ts_users st) (rq_args request ! 0) \<noteq> None"
  shows "fst (snd (createUser P request st)) = request"
  using assms by (auto simp: createUser_def Let_def)

lemma unknown_user_keeps_password:
  assumes "om_find (ts_users st) (rq_args request ! 0) = None"
  shows "fst (snd (login P request st)) = request"
  using assms by (simp add: login_def Let_def)

text \<open>A caller can choose the number of his session.\<close>

lemma login_keeps_chosen_session:
  assumes "rq_session request = s" "s \<noteq> 0" "rq_user request = []"
    and "om_find (ts_users st) (rq_args request ! 0) = Some stored" "password_verify P (rq_args request ! 1) stored"
  shows "cr_session (fst (login P request st)) = s"
    "om_find (ts_sessions (snd (snd (login P request st)))) s = om_find (om_insert s (rq_args request ! 0) (ts_sessions st)) s"
  using assms by (simp_all add: login_def Let_def)

lemma mistyped_command_is_logged: "safeCommand ''Login alice pw'' = ''Login alice pw''"
  by code_simp

text \<open>The user's name in a log line and the state the command ran in can be of different moments: here
  alice's session ends between the two, and the line says that alice was told to log in.\<close>

lemma log_names_who_was_logged_in:
  assumes "userOf st session = user" "apply_command P session command (se_context env) st' = (result, st'')"
  shows "fst (conn_step P sk env (fst (conn_step P sk env (Cn_asked channel session command) st)) st') =
    Cn_applied channel user command result"
  using assms by (simp add: conn_step_def Let_def)

definition alice_left :: TrackerState where
  "alice_left = demo_state\<lparr>ts_sessions := [(9, ''bob'')]\<rparr>"

lemma alice_is_named:
  "fst (apply_command toy_platform 7 ''logout'' (demo_context 0) demo_state) = \<lparr>cr_response = ''OK logged out'', cr_session = 0\<rparr>"
  "userOf demo_state 7 = ''alice''"
  "fst (apply_command toy_platform 7 ''list_groups'' (demo_context 0) alice_left) = \<lparr>cr_response = ''ERR login required'', cr_session = 7\<rparr>"
  "request_line (userOf demo_state 7) ''c'' ''list_groups'' (fst (apply_command toy_platform 7 ''list_groups'' (demo_context 0) alice_left)) =
     ''alice @ c: list_groups -> ERR login required''"
  by code_simp+

section \<open>Addresses and digests\<close>

text \<open>What follows a NUL byte in an address is not looked at, and stays in it.\<close>

lemma address_with_a_tail:
  assumes "pf_inet_pton P ip" "ip \<noteq> []" "NUL \<notin> set ip" "CHR '':'' \<notin> set ip" "CHR '':'' \<notin> set tail"
  shows "Endpoint_parse P (ip @ NUL # tail @ '':80'') = Some \<lparr>ep_ip = ip @ NUL # tail, ep_port = 80\<rparr>"
proof -
  have "c_str (ip @ NUL # tail) = ip"
    using assms(3) by (simp add: c_str_def takeWhile_upto)
  moreover have "takeWhile (\<lambda>c. c \<noteq> CHR '':'') (ip @ NUL # tail @ '':80'') = ip @ NUL # tail"
    "dropWhile (\<lambda>c. c \<noteq> CHR '':'') (ip @ NUL # tail @ '':80'') = '':80''"
    using takeWhile_upto [of "CHR '':''" "ip @ NUL # tail" "''80''"] dropWhile_upto [of "CHR '':''" "ip @ NUL # tail" "''80''"] assms(4,5)
    by simp_all
  moreover have "parseU64 ''80'' = Some 80"
    by code_simp
  ultimately show ?thesis
    using assms(1,2) by (simp add: Endpoint_parse_def toAddress_def)
qed

text \<open>A digest with a capital letter is valid, but no file has it.\<close>

lemma upper_case_digest_is_of_no_file:
  assumes "is_upper_xdigit c" "c \<in> set (fm_fullHash m)" "PieceFile_hash P content bad = Some actual"
  shows "fm_fullHash actual \<noteq> fm_fullHash m"
proof -
  obtain whole where "fm_fullHash actual = sha1_hexDigest P whole"
    using assms(3) by (auto simp: PieceFile_hash_def Let_def split: option.splits if_splits prod.splits)
  then have "fm_fullHash actual = toHex (into_buffer 20 (pf_sha1 P whole))"
    by (simp add: sha1_hexDigest_def)
  with assms(1,2) toHex_chars show ?thesis
    by metis
qed

section \<open>Downloads\<close>

text \<open>Data that is longer than its piece runs over what follows.\<close>

lemma long_piece_overwrites:
  assumes "524288 < length data"
  shows "PieceFile_write [Io_count (length data)] content 0 data = (True, data @ drop (length data) content)"
  using write_at_once [of data 0 content] assms by (cases data) (auto simp: pieceOffset_def write_at_def padded_def)

text \<open>A download that is complete is served again, whatever the tracker said to its last \<open>share\<close>.\<close>

lemma refused_share_is_served:
  assumes "PieceFile_hash P (fs_files fs (partPath dl)) (co_bad env) = Some (dl_metadata dl)" "co_renames env"
    and "TrackerClient_share P (co_share env) tc (dl_group dl) (dl_name dl) (dl_metadata dl) = (True, ''ERR not a group member'', tc)"
  shows "SharedFiles_find (dl_group dl) (dl_name dl) (fst (snd (snd (Download_complete P env tc fs files dl)))) =
    Some \<lparr>lf_path = dl_destination dl, lf_metadata = dl_metadata dl, lf_available = replicate (pieceCount (dl_metadata dl)) True\<rparr>"
  using assms by (simp add: Download_complete_def Let_def shared.lookup_add)

text \<open>Two downloads of one file to two places are started, and share one entry of the table: what the
  first one verifies afterwards is offered from the partial file of the second, which need not have it.\<close>

lemma second_download_is_started:
  assumes "dl_destination first \<noteq> path" "\<not> sn_is_directory env path" "\<not> sn_exists env path"
    and "TrackerClient_locate P (sn_call env) tc gname name = (Inr (metadata, seeders), tc')"
  shows "DownloadManager_start P env gname name path tc [first] =
    (''OK download started'' @ [NL], tc', [first, Download_init gname name path metadata seeders])"
  using assms by (simp add: manager_start_defs Let_def)

lemma first_publishes_for_second:
  assumes "dl_group first = dl_group second" "dl_name first = dl_name second" "piece < length verified"
    and "part = \<lparr>lf_path = partPath second, lf_metadata = dl_metadata second, lf_available = verified\<rparr>"
    and "files = SharedFiles_add (dl_group second) (dl_name second) part earlier"
  shows "SharedFiles_find (dl_group second) (dl_name second) (snd (markVerified piece (first, files))) =
    Some (part\<lparr>lf_available := verified[piece := True]\<rparr>)"
  using assms by (simp add: markVerified_def find_markAvailable shared.lookup_add)

text \<open>Destinations are compared as texts: another spelling of a place that is being written is accepted.\<close>

lemma other_spelling_is_started:
  assumes "dl_destination other = ''d''" "\<not> sn_is_directory env ''./d''" "\<not> sn_exists env ''./d''"
    and "TrackerClient_locate P (sn_call env) tc gname name = (Inr (metadata, seeders), tc')"
  shows "DownloadManager_start P env gname name ''./d'' tc [other] =
    (''OK download started'' @ [NL], tc', [other, Download_init gname name ''./d'' metadata seeders])"
  by (rule second_download_is_started) (use assms in simp_all)

end
