(* ===== verification/Partial_Seeding.thy ===== *)
theory Partial_Seeding
  imports Download_Properties Peer_Server
begin

text \<open>
  A download serves the pieces it has while the others are still being fetched: the peer server copies
  the table's entry, opens the partial file and reads, all without the download's locks.  Here the two
  run together: what the server hands out is right although the workers go on writing.
\<close>

section \<open>A published piece is never touched again\<close>

lemma worker_step_writing:
  "worker_step P order env w t = (w', t') \<Longrightarrow> writing w' = Some p \<Longrightarrow> writing w = Some p \<or> w = W_next \<and> p = tr_next t"
  by (cases w) (auto simp: worker_step_def Let_def dest: fetch_step_held split: prod.splits if_splits)

lemma settled_step:
  assumes "plan_ok P m order" "claims_ok order t" "pieces_ok P m g n part order t" "settled P m order t q"
  shows "settled P m order (transfer_step P order t ev) q \<and>
    piece_bytes m (tr_file (transfer_step P order t ev)) q = piece_bytes m (tr_file t) q"
proof (cases ev)
  case (Ev_step i env)
  show ?thesis
  proof (cases "i < length (tr_workers t)")
    case True
    obtain w' t' where w: "worker_step P order env (tr_workers t ! i) t = (w', t')"
      by fastforce
    have held: "p < length order" if "writing (tr_workers t ! i) = Some p" for p
      using assms(2) True held_writing [OF that] by (auto simp: claims_ok_def)
    have "q < pieceCount m" "\<And>p. writing (tr_workers t ! i) = Some p \<Longrightarrow> q \<noteq> order ! p"
      using assms(4) True held by (auto simp: settled_def)
    from bytes_stay [OF assms(1-3) True w this] have same: "piece_bytes m (tr_file t') q = piece_bytes m (tr_file t) q" .
    have "writing w' \<noteq> Some p" if "order ! p = q" "p < length order" for p
      using worker_step_writing [OF w, of p] assms(4) True that by (auto simp: settled_def)
    moreover have "tr_next t \<le> tr_next t'"
      using worker_step_held [OF w] by simp
    ultimately show ?thesis
      using assms(4) same True w
      by (auto simp: Ev_step transfer_step_def settled_def good_def nth_list_update)
  qed (simp add: Ev_step transfer_step_def assms(4))
qed (use assms(4) in \<open>simp_all add: transfer_step_def settled_def\<close>)

lemma settled_run:
  assumes "plan_ok P m order" "claims_ok order t" "pieces_ok P m g n part order t" "settled P m order t q"
  shows "settled P m order (transfer_run P order evs t) q \<and>
    piece_bytes m (tr_file (transfer_run P order evs t)) q = piece_bytes m (tr_file t) q"
  using assms(2-4) unfolding transfer_run_def
proof (induction evs arbitrary: t part)
  case (Cons ev evs)
  have "pieces_ok P m g n None order (transfer_step P order t ev)"
    by (rule pieces_step [OF assms(1) Cons.prems(1) pieces_None [OF Cons.prems(2)] apart_None])
  from Cons.IH [OF claims_step [OF Cons.prems(1)] this] settled_step [OF assms(1) Cons.prems] show ?case
    by simp
qed simp

section \<open>The entry of the table\<close>

definition entry_ok :: "string \<Rightarrow> string \<Rightarrow> string \<Rightarrow> FileMetadata \<Rightarrow> shared_files \<Rightarrow> bool" where
  "entry_ok g n part m files \<longleftrightarrow>
     (\<forall>f. SharedFiles_find g n files = Some f \<longrightarrow> lf_path f = part \<longrightarrow> lf_metadata f = m)"

lemma entry_mark: "entry_ok g n part m files \<Longrightarrow> entry_ok g n part m (SharedFiles_markAvailable g' n' piece files)"
  by (auto simp: entry_ok_def find_markAvailable)

lemma worker_step_entry:
  "worker_step P order env w t = (w', t') \<Longrightarrow> entry_ok g n part m (tr_shared t) \<Longrightarrow> entry_ok g n part m (tr_shared t')"
  by (cases w) (auto simp: worker_step_def Let_def markVerified_def dest: fetch_step_held split: prod.splits if_splits
      intro: entry_mark)

lemma entry_step:
  "apart g n (Some part) ev \<Longrightarrow> entry_ok g n part m (tr_shared t) \<Longrightarrow> entry_ok g n part m (tr_shared (transfer_step P order t ev))"
  by (cases ev)
    (auto simp: transfer_step_def entry_ok_def shared.lookup_add shared.lookup_remove shared.lookup_remove_group shared.lookup_clear
      find_markAvailable split: prod.splits if_splits dest: worker_step_entry [unfolded entry_ok_def])

lemma entry_run:
  "list_all (apart g n (Some part)) evs \<Longrightarrow> entry_ok g n part m (tr_shared t) \<Longrightarrow> entry_ok g n part m (tr_shared (transfer_run P order evs t))"
  unfolding transfer_run_def by (induction evs arbitrary: t) (simp_all add: entry_step)

lemma begun_entry:
  assumes "Download_begin P env tc fs files dl = Inr (fs1, order, t0)"
  shows "entry_ok (dl_group dl) (dl_name dl) (partPath dl) (dl_metadata dl) (tr_shared t0)"
proof -
  obtain dl1 where prep: "Download_prepare P (rn_prepare env) fs dl = (True, fs1, dl1)"
    using assms by (auto simp: Download_begin_def Let_def split: prod.splits bool.splits)
  obtain tc2 dl2 where bitmaps: "Download_fetchBitmaps P (rn_bitmaps env) tc dl1 = (tc2, dl2)"
    by fastforce
  have "dl_group dl2 = dl_group dl" "dl_name dl2 = dl_name dl" "dl_metadata dl2 = dl_metadata dl" "dl_destination dl2 = dl_destination dl"
    using prepare_True [OF prep] fetchBitmaps_ok [OF bitmaps] same_job_fields by auto
  then show ?thesis
    using assms prep bitmaps
    by (auto simp: Download_begin_def Let_def fetch_start_def entry_ok_def shared.lookup_add partPath_def split: prod.splits)
qed

section \<open>What the server reads\<close>

text \<open>C25: A download serves only good pieces while it runs.  Let the peer server look the file up at some moment of any
  schedule, and find the entry of this download.  Whatever piece it then reads from the partial file, at that
  moment or at any later one of the schedule, whatever peers sent, however writes were cut short and
  whatever else the client did: the data it gets is that piece, has the hash that was listed for it, and is
  never written again.  (The listed hashes have to be hashes of data of the pieces' lengths: the code does not
  check the length of what it writes.  And no second download of the same file runs in the same client up to
  the look-up, \<open>apart\<close>: they would share one entry of the table.)\<close>

theorem partial_file_serves_good_pieces:
  assumes "Download_begin P env tc fs files dl = Inr (fs1, order, t0)" "dl_resumed dl = 0"
    and "sized (dl_metadata dl)" "hash_lengths P (dl_metadata dl)"
    and "list_all (apart (dl_group dl) (dl_name dl) (Some (partPath dl))) evs" "t1 = transfer_run P order evs t0"
    and "SharedFiles_find (dl_group dl) (dl_name dl) (tr_shared t1) = Some f" "lf_path f = partPath dl"
    and "t2 = transfer_run P order later t1" "sv_disk senv (partPath dl) = Some (tr_file t2)"
    and "servePiece senv f ''GET'' piece = Some data"
  shows "unat piece < pieceCount (dl_metadata dl) \<and> sha1Hex P data = fm_pieceHashes (dl_metadata dl) ! unat piece \<and>
    data = piece_bytes (dl_metadata dl) (tr_file t1) (unat piece)"
proof -
  let ?m = "dl_metadata dl" and ?part = "Some (partPath dl)"
  note b = begun [OF assms(1,3,4)]
  have claims: "claims_ok order t1"
    unfolding assms(6) by (rule claims_run) (rule b)
  have pieces: "pieces_ok P ?m (dl_group dl) (dl_name dl) ?part order t1"
    unfolding assms(6) by (rule pieces_run) (fact b assms(5))+
  have read: "unat piece < length (lf_available f)" "lf_available f ! unat piece"
    "PieceFile_read (sv_reads senv) (tr_file t2) piece (unat (pieceLength (lf_metadata f) piece)) = Some data"
    using assms(8,10,11) by (auto simp: servePiece_def split: if_splits)
  then have "published (dl_group dl) (dl_name dl) ?part (tr_shared t1) (unat piece)"
    using assms(7,8) by (auto simp: published_def)
  then have settled: "settled P ?m order t1 (unat piece)"
    using pieces by (simp add: pieces_ok_def)
  from settled_run [OF b(1) claims pieces this, of later]
  have same: "piece_bytes ?m (tr_file t2) (unat piece) = piece_bytes ?m (tr_file t1) (unat piece)"
    by (simp add: assms(9))
  have "entry_ok (dl_group dl) (dl_name dl) (partPath dl) ?m (tr_shared t1)"
    unfolding assms(6) by (rule entry_run [OF assms(5) begun_entry [OF assms(1)]])
  then have meta: "lf_metadata f = ?m"
    using assms(7,8) by (simp add: entry_ok_def)
  have piece: "unat piece < pieceCount ?m" "unat piece < unat (pieceCountForSize (fm_size ?m))"
    using settled piece_index(2) [OF assms(3)] by (simp_all add: settled_def)
  have "data = piece_bytes ?m (tr_file t2) (unat piece)"
    using read_piece [OF read(3) piece(2)] assms(3) by (simp add: meta piece_bytes_def sized_def)
  then show ?thesis
    using same settled piece(1) by (simp add: settled_def good_def)
qed

text \<open>The server reads the only piece of the demonstration's partial file after the user cancelled and
  stopped sharing.\<close>

theorem partial_file_serves_good_pieces_witness:
  "servePiece (seed_env\<lparr>sv_disk := (\<lambda>_. Some ''hello'')\<rparr>) (demo_part\<lparr>lf_available := [True]\<rparr>) ''GET'' 0 = Some ''hello'' \<and>
    sha1Hex demo_platform ''hello'' = fm_pieceHashes (dl_metadata demo_download) ! 0"
proof -
  let ?env = "seed_env\<lparr>sv_disk := (\<lambda>_. Some ''hello'')\<rparr>" and ?f = "demo_part\<lparr>lf_available := [True]\<rparr>"
  have served: "servePiece ?env ?f ''GET'' 0 = Some ''hello''"
    by code_simp
  have found: "SharedFiles_find (dl_group demo_download) (dl_name demo_download)
      (tr_shared (transfer_run demo_platform [0] (replicate 9 demo_step) demo_start)) = Some ?f"
    by (simp add: demo_joined demo_finish_def demo_end_shared_def find_markAvailable shared.lookup_add demo_part_def)
  have "tr_file (transfer_run demo_platform [0] [Ev_cancel, Ev_clear] (transfer_run demo_platform [0] (replicate 9 demo_step) demo_start)) =
      ''hello''"
    unfolding demo_joined by (simp add: transfer_run_def transfer_step_def demo_finish_def)
  then have disk: "sv_disk ?env (partPath demo_download) =
      Some (tr_file (transfer_run demo_platform [0] [Ev_cancel, Ev_clear] (transfer_run demo_platform [0] (replicate 9 demo_step) demo_start)))"
    by simp
  have alone: "list_all (apart (dl_group demo_download) (dl_name demo_download) (Some (partPath demo_download))) (replicate 9 demo_step)"
    by (simp add: demo_step_def list_all_iff)
  have "sha1Hex demo_platform ''hello'' = fm_pieceHashes (dl_metadata demo_download) ! unat (0 :: u64)"
    by (rule conjunct1 [OF conjunct2 [OF partial_file_serves_good_pieces [OF demo_begins _ demo_metadata_ok alone refl found _ refl
        disk served]]]) (simp_all add: demo_part_def)
  then show ?thesis
    using served by simp
qed

end
