(* ===== verification/Resuming.thy ===== *)
theory Resuming
  imports Partial_Seeding Peer_Exchange
begin

text \<open>
  An interrupted download and the next one of the same file to the same place: what the first had
  verified is in the partial file, and the second one finds it there and does not fetch it again.
\<close>

text \<open>A download that ends without success leaves the partial file as its workers left it.\<close>

lemma failed_end_keeps_part:
  assumes "Download_end P cenv fs t = (tc', fs', files', dl')" "Download_state dl' = CHR ''F''"
  shows "fs_files fs' (partPath (tr_download t)) = Some (tr_file t)"
  using assms
  by (auto simp: Download_end_def Download_complete_def Let_def Download_state_def Download_finish_def
      split: if_splits option.splits prod.splits)

lemma prepare_keeps_part:
  assumes "Download_prepare P env fs dl = (True, fs', dl')" "fs_files fs (partPath dl) = Some content"
    and "length content = unat (fm_size (dl_metadata dl))" "q < pieceCount (dl_metadata dl)"
  shows "dl_verified dl' ! q \<longleftrightarrow> piece_checks P (pp_reads env q) content (dl_metadata dl) q"
  using assms by (auto simp: Download_prepare_def PieceFile_openForWriting_def resized_def Let_def split: if_splits option.splits)

text \<open>What the resume check has verified is not among the pieces to fetch.\<close>

lemma begun_verified:
  assumes "Download_begin P env tc fs files dl = Inr (fs1, order, t0)"
  obtains dl1 where "Download_prepare P (rn_prepare env) fs dl = (True, fs1, dl1)"
    "dl_verified (tr_download t0) = dl_verified dl1" "order = rarestFirst (tr_download t0)"
proof -
  obtain dl1 where prep: "Download_prepare P (rn_prepare env) fs dl = (True, fs1, dl1)"
    using assms by (auto simp: Download_begin_def Let_def split: prod.splits bool.splits)
  obtain tc2 dl2 where bitmaps: "Download_fetchBitmaps P (rn_bitmaps env) tc dl1 = (tc2, dl2)"
    by fastforce
  have "dl_verified dl2 = dl_verified dl1"
    using fetchBitmaps_ok [OF bitmaps] same_job_fields by auto
  moreover have "tr_download t0 = dl2" "order = rarestFirst dl2"
    using assms prep bitmaps by (auto simp: Download_begin_def Let_def fetch_start_def split: prod.splits)
  ultimately show ?thesis
    using that [OF prep] by simp
qed

text \<open>C34: An interrupted download resumes with every piece it had.  If a piece was published at some moment of a
  download that then, however much later, ends without success (the user cancelled, a piece could not be
  had, a check failed), and the file is downloaded again to the same place, from a disk that reads and that
  nobody else has written in between, then the piece is found verified and is not among those that the second
  download fetches.  Two conditions are needed, for the reasons that \<open>Findings\<close> shows.  The metadata are those of a
  file: the listed hashes are hashes of data of the pieces' lengths only (\<open>sized\<close>, \<open>hash_lengths\<close>); the code does not check
  the length of what it writes, so with other metadata a long piece runs over its neighbours.  And up to the moment at
  which the piece was seen published, no other thread publishes pieces of this partial file in the table
  (\<open>apart\<close>): a second download of the same file in the same client shares the entry.\<close>

theorem interrupted_download_resumes:
  assumes first: "Download_begin P env tc fs files dl = Inr (fs1, order, t0)"
      "sized (dl_metadata dl)" "hash_lengths P (dl_metadata dl)"
      "list_all (apart (dl_group dl) (dl_name dl) (Some (partPath dl))) evs" "t1 = transfer_run P order evs t0"
    and had: "SharedFiles_find (dl_group dl) (dl_name dl) (tr_shared t1) = Some f" "lf_path f = partPath dl"
      "q < length (lf_available f)" "lf_available f ! q"
    and ends: "Download_end P cenv fs1 (transfer_run P order later t1) = (tc', fs', files', dl')" "Download_state dl' = CHR ''F''"
    and again: "dl_metadata again = dl_metadata dl" "dl_destination again = dl_destination dl"
      "Download_begin P env2 tc2 fs' files2 again = Inr (fs2, order2, s0)"
      "serves (pp_reads (rn_prepare env2) q) [unat (pieceLength (dl_metadata dl) (of_nat q))]"
  shows "dl_verified (tr_download s0) ! q \<and> q \<notin> set order2"
proof -
  let ?m = "dl_metadata dl" and ?part = "Some (partPath dl)" and ?t2 = "transfer_run P order later t1"
  note b = begun [OF first(1-3)]
  have claims: "claims_ok order t1"
    unfolding first(5) by (rule claims_run) (rule b)
  have pieces: "pieces_ok P ?m (dl_group dl) (dl_name dl) ?part order t1"
    unfolding first(5) by (rule pieces_run) (fact b first(4))+
  moreover have "published (dl_group dl) (dl_name dl) ?part (tr_shared t1) q"
    using had by (auto simp: published_def)
  ultimately have "settled P ?m order t1 q"
    by (simp add: pieces_ok_def)
  then have settled: "settled P ?m order ?t2 q"
    using settled_run [OF b(1) claims pieces] by blast
  have whole: "length (tr_file ?t2) = unat (fm_size ?m)"
    using file_run [OF b(1) claims pieces] by (simp add: pieces_ok_def)
  have "job_of (tr_download ?t2) = job_of dl"
    using end_keeps_job [OF first(1), of "evs @ later"] by (simp add: first(5) transfer_run_def)
  then have "partPath (tr_download ?t2) = partPath again"
    by (simp add: job_of_def partPath_def again(2))
  then have part: "fs_files fs' (partPath again) = Some (tr_file ?t2)"
    using failed_end_keeps_part [OF ends] by simp
  obtain dl1 where starts: "Download_prepare P (rn_prepare env2) fs' again = (True, fs2, dl1)"
      "dl_verified (tr_download s0) = dl_verified dl1" "order2 = rarestFirst (tr_download s0)"
    using again(3) by (rule begun_verified)
  have q: "q < pieceCount ?m" "good P ?m (tr_file ?t2) q"
    using settled by (simp_all add: settled_def)
  have "piece_checks P (pp_reads (rn_prepare env2) q) (tr_file ?t2) ?m q"
    using read_piece_whole [OF first(2) q(1) whole again(4)] q(2) by (simp add: piece_checks_def good_def)
  then have "dl_verified dl1 ! q"
    using prepare_keeps_part [OF starts(1) part] whole q(1) by (simp add: again(1))
  then show ?thesis
    using starts(2,3) by (simp add: rarestFirst_set)
qed

text \<open>The demonstration, cancelled just after its worker was done, and started again.\<close>

definition interrupted :: "TrackerClient \<times> file_system \<times> shared_files \<times> Download" where
  "interrupted = Download_end demo_platform (rn_complete demo_run) demo_opened
     (transfer_run demo_platform [0] [Ev_cancel] (transfer_run demo_platform [0] (replicate 9 demo_step) demo_start))"

definition second_run :: run_env where
  "second_run = demo_run\<lparr>rn_prepare := resume_env\<rparr>"

lemma interrupted_state:
  "transfer_run demo_platform [0] [Ev_cancel] (transfer_run demo_platform [0] (replicate 9 demo_step) demo_start) =
     demo_finish\<lparr>tr_download := Download_cancel (tr_download demo_finish)\<rparr>"
  unfolding demo_joined by (simp add: transfer_run_def transfer_step_def)

lemma second_begins:
  "\<exists>fs2 order2 s0. Download_begin demo_platform second_run demo_tracker (fst (snd interrupted)) [] demo_download = Inr (fs2, order2, s0)"
proof -
  have "fs_files (fst (snd interrupted)) ''d.part'' = Some ''hello''"
    unfolding interrupted_def interrupted_state
    by (simp add: demo_finish_def Download_end_def Download_cancel_def partPath_def Let_def
        demo_open_def demo_download_def Download_init_def)
  then have "fst (Download_prepare demo_platform resume_env (fst (snd interrupted)) demo_download)"
    by (simp add: Download_prepare_def resume_env_def PieceFile_openForWriting_def resized_def Let_def)
  then show ?thesis
    by (auto simp: Download_begin_def second_run_def Let_def split: prod.splits bool.splits)
qed

theorem interrupted_download_resumes_witness:
  "\<exists>fs2 order2 s0. Download_begin demo_platform second_run demo_tracker (fst (snd interrupted)) [] demo_download = Inr (fs2, order2, s0) \<and>
    dl_verified (tr_download s0) ! 0 \<and> 0 \<notin> set order2"
proof -
  obtain fs2 order2 s0 where again: "Download_begin demo_platform second_run demo_tracker (fst (snd interrupted)) [] demo_download = Inr (fs2, order2, s0)"
    using second_begins by blast
  have found: "SharedFiles_find (dl_group demo_download) (dl_name demo_download)
      (tr_shared (transfer_run demo_platform [0] (replicate 9 demo_step) demo_start)) = Some (demo_part\<lparr>lf_available := [True]\<rparr>)"
    by (simp add: demo_joined demo_finish_def demo_end_shared_def find_markAvailable shared.lookup_add demo_part_def)
  have alone: "list_all (apart (dl_group demo_download) (dl_name demo_download) (Some (partPath demo_download))) (replicate 9 demo_step)"
    by (simp add: demo_step_def list_all_iff)
  obtain tc' fs' files' dl' where ends: "Download_end demo_platform (rn_complete demo_run) demo_opened
      (transfer_run demo_platform [0] [Ev_cancel] (transfer_run demo_platform [0] (replicate 9 demo_step) demo_start)) = (tc', fs', files', dl')"
    by (metis prod_cases4)
  then have failed: "Download_state dl' = CHR ''F''" and disk: "fs' = fst (snd interrupted)"
    unfolding interrupted_def interrupted_state
    by (auto simp: demo_finish_def Download_end_def Download_cancel_def Let_def Download_finish_def Download_state_def)
  have "serves [Io_eintr, Io_count 5] [5]"
    by code_simp
  then have reads: "serves (pp_reads (rn_prepare second_run) 0) [unat (pieceLength (dl_metadata demo_download) (of_nat 0))]"
    by (simp add: second_run_def resume_env_def demo_metadata_def pieceLength_def PIECE_SIZE_def)
  have "dl_verified (tr_download s0) ! 0 \<and> 0 \<notin> set order2"
    by (rule interrupted_download_resumes [OF demo_begins demo_metadata_ok alone refl found _ _ _ ends failed refl refl
          again [folded disk] reads]) (simp_all add: demo_part_def)
  with again show ?thesis
    by blast
qed

end
