(* ===== verification/Command_Line.thy ===== *)
theory Command_Line
  imports Encoding
begin

text \<open>
  \<open>client/command_line.cpp\<close>: what the user types at the prompt.  The words of a line are found by a
  machine over its characters; quotes group, a backslash takes the next character as it is.
\<close>

definition BSL :: char where "BSL = CHR 0x5C"
definition QUOTE1 :: char where "QUOTE1 = CHR 0x27"
definition QUOTE2 :: char where "QUOTE2 = CHR 0x22"

record word_machine =
  wm_words :: "string list"
  wm_current :: string
  wm_quote :: char
  wm_escaped :: bool
  wm_inWord :: bool

definition word_start :: word_machine where
  "word_start = \<lparr>wm_words = [], wm_current = [], wm_quote = NUL, wm_escaped = False, wm_inWord = False\<rparr>"

text \<open>The body of the loop, for one character.\<close>

definition word_step :: "word_machine \<Rightarrow> char \<Rightarrow> word_machine" where
  "word_step m c =
     (if wm_escaped m then m\<lparr>wm_current := wm_current m @ [c], wm_escaped := False, wm_inWord := True\<rparr>
      else if c = BSL then m\<lparr>wm_escaped := True, wm_inWord := True\<rparr>
      else if wm_quote m \<noteq> NUL then
        (if c = wm_quote m then m\<lparr>wm_quote := NUL, wm_inWord := True\<rparr>
         else m\<lparr>wm_current := wm_current m @ [c], wm_inWord := True\<rparr>)
      else if c = QUOTE1 \<or> c = QUOTE2 then m\<lparr>wm_quote := c, wm_inWord := True\<rparr>
      else if is_space c then
        m\<lparr>wm_words := (if wm_inWord m then wm_words m @ [wm_current m] else wm_words m), wm_current := [], wm_inWord := False\<rparr>
      else m\<lparr>wm_current := wm_current m @ [c], wm_inWord := True\<rparr>)"

definition word_end :: "word_machine \<Rightarrow> string list" where
  "word_end m =
     (let current = (if wm_escaped m then wm_current m @ [BSL] else wm_current m) in
      if wm_inWord m then wm_words m @ [current] else wm_words m)"

definition parseCommandWords :: "string \<Rightarrow> string list" where
  "parseCommandWords line = word_end (foldl word_step word_start line)"

record CommandLine =
  cl_name :: string
  cl_args :: "string list"

definition verbs :: "string list" where
  "verbs = [''create'', ''join'', ''leave'', ''list'', ''accept'', ''upload'', ''download'', ''stop'', ''show'', ''cancel'', ''remove'']"

text \<open>What \<open>parse\<close> makes of the words of a line.\<close>

definition command_of :: "string list \<Rightarrow> CommandLine" where
  "command_of words =
     (case words of
        [] \<Rightarrow> \<lparr>cl_name = [], cl_args = []\<rparr>
      | [name] \<Rightarrow> \<lparr>cl_name = name, cl_args = []\<rparr>
      | name # second # args \<Rightarrow>
          if CHR ''_'' \<notin> set name \<and> name \<in> set verbs
          then \<lparr>cl_name = name @ ''_'' @ second, cl_args = args\<rparr>
          else \<lparr>cl_name = name, cl_args = second # args\<rparr>)"

definition CommandLine_parse :: "string \<Rightarrow> CommandLine" where
  "CommandLine_parse line = command_of (parseCommandWords line)"

section \<open>Typing a list of words\<close>

text \<open>A word with every character escaped, in quotes so that it may be empty.\<close>

definition quoted :: "string \<Rightarrow> string" where
  "quoted w = QUOTE1 # concat (map (\<lambda>c. [BSL, c]) w) @ [QUOTE1]"

definition typed :: "string list \<Rightarrow> string" where
  "typed ws = join (map quoted ws) CHR '' ''"

lemma special_chars [simp]:
  "QUOTE1 \<noteq> NUL" "QUOTE1 \<noteq> BSL" "BSL \<noteq> QUOTE1" "CHR '' '' \<noteq> BSL" "CHR '' '' \<noteq> QUOTE1" "CHR '' '' \<noteq> QUOTE2"
  by (simp_all add: QUOTE1_def QUOTE2_def BSL_def)

lemma fold_escaped:
  "\<not> wm_escaped m \<Longrightarrow> wm_inWord m \<Longrightarrow>
     foldl word_step m (concat (map (\<lambda>c. [BSL, c]) w)) = m\<lparr>wm_current := wm_current m @ w\<rparr>"
  by (induction w arbitrary: m) (simp_all add: word_step_def)

lemma fold_quoted:
  "foldl word_step \<lparr>wm_words = ws, wm_current = [], wm_quote = NUL, wm_escaped = False, wm_inWord = False\<rparr> (quoted w) =
     \<lparr>wm_words = ws, wm_current = w, wm_quote = NUL, wm_escaped = False, wm_inWord = True\<rparr>"
  by (simp add: quoted_def fold_escaped word_step_def [of _ QUOTE1])

lemma fold_typed:
  "word_end (foldl word_step \<lparr>wm_words = ws0, wm_current = [], wm_quote = NUL, wm_escaped = False, wm_inWord = False\<rparr> (typed ws)) =
     ws0 @ ws"
proof (induction ws arbitrary: ws0)
  case (Cons w ws)
  show ?case
  proof (cases ws)
    case Nil
    then show ?thesis
      by (simp add: typed_def fold_quoted word_end_def)
  next
    case (Cons v vs)
    then have "typed (w # ws) = quoted w @ CHR '' '' # typed ws"
      by (simp add: typed_def join_Cons)
    moreover have "word_step \<lparr>wm_words = ws0, wm_current = w, wm_quote = NUL, wm_escaped = False, wm_inWord = True\<rparr> CHR '' '' =
        \<lparr>wm_words = ws0 @ [w], wm_current = [], wm_quote = NUL, wm_escaped = False, wm_inWord = False\<rparr>"
      by (simp add: word_step_def)
    ultimately show ?thesis
      using Cons.IH [of "ws0 @ [w]"] by (simp add: fold_quoted)
  qed
qed (simp add: typed_def word_end_def)

lemma parse_typed: "parseCommandWords (typed ws) = ws"
  using fold_typed [of "[]" ws] by (simp add: parseCommandWords_def word_start_def)

lemma set_quoted: "set (quoted w) \<subseteq> {QUOTE1, BSL} \<union> set w"
  by (auto simp: quoted_def)

lemma typed_chars:
  "(\<And>w. w \<in> set ws \<Longrightarrow> c \<notin> set w) \<Longrightarrow> c \<noteq> QUOTE1 \<Longrightarrow> c \<noteq> BSL \<Longrightarrow> c \<noteq> CHR '' '' \<Longrightarrow> c \<notin> set (typed ws)"
proof (induction ws)
  case (Cons w ws)
  then have "c \<notin> set (typed ws)" "c \<notin> set (quoted w)"
    using set_quoted [of w] by auto
  with Cons.prems show ?case
    by (cases ws) (auto simp: typed_def join_Cons)
qed (simp add: typed_def)

lemma typed_newline: "(\<And>w. w \<in> set ws \<Longrightarrow> NL \<notin> set w) \<Longrightarrow> NL \<notin> set (typed ws)"
  by (rule typed_chars) (simp_all add: QUOTE1_def BSL_def)

lemma typed_c_str:
  assumes "\<And>w. w \<in> set ws \<Longrightarrow> NUL \<notin> set w"
  shows "c_str (typed ws) = typed ws"
proof -
  have "NUL \<notin> set (typed ws)"
    using assms by (rule typed_chars) (simp_all add: QUOTE1_def BSL_def)
  then show ?thesis
    by (auto simp: c_str_def takeWhile_eq_all_conv)
qed

text \<open>Only the line without words is blank.\<close>

lemma typed_blank: "list_ex (\<lambda>c. c \<noteq> CHR '' '' \<and> c \<noteq> TAB) (typed ws) \<longleftrightarrow> ws \<noteq> []"
  by (cases ws; cases "tl ws") (auto simp: typed_def join_Cons quoted_def QUOTE1_def)

section \<open>Plain lines\<close>

text \<open>On a line without quotes and backslashes the machine finds the words that \<open>>>\<close> finds.\<close>

lemma fold_plain:
  assumes "BSL \<notin> set line" "QUOTE1 \<notin> set line" "QUOTE2 \<notin> set line" "inw = (cur \<noteq> [])"
  shows "word_end (foldl word_step \<lparr>wm_words = ws, wm_current = cur, wm_quote = NUL, wm_escaped = False, wm_inWord = inw\<rparr> line) =
    ws @ words_from cur line"
  using assms
proof (induction line arbitrary: ws cur inw)
  case (Cons c line)
  then have "c \<noteq> BSL" "c \<noteq> QUOTE1" "c \<noteq> QUOTE2"
    by auto
  then have "word_step \<lparr>wm_words = ws, wm_current = cur, wm_quote = NUL, wm_escaped = False, wm_inWord = inw\<rparr> c =
      (if is_space c
       then \<lparr>wm_words = (if inw then ws @ [cur] else ws), wm_current = [], wm_quote = NUL, wm_escaped = False, wm_inWord = False\<rparr>
       else \<lparr>wm_words = ws, wm_current = cur @ [c], wm_quote = NUL, wm_escaped = False, wm_inWord = True\<rparr>)"
    by (simp add: word_step_def)
  moreover note Cons.IH [of False "[]" "if inw then ws @ [cur] else ws"] Cons.IH [of True "cur @ [c]" ws]
  ultimately show ?case
    using Cons.prems by simp
qed (simp add: word_end_def)

lemma parse_plain:
  "BSL \<notin> set line \<Longrightarrow> QUOTE1 \<notin> set line \<Longrightarrow> QUOTE2 \<notin> set line \<Longrightarrow> parseCommandWords line = words_of line"
  using fold_plain [of line False "[]" "[]"] by (simp add: parseCommandWords_def word_start_def words_of_def)

section \<open>The two spellings of a command\<close>

lemma verbs_plain: "verb \<in> set verbs \<Longrightarrow> CHR ''_'' \<notin> set verb"
  by (auto simp: verbs_def)

lemma parse_two_words:
  assumes "verb \<in> set verbs"
  shows "CommandLine_parse (typed (verb # second # args)) = CommandLine_parse (typed ((verb @ ''_'' @ second) # args))"
  using verbs_plain [OF assms] assms by (simp add: CommandLine_parse_def command_of_def parse_typed split: list.split)

end
