(* ===== verification/Prompt.thy ===== *)
theory Prompt
  imports Command_Line
begin

text \<open>
  \<open>client/prompt.cpp\<close>: one line at a time, from the terminal through readline or from any other stream with
  \<open>getline\<close>.  What readline will return is an argument; what it shows on the terminal is not modelled.
\<close>

section \<open>Lines of a stream\<close>

text \<open>An \<open>istream\<close>: what is left of it, and whether it is still good.\<close>

record stream =
  is_rest :: string
  is_good :: bool

text \<open>\<open>std::getline\<close>: whether it read anything, the line, the stream.  On a stream that has ended already, the line stays.\<close>

definition getline :: "stream \<Rightarrow> string \<Rightarrow> bool \<times> string \<times> stream" where
  "getline s line =
     (if \<not> is_good s then (False, line, s)
      else let text = takeWhile (\<lambda>c. c \<noteq> NL) (is_rest s) in
        case dropWhile (\<lambda>c. c \<noteq> NL) (is_rest s) of
          [] \<Rightarrow> (text \<noteq> [], text, \<lparr>is_rest = [], is_good = False\<rparr>)
        | _ # left \<Rightarrow> (True, text, \<lparr>is_rest = left, is_good = True\<rparr>))"

lemma no_newline: "NL \<notin> set w \<Longrightarrow> takeWhile (\<lambda>c. c \<noteq> NL) w = w" "NL \<notin> set w \<Longrightarrow> dropWhile (\<lambda>c. c \<noteq> NL) w = []"
  by (auto simp: takeWhile_eq_all_conv dropWhile_eq_Nil_conv)

lemma getline_line: "NL \<notin> set w \<Longrightarrow> getline \<lparr>is_rest = w @ NL # left, is_good = True\<rparr> line = (True, w, \<lparr>is_rest = left, is_good = True\<rparr>)"
  by (simp add: getline_def no_newline takeWhile_tail dropWhile_append3 Let_def)

lemma getline_last: "NL \<notin> set w \<Longrightarrow> getline \<lparr>is_rest = w, is_good = True\<rparr> line = (w \<noteq> [], w, \<lparr>is_rest = [], is_good = False\<rparr>)"
  by (simp add: getline_def no_newline Let_def)

text \<open>A read uses up at least a character, or finds the end.\<close>

lemma getline_shorter:
  assumes "getline s line = (True, w, s')"
  shows "length (is_rest s') < length (is_rest s)"
proof (cases "dropWhile (\<lambda>c. c \<noteq> NL) (is_rest s)")
  case Nil
  have "is_rest s' = []" "is_rest s \<noteq> []"
    using assms unfolding getline_def Nil Let_def by (auto split: if_splits)
  then show ?thesis
    by simp
next
  case (Cons c left)
  then have "length left < length (is_rest s)"
    using length_dropWhile_le [of "\<lambda>c. c \<noteq> NL" "is_rest s"] by simp
  with Cons show ?thesis
    using assms by (auto simp: getline_def Let_def split: if_splits)
qed

section \<open>The prompt\<close>

text \<open>\<open>pr_terminal\<close> are the buffers that the coming \<open>readline\<close> calls return, \<^const>\<open>None\<close> its null pointer at the end;
  \<open>pr_out\<close> is what was written to \<open>out_\<close>, by the prompt and by the commands.\<close>

record Prompt =
  pr_in :: stream
  pr_out :: string
  pr_interactive :: bool
  pr_terminal :: "string option list"
  pr_history :: "string list"

definition Prompt_init :: "bool \<Rightarrow> bool \<Rightarrow> string \<Rightarrow> string option list \<Rightarrow> Prompt" where
  "Prompt_init in_is_cin stdin_is_terminal input terminal =
     \<lparr>pr_in = \<lparr>is_rest = input, is_good = True\<rparr>, pr_out = [], pr_interactive = in_is_cin \<and> stdin_is_terminal,
      pr_terminal = terminal, pr_history = []\<rparr>"

text \<open>The buffer is a C string: the line and what is added to the history end at its first NUL.\<close>

definition readEdited :: "Prompt \<Rightarrow> string \<Rightarrow> bool \<times> string \<times> Prompt" where
  "readEdited p line =
     (case pr_terminal p of
        [] \<Rightarrow> (False, line, p)
      | answer # left \<Rightarrow>
          let p' = p\<lparr>pr_terminal := left\<rparr> in
          case answer of
            None \<Rightarrow> (False, line, p')
          | Some buffer \<Rightarrow>
              let text = c_str buffer in
              (True, text, if list_ex (\<lambda>c. c \<noteq> CHR '' '' \<and> c \<noteq> TAB) text then p'\<lparr>pr_history := pr_history p @ [text]\<rparr> else p'))"

definition Prompt_read :: "Prompt \<Rightarrow> string \<Rightarrow> bool \<times> string \<times> Prompt" where
  "Prompt_read p line =
     (if pr_interactive p then readEdited p line
      else case getline (pr_in p) line of
        (ok, line', rest) \<Rightarrow> (ok, line', p\<lparr>pr_in := rest, pr_out := pr_out p @ ''> ''\<rparr>))"

text \<open>What is left to read: every successful call takes some of it, so a loop over the lines ends.\<close>

definition unread :: "Prompt \<Rightarrow> nat" where
  "unread p = length (is_rest (pr_in p)) + length (pr_terminal p)"

lemma unread_out [simp]: "unread (p\<lparr>pr_out := out\<rparr>) = unread p"
  by (simp add: unread_def)

lemma Prompt_read_unread: "Prompt_read p line = (True, line', p') \<Longrightarrow> unread p' < unread p"
  by (auto simp: Prompt_read_def readEdited_def unread_def Let_def dest: getline_shorter split: if_splits list.splits option.splits prod.splits)

section \<open>A script\<close>

text \<open>Lines piped in, and lines typed at a terminal up to the end of input.\<close>

definition piped :: "string list \<Rightarrow> string" where
  "piped ls = concat (map (\<lambda>l. l @ [NL]) ls)"

lemma piped_simps [simp]: "piped [] = []" "piped (l # ls) = l @ NL # piped ls"
  by (simp_all add: piped_def)

lemma read_piped:
  assumes "\<not> pr_interactive p" "pr_in p = \<lparr>is_rest = piped ls, is_good = True\<rparr>" "\<And>l. l \<in> set ls \<Longrightarrow> NL \<notin> set l"
  shows "Prompt_read p line = (case ls of
      [] \<Rightarrow> (False, [], p\<lparr>pr_in := \<lparr>is_rest = [], is_good = False\<rparr>, pr_out := pr_out p @ ''> ''\<rparr>)
    | l # left \<Rightarrow> (True, l, p\<lparr>pr_in := \<lparr>is_rest = piped left, is_good = True\<rparr>, pr_out := pr_out p @ ''> ''\<rparr>))"
  using assms getline_last [of "[]" line]
  by (cases ls) (simp_all add: Prompt_read_def getline_line)

lemma read_typed:
  assumes "pr_interactive p" "pr_terminal p = map Some ls @ [None]" "\<And>l. l \<in> set ls \<Longrightarrow> c_str l = l"
  shows "Prompt_read p line = (case ls of
      [] \<Rightarrow> (False, line, p\<lparr>pr_terminal := []\<rparr>)
    | l # left \<Rightarrow> (True, l, p\<lparr>pr_terminal := map Some left @ [None],
        pr_history := pr_history p @ (if list_ex (\<lambda>c. c \<noteq> CHR '' '' \<and> c \<noteq> TAB) l then [l] else [])\<rparr>))"
  using assms by (cases ls) (simp_all add: Prompt_read_def readEdited_def Let_def)

end
