(* ===== verification/Client.thy ===== *)
theory Client
  imports Prompt Download_Manager
begin

text \<open>
  \<open>client/client.cpp\<close>: the prompt loop and what each typed command does to the parts of a running
  client.  One command sees the environment of its own: what the tracker's connection, the disk and
  the file system answer while it runs.
\<close>

record Client =
  cl_self :: Endpoint
  cl_peerKey :: string
  cl_tracker :: TrackerClient
  cl_shared :: shared_files
  cl_downloads :: "Download list"

record client_env =
  en_call :: call_env
  en_content :: "string \<Rightarrow> string option"
  en_bad :: bool
  en_start :: start_env

definition Client_init :: "entropy \<Rightarrow> Endpoint \<Rightarrow> ClientConfig \<Rightarrow> Client" where
  "Client_init r self config =
     (let key = randomBytes 32 r in
      \<lparr>cl_self = self, cl_peerKey = key,
       cl_tracker = TrackerClient_init config self key,
       cl_shared = [], cl_downloads = []\<rparr>)"

text \<open>\<open>std::filesystem::path::filename\<close>: what follows the last slash.\<close>

definition path_filename :: "string \<Rightarrow> string" where
  "path_filename path = rev (takeWhile (\<lambda>c. c \<noteq> CHR ''/'') (rev path))"

definition uploadFile_client :: "platform \<Rightarrow> client_env \<Rightarrow> string \<Rightarrow> string \<Rightarrow> Client \<Rightarrow> string \<times> Client" where
  "uploadFile_client P env gname path c =
     (case PieceFile_hash P (en_content env path) (en_bad env) of
        None \<Rightarrow> (''ERR upload file: cannot read '' @ path @ [NL], c)
      | Some metadata \<Rightarrow>
          let shared = \<lparr>lf_path = path, lf_metadata = metadata, lf_available = replicate (pieceCount metadata) True\<rparr>;
              name = path_filename path;
              (ok, response, tc) = TrackerClient_share P (en_call env) (cl_tracker c) gname name metadata in
          (response @ [NL],
           c\<lparr>cl_tracker := tc,
             cl_shared := if starts_with response ''OK'' then SharedFiles_add gname name shared (cl_shared c) else cl_shared c\<rparr>))"

text \<open>The request that \<open>forwardToTracker\<close> sends.\<close>

definition forward_text :: "CommandLine \<Rightarrow> string" where
  "forward_text command =
     cl_name command @ concat (map (\<lambda>(i, arg). '' '' @ (if cl_name command = ''stop_share'' \<and> i = 1 then toHex arg else arg))
       (zip [0..<length (cl_args command)] (cl_args command)))"

definition keeps_secret :: "CommandLine \<Rightarrow> bool" where
  "keeps_secret command \<longleftrightarrow> cl_name command = ''login'' \<or> cl_name command = ''create_user''"

text \<open>What is shown of the reply: the decoded names of a \<open>list_files\<close>, any other as it is.\<close>

definition shown_reply :: "CommandLine \<Rightarrow> string \<Rightarrow> string" where
  "shown_reply command response =
     (if cl_name command = ''list_files'' \<and> starts_with response ''OK''
      then concat (map (\<lambda>name. name @ [NL]) (List.map_filter fromHex (tl (parseCommandWords response))))
      else response @ [NL])"

text \<open>What a successful command takes out of the shared table.\<close>

definition mirrored :: "CommandLine \<Rightarrow> shared_files \<Rightarrow> shared_files" where
  "mirrored command files =
     (if cl_name command = ''stop_share'' \<and> length (cl_args command) \<ge> 2
      then SharedFiles_remove (cl_args command ! 0) (cl_args command ! 1) files
      else if cl_name command = ''leave_group'' \<and> cl_args command \<noteq> [] then SharedFiles_removeGroup (cl_args command ! 0) files
      else if cl_name command = ''logout'' then SharedFiles_clear files
      else files)"

text \<open>The output, the command as it is left in memory, the client.\<close>

definition forwardToTracker :: "platform \<Rightarrow> client_env \<Rightarrow> CommandLine \<Rightarrow> Client \<Rightarrow> string \<times> CommandLine \<times> Client" where
  "forwardToTracker P env command c =
     (let (ok, response, tc) = TrackerClient_request P (en_call env) (cl_tracker c) (forward_text command);
          command' = (if keeps_secret command then command\<lparr>cl_args := map secureErase (cl_args command)\<rparr> else command) in
      (shown_reply command response, command',
       c\<lparr>cl_tracker := tc,
         cl_shared := if starts_with response ''OK'' then mirrored command' (cl_shared c) else cl_shared c\<rparr>))"

definition Client_execute :: "platform \<Rightarrow> client_env \<Rightarrow> CommandLine \<Rightarrow> Client \<Rightarrow> string \<times> CommandLine \<times> Client" where
  "Client_execute P env command c =
     (let name = cl_name command; args = cl_args command in
      if name = ''upload_file'' then
        if length args < 2 then (''ERR usage: upload_file <group> <path>'' @ [NL], command, c)
        else let (out, c') = uploadFile_client P env (args ! 0) (args ! 1) c in (out, command, c')
      else if name = ''download_file'' then
        if length args < 3 then (''ERR usage: download_file <group> <file-name> <destination>'' @ [NL], command, c)
        else let (out, tc, downloads) =
            DownloadManager_start P (en_start env) (args ! 0) (args ! 1) (args ! 2) (cl_tracker c) (cl_downloads c) in
          (out, command, c\<lparr>cl_tracker := tc, cl_downloads := downloads\<rparr>)
      else if name = ''show_downloads'' then (DownloadManager_print (cl_downloads c), command, c)
      else if name = ''cancel_download'' then
        if args = [] then (''ERR usage: cancel download <file-name>'' @ [NL], command, c)
        else let (out, downloads) = DownloadManager_cancel (args ! 0) (cl_downloads c) in
          (out, command, c\<lparr>cl_downloads := downloads\<rparr>)
      else forwardToTracker P env command c)"

text \<open>The loop of \<open>run\<close>: read a line, leave at the end of input or at \<open>quit\<close>, else run the command, which writes to
  the prompt's output.  \<open>world n\<close> is what happens in its \<open>n\<close>-th turn: the environment of the command, and what other
  threads do to the downloads and the table while the line is waited for.\<close>

function Client_loop ::
  "platform \<Rightarrow> (nat \<Rightarrow> client_env \<times> (Client \<Rightarrow> Client)) \<Rightarrow> nat \<Rightarrow> Prompt \<Rightarrow> string \<Rightarrow> Client \<Rightarrow> Prompt \<times> Client" where
  "Client_loop P world n prompt line c =
     (case Prompt_read prompt line of
        (ok, line', prompt') \<Rightarrow>
          let c1 = snd (world n) c in
          if \<not> ok then (prompt', c1)
          else
            let command = CommandLine_parse line' in
            if cl_name command = ''quit'' then (prompt', c1)
            else
              let (out, c2) = (if cl_name command \<noteq> [] then
                     (case Client_execute P (fst (world n)) command c1 of (out, command', c2) \<Rightarrow> (out, c2)) else ([], c1)) in
              Client_loop P world (n + 1) (prompt'\<lparr>pr_out := pr_out prompt' @ out\<rparr>) line' c2)"
  by pat_completeness auto
termination
  by (relation "measure (\<lambda>(P, world, n, prompt, line, c). unread prompt)") (auto dest: Prompt_read_unread [OF sym])

declare Client_loop.simps [simp del]

text \<open>\<open>listens\<close> is the result of starting the peer server; the output of the prompt follows the first line.\<close>

definition Client_run ::
  "platform \<Rightarrow> bool \<Rightarrow> (nat \<Rightarrow> client_env \<times> (Client \<Rightarrow> Client)) \<Rightarrow> Prompt \<Rightarrow> Client \<Rightarrow> int \<times> string \<times> Client" where
  "Client_run P listens world prompt c =
     (if length (cl_peerKey c) \<noteq> 32 then (1, ''secure random generation failed'' @ [NL], c)
      else if \<not> listens then (1, ''could not listen for peers on '' @ Endpoint_toString (cl_self c) @ [NL], c)
      else case Client_loop P world 0 prompt [] c of
        (prompt', c') \<Rightarrow> (0, ''Client listening on '' @ Endpoint_toString (cl_self c) @ [NL] @ pr_out prompt',
          c'\<lparr>cl_downloads := DownloadManager_stop (cl_downloads c')\<rparr>))"

section \<open>A script of commands\<close>

text \<open>What the loop is to do with a list of commands, without any lines: run them one after the other up to \<open>quit\<close>,
  with \<open>shown\<close> before each.\<close>

fun script_run ::
  "platform \<Rightarrow> (nat \<Rightarrow> client_env \<times> (Client \<Rightarrow> Client)) \<Rightarrow> string \<Rightarrow> nat \<Rightarrow> string list list \<Rightarrow> Client \<Rightarrow> string \<times> Client" where
  "script_run P world shown n [] c = (shown, snd (world n) c)"
| "script_run P world shown n (ws # script) c =
     (if ws \<noteq> [] \<and> hd ws = ''quit'' then (shown, snd (world n) c)
      else
        let (out, c2) = (if cl_name (command_of ws) \<noteq> [] then
               (case Client_execute P (fst (world n)) (command_of ws) (snd (world n) c) of (out, _, c2) \<Rightarrow> (out, c2))
             else ([], snd (world n) c));
            (rest, c3) = script_run P world shown (n + 1) script c2 in
        (shown @ out @ rest, c3))"

text \<open>The commands that are read: up to \<open>quit\<close>, and with it.\<close>

fun up_to_quit :: "string list list \<Rightarrow> string list list" where
  "up_to_quit [] = []"
| "up_to_quit (ws # script) = ws # (if ws \<noteq> [] \<and> hd ws = ''quit'' then [] else up_to_quit script)"

lemma quit_command: "cl_name (command_of ws) = ''quit'' \<longleftrightarrow> ws \<noteq> [] \<and> hd ws = ''quit''"
proof -
  have "''quit'' \<notin> set verbs"
    by (simp add: verbs_def)
  moreover have "name @ ''_'' @ second \<noteq> ''quit''" for name second
  proof
    assume eq: "name @ ''_'' @ second = ''quit''"
    have "CHR ''_'' \<in> set (name @ ''_'' @ second)"
      by simp
    then show False
      unfolding eq by simp
  qed
  ultimately show ?thesis
    by (auto simp: command_of_def split: list.split)
qed

text \<open>Both ways of giving the script to the loop do just that.\<close>

lemma piped_script:
  assumes "\<not> pr_interactive p" "pr_in p = \<lparr>is_rest = piped (map typed script), is_good = True\<rparr>"
    and "\<And>ws w. ws \<in> set script \<Longrightarrow> w \<in> set ws \<Longrightarrow> NL \<notin> set w"
    and "Client_loop P world n p line c = (q, c')" "script_run P world ''> '' n script c = (out, c'')"
  shows "pr_out q = pr_out p @ out \<and> c' = c'' \<and> is_rest (pr_in q) = piped (map typed (drop (length (up_to_quit script)) script))"
  using assms
proof (induction script arbitrary: n p line c out)
  case Nil
  then show ?case
    using read_piped [of p "[]" line] by (auto simp: Client_loop.simps [of _ _ _ p])
next
  case (Cons ws script)
  let ?p = "p\<lparr>pr_in := \<lparr>is_rest = piped (map typed script), is_good = True\<rparr>, pr_out := pr_out p @ ''> ''\<rparr>"
  have "NL \<notin> set l" if l: "l \<in> set (map typed (ws # script))" for l
  proof -
    obtain vs where vs: "l = typed vs" "vs \<in> set (ws # script)"
      using l by auto
    then show ?thesis
      using typed_newline [of vs] Cons.prems(3) by blast
  qed
  from read_piped [OF Cons.prems(1,2) this] have "Prompt_read p line = (True, typed ws, ?p)"
    by simp
  note loop = Client_loop.simps [of P world n p line c, unfolded this prod.case CommandLine_parse_def parse_typed Let_def quit_command]
  show ?case
  proof (cases "ws \<noteq> [] \<and> hd ws = ''quit''")
    case True
    then show ?thesis
      using Cons.prems(4,5) loop by auto
  next
    case False
    obtain o2 c2 where step: "(if cl_name (command_of ws) \<noteq> [] then
        (case Client_execute P (fst (world n)) (command_of ws) (snd (world n) c) of (out, _, c2) \<Rightarrow> (out, c2))
        else ([], snd (world n) c)) = (o2, c2)"
      by fastforce
    obtain rest c3 where rest: "script_run P world ''> '' (n + 1) script c2 = (rest, c'')"
      using Cons.prems(5) False step by (auto split: prod.splits)
    have out: "out = ''> '' @ o2 @ rest"
      using Cons.prems(5) False step rest by auto
    have "Client_loop P world (n + 1) (?p\<lparr>pr_out := pr_out ?p @ o2\<rparr>) (typed ws) c2 = (q, c')"
      using Cons.prems(4) loop False step by auto
    moreover have "NL \<notin> set w" if "vs \<in> set script" "w \<in> set vs" for vs w
      using Cons.prems(3) [of vs w] that by simp
    ultimately show ?thesis
      using Cons.IH [OF _ _ _ _ rest, of "?p\<lparr>pr_out := pr_out ?p @ o2\<rparr>" "typed ws"] Cons.prems(1) out False by auto
  qed
qed

lemma typed_script:
  assumes "pr_interactive p" "pr_terminal p = map Some (map typed script) @ [None]"
    and "\<And>ws w. ws \<in> set script \<Longrightarrow> w \<in> set ws \<Longrightarrow> NUL \<notin> set w"
    and "Client_loop P world n p line c = (q, c')" "script_run P world [] n script c = (out, c'')"
  shows "pr_out q = pr_out p @ out \<and> c' = c'' \<and>
    pr_history q = pr_history p @ map typed (filter (\<lambda>ws. ws \<noteq> []) (up_to_quit script))"
  using assms
proof (induction script arbitrary: n p line c out)
  case Nil
  then show ?case
    using read_typed [of p "[]" line] by (auto simp: Client_loop.simps [of _ _ _ p])
next
  case (Cons ws script)
  let ?p = "p\<lparr>pr_terminal := map Some (map typed script) @ [None],
    pr_history := pr_history p @ (if ws \<noteq> [] then [typed ws] else [])\<rparr>"
  have "c_str l = l" if l: "l \<in> set (map typed (ws # script))" for l
  proof -
    obtain vs where vs: "l = typed vs" "vs \<in> set (ws # script)"
      using l by auto
    then show ?thesis
      using typed_c_str [of vs] Cons.prems(3) by blast
  qed
  from read_typed [OF Cons.prems(1,2) this] have "Prompt_read p line = (True, typed ws, ?p)"
    by (simp add: typed_blank)
  note loop = Client_loop.simps [of P world n p line c, unfolded this prod.case CommandLine_parse_def parse_typed Let_def quit_command]
  show ?case
  proof (cases "ws \<noteq> [] \<and> hd ws = ''quit''")
    case True
    then show ?thesis
      using Cons.prems(4,5) loop by auto
  next
    case False
    obtain o2 c2 where step: "(if cl_name (command_of ws) \<noteq> [] then
        (case Client_execute P (fst (world n)) (command_of ws) (snd (world n) c) of (out, _, c2) \<Rightarrow> (out, c2))
        else ([], snd (world n) c)) = (o2, c2)"
      by fastforce
    obtain rest c3 where rest: "script_run P world [] (n + 1) script c2 = (rest, c'')"
      using Cons.prems(5) False step by (auto split: prod.splits)
    have out: "out = o2 @ rest"
      using Cons.prems(5) False step rest by auto
    have "Client_loop P world (n + 1) (?p\<lparr>pr_out := pr_out ?p @ o2\<rparr>) (typed ws) c2 = (q, c')"
      using Cons.prems(4) loop False step by auto
    moreover have "NUL \<notin> set w" if "vs \<in> set script" "w \<in> set vs" for vs w
      using Cons.prems(3) [of vs w] that by simp
    ultimately show ?thesis
      using Cons.IH [OF _ _ _ _ rest, of "?p\<lparr>pr_out := pr_out ?p @ o2\<rparr>" "typed ws"] Cons.prems(1) out False by auto
  qed
qed

section \<open>The shared table follows the tracker\<close>

definition drops :: "CommandLine \<Rightarrow> string \<Rightarrow> string \<Rightarrow> bool" where
  "drops command gname name \<longleftrightarrow>
     cl_name command = ''stop_share'' \<and> (\<exists>rest. cl_args command = gname # name # rest) \<or>
     cl_name command = ''leave_group'' \<and> (\<exists>rest. cl_args command = gname # rest) \<or> cl_name command = ''logout''"

lemma find_mirrored:
  "SharedFiles_find gname name (mirrored command files) =
     (if drops command gname name then None else SharedFiles_find gname name files)"
  by (cases "cl_args command"; cases "tl (cl_args command)")
    (auto simp: mirrored_def drops_def shared.lookup_remove shared.lookup_remove_group shared.lookup_clear)

lemma mirrored_keeps_secret: "keeps_secret command \<Longrightarrow> mirrored (command\<lparr>cl_args := a\<rparr>) files = files"
  by (auto simp: mirrored_def keeps_secret_def)

end
