(* ===== verification/Destinations.thy ===== *)
theory Destinations
  imports Arrival Client
begin

text \<open>
  Where the downloads of a client write: the manager refuses a destination that a running download has.
\<close>

text \<open>C38: However the user starts and cancels downloads and however these progress meanwhile - also while a \<open>start\<close> that
  has checked its destination still waits for the tracker - from a client with at most one download on, no two
  downloads that are still running ever have the same destination, nor partial files of the same name.
  Destinations are the same when their texts are: two spellings of one place (\<open>d\<close> and \<open>./d\<close>) are two destinations
  for the manager, and \<open>Findings\<close> shows that it starts both.\<close>

theorem one_download_per_destination:
  assumes "length first \<le> 1"
    and "downloads = mg_downloads (foldl (manager_step P) \<lparr>mg_tracker = tc, mg_downloads = first, mg_starting = None\<rparr> evs)"
    and "i < length downloads" "j < length downloads" "\<not> dl_finished (downloads ! i)" "\<not> dl_finished (downloads ! j)"
    and "dl_destination (downloads ! i) = dl_destination (downloads ! j) \<or> partPath (downloads ! i) = partPath (downloads ! j)"
  shows "i = j"
proof -
  have "manager_ok \<lparr>mg_tracker = tc, mg_downloads = first, mg_starting = None\<rparr>"
    using assms(1) by (auto simp: manager_ok_def exclusive_def)
  then have "exclusive downloads"
    unfolding assms(2) using manager_ok_run by (simp add: manager_ok_def)
  moreover have "dl_destination (downloads ! i) = dl_destination (downloads ! j)"
    using assms(7) by (auto simp: partPath_def)
  ultimately show ?thesis
    using assms(3-6) by (simp add: exclusive_def)
qed

text \<open>A file is fetched to \<open>d\<close>; a second download to \<open>d\<close> is refused, one to \<open>e\<close> is started: both run.\<close>

definition two_places :: "manager_event list" where
  "two_places = (let env = \<lparr>sn_is_directory = (\<lambda>_. False), sn_exists = (\<lambda>_. False), sn_call = arrival_call\<rparr> in
     [Mgr_start env ''g'' ''f'' ''d'', Mgr_located, Mgr_start env ''g'' ''f'' ''d'', Mgr_located, Mgr_print,
      Mgr_start env ''g'' ''f'' ''e'', Mgr_session demo_client, Mgr_located])"

lemma two_places_run:
  "mg_downloads (foldl (manager_step demo_platform) \<lparr>mg_tracker = demo_client, mg_downloads = [], mg_starting = None\<rparr> two_places) =
     [demo_download, demo_download\<lparr>dl_destination := ''e''\<rparr>]"
proof -
  obtain metadata seeders where located: "TrackerClient_locate demo_platform arrival_call demo_client ''g'' ''f'' = (Inr (metadata, seeders), demo_client)"
      "Download_init ''g'' ''f'' ''d'' metadata seeders = demo_download"
    using arrival_located arrival_download by blast
  then have "Download_init ''g'' ''f'' ''e'' metadata seeders = demo_download\<lparr>dl_destination := ''e''\<rparr>"
      "\<not> dl_finished demo_download" "dl_destination demo_download = ''d''"
    unfolding located(2) [symmetric] by (simp_all add: Download_init_def)
  with located show ?thesis
    by (simp add: two_places_def manager_step_def start_check_def start_located_def Let_def)
qed

theorem one_download_per_destination_witness:
  "dl_destination demo_download \<noteq> dl_destination (demo_download\<lparr>dl_destination := ''e''\<rparr>) \<and>
    \<not> dl_finished demo_download \<and> \<not> dl_finished (demo_download\<lparr>dl_destination := ''e''\<rparr>)"
proof -
  have running: "\<not> dl_finished demo_download" "\<not> dl_finished (demo_download\<lparr>dl_destination := ''e''\<rparr>)"
    by (simp_all add: demo_download_def Download_init_def)
  have "dl_destination demo_download \<noteq> dl_destination (demo_download\<lparr>dl_destination := ''e''\<rparr>)"
  proof
    assume "dl_destination demo_download = dl_destination (demo_download\<lparr>dl_destination := ''e''\<rparr>)"
    then show False
      using one_download_per_destination [OF _ two_places_run [symmetric], of 0 1] running by simp
  qed
  with running show ?thesis
    by blast
qed

end
