(* ===== verification/Client_Properties.thy ===== *)
theory Client_Properties
  imports Client Download_Demo
begin

text \<open>Properties of the prompt: what can be typed, and what a command leaves of the client.\<close>

section \<open>What can be typed\<close>

text \<open>Any list of words can be typed, whatever characters are in them, the empty word included: with
  each character behind a backslash and each word in quotes, the line is read back as these words.\<close>

theorem typed_words_come_back: "parseCommandWords (typed ws) = ws"
  by (rule parse_typed)

text \<open>C35: A script of commands is run as it was meant.  Any commands whose words have no newline can be typed, one
  to a line; piped in, the client's loop does exactly what running these commands one after the other does, up to the first
  \<open>quit\<close>, with the same output and the same client in the end, and the lines after \<open>quit\<close> are left unread.  Typed at
  a terminal, when the words have no NUL either, it does the same, and the history has each line that was
  read and is not blank.\<close>

theorem typed_script_comes_back:
  assumes "\<And>ws w. ws \<in> set script \<Longrightarrow> w \<in> set ws \<Longrightarrow> NL \<notin> set w"
  shows "(case Client_loop P world 0 (Prompt_init cin False (piped (map typed script)) []) [] c of (prompt, c') \<Rightarrow>
      (pr_out prompt, c') = script_run P world ''> '' 0 script c \<and>
      is_rest (pr_in prompt) = piped (map typed (drop (length (up_to_quit script)) script))) \<and>
    ((\<forall>ws\<in>set script. \<forall>w\<in>set ws. NUL \<notin> set w) \<longrightarrow>
     (case Client_loop P world 0 (Prompt_init True True [] (map Some (map typed script) @ [None])) [] c of (prompt, c') \<Rightarrow>
        (pr_out prompt, c') = script_run P world [] 0 script c \<and>
        pr_history prompt = map typed (filter (\<lambda>ws. ws \<noteq> []) (up_to_quit script))))"
proof (intro conjI impI)
  let ?p = "Prompt_init cin False (piped (map typed script)) []"
  obtain q c' where run: "Client_loop P world 0 ?p [] c = (q, c')"
    by fastforce
  obtain out c'' where reference: "script_run P world ''> '' 0 script c = (out, c'')"
    by fastforce
  have "\<not> pr_interactive ?p" "pr_in ?p = \<lparr>is_rest = piped (map typed script), is_good = True\<rparr>" "pr_out ?p = []"
    by (simp_all add: Prompt_init_def)
  with piped_script [OF this(1,2) assms run reference]
  show "case Client_loop P world 0 ?p [] c of (prompt, c') \<Rightarrow> (pr_out prompt, c') = script_run P world ''> '' 0 script c \<and>
      is_rest (pr_in prompt) = piped (map typed (drop (length (up_to_quit script)) script))"
    by (simp add: run reference)
next
  let ?p = "Prompt_init True True [] (map Some (map typed script) @ [None])"
  assume plain: "\<forall>ws\<in>set script. \<forall>w\<in>set ws. NUL \<notin> set w"
  obtain q c' where run: "Client_loop P world 0 ?p [] c = (q, c')"
    by fastforce
  obtain out c'' where reference: "script_run P world [] 0 script c = (out, c'')"
    by fastforce
  have "pr_interactive ?p" "pr_terminal ?p = map Some (map typed script) @ [None]" "pr_out ?p = []" "pr_history ?p = []"
    by (simp_all add: Prompt_init_def)
  with typed_script [OF this(1,2) _ run reference] plain
  have "pr_out q = out \<and> c' = c'' \<and> pr_history q = map typed (filter (\<lambda>ws. ws \<noteq> []) (up_to_quit script))"
    by auto
  then show "case Client_loop P world 0 ?p [] c of (prompt, c') \<Rightarrow> (pr_out prompt, c') = script_run P world [] 0 script c \<and>
      pr_history prompt = map typed (filter (\<lambda>ws. ws \<noteq> []) (up_to_quit script))"
    unfolding run reference prod.case by simp
qed

theorem typed_script_comes_back_witness:
  "\<forall>world self config. case Client_loop toy_platform world 0 (Prompt_init True False
      (piped (map typed [[''show_downloads''], [], [''quit''], [''cancel_download'', ''a b'']])) []) [] (Client_init None self config) of
    (prompt, c') \<Rightarrow> is_rest (pr_in prompt) = typed [''cancel_download'', ''a b''] @ [NL]"
proof (intro allI)
  fix world self config
  let ?script = "[[''show_downloads''], [], [''quit''], [''cancel_download'', ''a b'']]"
  have "NL \<notin> set w" if "ws \<in> set ?script" "w \<in> set ws" for ws w
    using that by auto
  from conjunct1 [OF typed_script_comes_back [of ?script, OF this]]
  have "case Client_loop toy_platform world 0 (Prompt_init True False (piped (map typed ?script)) []) []
      (Client_init None self config) of (prompt, c') \<Rightarrow>
        (pr_out prompt, c') = script_run toy_platform world ''> '' 0 ?script (Client_init None self config) \<and>
        is_rest (pr_in prompt) = piped (map typed (drop (length (up_to_quit ?script)) ?script))" .
  then show "case Client_loop toy_platform world 0 (Prompt_init True False (piped (map typed ?script)) []) []
      (Client_init None self config) of (prompt, c') \<Rightarrow> is_rest (pr_in prompt) = typed [''cancel_download'', ''a b''] @ [NL]"
    by (auto simp: numeral_eq_Suc)
qed

text \<open>On a line without quotes and backslashes, the client finds exactly the words that the tracker's
  stream extraction finds, so both ends see the same command.\<close>

theorem plain_line_as_the_tracker_reads_it:
  assumes "BSL \<notin> set line" "QUOTE1 \<notin> set line" "QUOTE2 \<notin> set line"
  shows "parseCommandWords line = words_of line"
  using assms by (rule parse_plain)

theorem plain_line_as_the_tracker_reads_it_witness:
  "parseCommandWords '' login  alice pw '' = words_of '' login  alice pw ''"
  by (rule plain_line_as_the_tracker_reads_it) (simp_all add: BSL_def QUOTE1_def QUOTE2_def)

section \<open>What a command leaves\<close>

text \<open>C37: The shared table follows the tracker: after a forwarded command the client no longer serves exactly
  the files that a command answered \<open>OK\<close> gave up - one file, a group's, or all - and every other entry is
  as before; the downloads are untouched; and the arguments of \<open>login\<close> and \<open>create_user\<close> are erased
  whatever the answer.\<close>

theorem table_follows_the_tracker:
  assumes "cl_name command \<notin> {''upload_file'', ''download_file'', ''show_downloads'', ''cancel_download''}"
    and "Client_execute P env command c = (out, command', c')"
    and "TrackerClient_request P (en_call env) (cl_tracker c) (forward_text command) = (ok, response, tc')"
  shows "SharedFiles_find gname name (cl_shared c') =
      (if starts_with response ''OK'' \<and> drops command gname name then None else SharedFiles_find gname name (cl_shared c)) \<and>
    cl_downloads c' = cl_downloads c \<and> cl_tracker c' = tc' \<and>
    cl_args command' = (if keeps_secret command then replicate (length (cl_args command)) [] else cl_args command)"
proof -
  have run: "forwardToTracker P env command c = (out, command', c')"
    using assms(1,2) by (simp add: Client_execute_def Let_def)
  have erased: "map secureErase xs = replicate (length xs) []" for xs
    by (induction xs) (simp_all add: secureErase_def)
  have "\<not> drops command gname name" if "keeps_secret command"
    using that by (auto simp: keeps_secret_def drops_def)
  with run assms(3) show ?thesis
    by (auto simp: forwardToTracker_def Let_def find_mirrored mirrored_keeps_secret erased split: if_splits)
qed

definition demo_prompt :: Client where
  "demo_prompt = \<lparr>cl_self = \<lparr>ep_ip = ''1.2.3.5'', ep_port = 81\<rparr>, cl_peerKey = replicate 32 CHR ''k'', cl_tracker = demo_tracker,
     cl_shared = SharedFiles_add ''g'' ''f'' demo_part [], cl_downloads = [demo_download]\<rparr>"

definition demo_turn :: client_env where
  "demo_turn = \<lparr>en_call = no_call, en_content = (\<lambda>_. None), en_bad = False,
     en_start = \<lparr>sn_is_directory = (\<lambda>_. False), sn_exists = (\<lambda>_. False), sn_call = no_call\<rparr>\<rparr>"

theorem table_follows_the_tracker_witness:
  "SharedFiles_find ''g'' ''f'' (cl_shared (snd (snd (Client_execute toy_platform demo_turn
       (CommandLine_parse ''login alice pw'') demo_prompt)))) = Some demo_part \<and>
   cl_args (fst (snd (Client_execute toy_platform demo_turn (CommandLine_parse ''login alice pw'') demo_prompt))) = [[], []]"
proof -
  have parsed: "CommandLine_parse ''login alice pw'' = \<lparr>cl_name = ''login'', cl_args = [''alice'', ''pw'']\<rparr>"
    by code_simp
  have asked: "TrackerClient_request toy_platform (en_call demo_turn) (cl_tracker demo_prompt) (forward_text (CommandLine_parse ''login alice pw'')) =
      (False, ''ERR tracker unavailable'', demo_tracker)"
    by (simp add: TrackerClient_request_def demo_turn_def demo_prompt_def Let_def)
  obtain out command' c' where run: "Client_execute toy_platform demo_turn (CommandLine_parse ''login alice pw'') demo_prompt = (out, command', c')"
    by (metis prod_cases3)
  from table_follows_the_tracker [OF _ run asked, of "''g''" "''f''"] show ?thesis
    unfolding run by (simp add: parsed keeps_secret_def demo_prompt_def shared.lookup_add eval_nat_numeral)
qed

end
