(* ===== verification/Tcp_Server.thy ===== *)
theory Tcp_Server
  imports Fair_Run
begin

text \<open>
  \<open>common/net/tcp_server.cpp\<close>: the accept loop of \<open>serve\<close>, the threads it starts, and \<open>stop\<close>.  A step is
  one access of one thread to what they share: \<open>stopping_\<close>, the mutex with \<open>active_\<close>, the condition
  variable \<open>idle_\<close>.  What \<open>poll\<close> and \<open>accept\<close> find comes with the step, and time passes in steps of a
  millisecond: without a connection or a signal, \<open>poll\<close> comes back only when its timeout has run out.  A thread
  that waits on \<open>idle_\<close> sleeps until it is notified (or wakes up by itself, as the library allows), and then tests
  its condition again with the mutex.
\<close>

datatype phase =
    Checking        \<comment> \<open>at the loop condition\<close>
  | Polling         \<comment> \<open>in \<open>poll\<close>\<close>
  | Accepting       \<comment> \<open>poll reported a connection\<close>
  | Counting        \<comment> \<open>accepted, about to count the connection\<close>
  | Spawning        \<comment> \<open>counted, about to start its thread\<close>
  | Closing         \<comment> \<open>left the loop\<close>
  | Waiting         \<comment> \<open>listener closed, about to take the mutex and test \<open>active_\<close>\<close>
  | Sleeping        \<comment> \<open>inside \<open>idle_.wait\<close>, the mutex released\<close>
  | Returned

datatype poll_answer = Ready | Nothing | Interrupted

datatype accept_answer = Accepted | Again | Failed

text \<open>\<open>ts_notifying\<close>: a handler's thread has counted itself down and still holds the mutex, about to notify.\<close>

record tcp_server =
  ts_phase :: phase
  ts_waited :: nat      \<comment> \<open>milliseconds in this call of \<open>poll\<close>\<close>
  ts_stopping :: bool
  ts_listening :: bool
  ts_active :: nat
  ts_handling :: nat    \<comment> \<open>threads inside the handler\<close>
  ts_leaving :: nat     \<comment> \<open>threads whose handler returned, about to count down\<close>
  ts_notifying :: bool

datatype server_event =
    Sv_serve poll_answer accept_answer
  | Sv_tick
  | Sv_handled
  | Sv_leave
  | Sv_notify
  | Sv_spurious
  | Sv_stop

definition listening :: tcp_server where
  "listening = \<lparr>ts_phase = Checking, ts_waited = 0, ts_stopping = False, ts_listening = True, ts_active = 0,
     ts_handling = 0, ts_leaving = 0, ts_notifying = False\<rparr>"

text \<open>The last argument of \<open>poll\<close>; a negative one would mean for ever.\<close>

definition POLL_TIMEOUT :: int where "POLL_TIMEOUT = 200"

text \<open>One step of the thread that runs \<open>serve\<close>; one that finds the mutex taken, \<open>poll\<close> still waiting or
  itself asleep stays where it is.\<close>

definition serve_step :: "poll_answer \<Rightarrow> accept_answer \<Rightarrow> tcp_server \<Rightarrow> tcp_server" where
  "serve_step polled answer s =
     (case ts_phase s of
        Checking \<Rightarrow> if ts_stopping s then s\<lparr>ts_phase := Closing\<rparr> else s\<lparr>ts_phase := Polling, ts_waited := 0\<rparr>
      | Polling \<Rightarrow>
          (case polled of
             Ready \<Rightarrow> s\<lparr>ts_phase := Accepting\<rparr>
           | Interrupted \<Rightarrow> s\<lparr>ts_phase := Checking\<rparr>
           | Nothing \<Rightarrow>
               if POLL_TIMEOUT \<ge> 0 \<and> int (ts_waited s) \<ge> POLL_TIMEOUT then s\<lparr>ts_phase := Checking\<rparr> else s)
      | Accepting \<Rightarrow> s\<lparr>ts_phase := (case answer of Accepted \<Rightarrow> Counting | Again \<Rightarrow> Checking | Failed \<Rightarrow> Closing)\<rparr>
      | Counting \<Rightarrow> if ts_notifying s then s else s\<lparr>ts_phase := Spawning, ts_active := ts_active s + 1\<rparr>
      | Spawning \<Rightarrow> s\<lparr>ts_phase := Checking, ts_handling := ts_handling s + 1\<rparr>
      | Closing \<Rightarrow> s\<lparr>ts_phase := Waiting, ts_listening := False\<rparr>
      | Waiting \<Rightarrow>
          if ts_notifying s then s else s\<lparr>ts_phase := if ts_active s = 0 then Returned else Sleeping\<rparr>
      | Sleeping \<Rightarrow> s
      | Returned \<Rightarrow> s)"

text \<open>One step of anybody.  A handler's thread takes the mutex and counts down in one step, then notifies all
  and lets the mutex go.\<close>

definition server_step :: "tcp_server \<Rightarrow> server_event \<Rightarrow> tcp_server" where
  "server_step s ev =
     (case ev of
        Sv_serve polled answer \<Rightarrow> serve_step polled answer s
      | Sv_tick \<Rightarrow> if ts_phase s = Polling then s\<lparr>ts_waited := ts_waited s + 1\<rparr> else s
      | Sv_handled \<Rightarrow>
          if ts_handling s = 0 then s else s\<lparr>ts_handling := ts_handling s - 1, ts_leaving := ts_leaving s + 1\<rparr>
      | Sv_leave \<Rightarrow>
          if ts_leaving s = 0 \<or> ts_notifying s then s
          else s\<lparr>ts_leaving := ts_leaving s - 1, ts_active := ts_active s - 1, ts_notifying := True\<rparr>
      | Sv_notify \<Rightarrow>
          if ts_notifying s
          then s\<lparr>ts_phase := (if ts_phase s = Sleeping then Waiting else ts_phase s), ts_notifying := False\<rparr>
          else s
      | Sv_spurious \<Rightarrow> if ts_phase s = Sleeping then s\<lparr>ts_phase := Waiting\<rparr> else s
      | Sv_stop \<Rightarrow> s\<lparr>ts_stopping := True\<rparr>)"

definition server_run :: "server_event list \<Rightarrow> tcp_server \<Rightarrow> tcp_server" where
  "server_run evs s = foldl server_step s evs"

section \<open>The count is right, no wake-up is lost, and nothing runs after the return\<close>

definition server_ok :: "tcp_server \<Rightarrow> bool" where
  "server_ok s \<longleftrightarrow>
     ts_active s = ts_handling s + ts_leaving s + (if ts_phase s = Spawning then 1 else 0) \<and>
     (ts_listening s \<longleftrightarrow> ts_phase s \<noteq> Waiting \<and> ts_phase s \<noteq> Sleeping \<and> ts_phase s \<noteq> Returned) \<and>
     (ts_phase s = Sleeping \<longrightarrow> 0 < ts_active s \<or> ts_notifying s) \<and>
     (ts_phase s = Returned \<longrightarrow> ts_active s = 0 \<and> \<not> ts_notifying s)"

lemma server_ok_step: "server_ok s \<Longrightarrow> server_ok (server_step s ev)"
  by (cases ev; cases "ts_phase s")
    (auto simp: server_ok_def server_step_def serve_step_def split: accept_answer.split poll_answer.split)

lemma server_ok_run: "server_ok s \<Longrightarrow> server_ok (server_run evs s)"
  unfolding server_run_def by (induction evs arbitrary: s) (simp_all add: server_ok_step)

lemma server_ok_listening: "server_ok listening"
  by (simp add: server_ok_def listening_def)

lemma returned_stays: "server_ok s \<Longrightarrow> ts_phase s = Returned \<Longrightarrow> ts_phase (server_run evs s) = Returned"
proof -
  assume "server_ok s" "ts_phase s = Returned"
  then have "server_ok (server_run evs s) \<and> ts_phase (server_run evs s) = Returned"
    unfolding server_run_def
  proof (induction evs arbitrary: s)
    case (Cons ev evs)
    then have "ts_phase (server_step s ev) = Returned"
      by (cases ev) (simp_all add: server_step_def serve_step_def)
    with Cons server_ok_step show ?case
      by simp
  qed simp
  then show ?thesis ..
qed

section \<open>After stop, the loop comes to an end\<close>

datatype server_thread = Acceptor | Clock | Handlers | Leavers | Notifier

fun server_thread_of :: "server_event \<Rightarrow> server_thread option" where
  "server_thread_of (Sv_serve polled answer) = Some Acceptor"
| "server_thread_of Sv_tick = Some Clock"
| "server_thread_of Sv_handled = Some Handlers"
| "server_thread_of Sv_leave = Some Leavers"
| "server_thread_of Sv_notify = Some Notifier"
| "server_thread_of Sv_spurious = None"
| "server_thread_of Sv_stop = None"

fun phase_rank :: "phase \<Rightarrow> nat" where
  "phase_rank Polling = 10"
| "phase_rank Accepting = 9"
| "phase_rank Counting = 8"
| "phase_rank Spawning = 7"
| "phase_rank Checking = 3"
| "phase_rank Closing = 2"
| "phase_rank Waiting = 1"
| "phase_rank Sleeping = 1"
| "phase_rank Returned = 0"

definition server_weight :: "tcp_server \<Rightarrow> nat" where
  "server_weight s =
     phase_rank (ts_phase s) + (if ts_phase s = Polling then nat POLL_TIMEOUT - ts_waited s else 0) +
     3 * ts_handling s + 2 * ts_leaving s + (if ts_notifying s then 1 else 0)"

text \<open>Whose step would change something; the others are blocked or have nothing to do.\<close>

definition able :: "tcp_server \<Rightarrow> server_thread \<Rightarrow> bool" where
  "able s k \<longleftrightarrow>
     (case k of
        Acceptor \<Rightarrow>
          (case ts_phase s of
             Polling \<Rightarrow> POLL_TIMEOUT \<le> int (ts_waited s)
           | Counting \<Rightarrow> \<not> ts_notifying s
           | Waiting \<Rightarrow> ts_active s = 0 \<and> \<not> ts_notifying s
           | Sleeping \<Rightarrow> False
           | Returned \<Rightarrow> False
           | _ \<Rightarrow> True)
      | Clock \<Rightarrow> ts_phase s = Polling \<and> int (ts_waited s) < POLL_TIMEOUT
      | Handlers \<Rightarrow> 0 < ts_handling s
      | Leavers \<Rightarrow> 0 < ts_leaving s \<and> \<not> ts_notifying s
      | Notifier \<Rightarrow> ts_notifying s)"

definition server_works :: "tcp_server \<Rightarrow> server_event \<Rightarrow> bool" where
  "server_works s ev \<longleftrightarrow> server_weight (server_step s ev) < server_weight s"

lemmas server_simps = able_def server_weight_def server_step_def serve_step_def POLL_TIMEOUT_def

lemma server_rests:
  assumes "server_ok s" "ts_stopping s"
  shows "server_weight (server_step s ev) \<le> server_weight s"
  using assms
  by (cases ev; cases "ts_phase s"; auto simp: server_simps server_ok_def split: accept_answer.split poll_answer.split)

lemma able_works:
  assumes "server_ok s" "ts_stopping s" "server_thread_of ev = Some k" "able s k"
  shows "server_works s ev"
  using assms
  by (cases ev; cases "ts_phase s"; auto simp: server_works_def server_simps split: accept_answer.split poll_answer.split)

lemma able_stays:
  assumes "server_ok s" "ts_stopping s" "able s k" "server_thread_of ev \<noteq> Some k" "\<not> server_works s ev"
  shows "able (server_step s ev) k"
  using assms
  by (cases ev; cases k; cases "ts_phase s";
      auto simp: server_works_def server_simps split: accept_answer.splits poll_answer.splits if_splits)

lemma someone_able:
  assumes "server_ok s" "ts_phase s \<noteq> Returned"
  shows "\<exists>k. able s k"
proof (rule ccontr)
  assume "\<nexists>k. able s k"
  then have "\<not> able s Notifier" "\<not> able s Handlers" "\<not> able s Leavers" "\<not> able s Acceptor" "\<not> able s Clock"
    by blast+
  with assms show False
    by (cases "ts_phase s") (auto simp: able_def server_ok_def)
qed

interpretation stopping: fair_run server_step "\<lambda>s. server_ok s \<and> ts_stopping s" server_works server_weight
  server_thread_of UNIV able "\<lambda>s. ts_phase s = Returned"
proof unfold_locales
  fix s ev k
  assume inv: "server_ok s \<and> ts_stopping s"
  have "ts_stopping (server_step s ev)"
    using inv by (cases ev) (auto simp: server_step_def serve_step_def split: phase.split poll_answer.split)
  with inv show "server_ok (server_step s ev) \<and> ts_stopping (server_step s ev)"
    using server_ok_step by blast
  show "server_works s ev \<Longrightarrow> server_weight (server_step s ev) < server_weight s"
    by (simp add: server_works_def)
  show "\<not> server_works s ev \<Longrightarrow> server_weight (server_step s ev) \<le> server_weight s"
    using server_rests inv by blast
  show "server_thread_of ev = Some k \<Longrightarrow> able s k \<Longrightarrow> server_works s ev"
    using able_works inv by blast
  show "able s k \<Longrightarrow> server_thread_of ev \<noteq> Some k \<Longrightarrow> \<not> server_works s ev \<Longrightarrow> able (server_step s ev) k"
    using able_stays inv by blast
  show "ts_phase s \<noteq> Returned \<Longrightarrow> \<exists>k\<in>UNIV. able s k"
    using someone_able inv by blast
qed

section \<open>Properties\<close>

text \<open>C39: When \<open>serve\<close> has returned, the listener is closed and no handler is running, and none will run
  again, whatever came before and whatever else happens; nor does any thread hold the mutex or have a
  notification left to make.  What the handler uses, and the server itself, may be destroyed.\<close>

theorem serve_returns_idle:
  assumes "ts_phase (server_run evs listening) = Returned"
  shows "\<not> ts_listening (server_run evs listening) \<and> ts_active (server_run evs listening) = 0 \<and>
    ts_handling (server_run (evs @ later) listening) = 0 \<and> ts_leaving (server_run (evs @ later) listening) = 0 \<and>
    \<not> ts_notifying (server_run (evs @ later) listening)"
proof -
  let ?s = "server_run evs listening" and ?s' = "server_run (evs @ later) listening"
  have ok: "server_ok ?s" "server_ok ?s'"
    by (rule server_ok_run [OF server_ok_listening])+
  have "?s' = server_run later ?s"
    by (simp add: server_run_def)
  then have "ts_phase ?s' = Returned"
    using returned_stays [OF ok(1) assms] by simp
  with ok assms show ?thesis
    by (simp add: server_ok_def)
qed

text \<open>One connection is accepted, \<open>stop\<close> is called while its handler runs, and \<open>serve\<close> sleeps until it is notified.\<close>

definition served_once :: "server_event list" where
  "served_once = replicate 5 (Sv_serve Ready Accepted) @ [Sv_stop] @ replicate 3 (Sv_serve Nothing Accepted) @
     [Sv_handled, Sv_serve Nothing Accepted, Sv_leave, Sv_serve Nothing Accepted, Sv_notify, Sv_serve Nothing Accepted]"

theorem serve_returns_idle_witness:
  "ts_phase (server_run served_once listening) = Returned \<and> ts_handling (server_run (served_once @ [Sv_handled]) listening) = 0"
proof -
  have "ts_phase (server_run served_once listening) = Returned"
    by code_simp
  with serve_returns_idle [of served_once "[Sv_handled]"] show ?thesis
    by simp
qed

text \<open>C40: Once \<open>stop\<close> was called, \<open>serve\<close> returns, in any fair schedule, whether connections keep arriving or none
  ever does: \<open>poll\<close> comes back when its timeout has run out, and the wait for the handlers is woken up by the
  last one's notification.  Fair means that every thread gets its turn again and again and time passes: that
  \<open>accept\<close> comes back, and that every handler returns.  What \<open>poll\<close> and \<open>accept\<close> find is arbitrary.\<close>

theorem stopped_server_returns:
  assumes "\<And>k n. \<exists>m\<ge>n. server_thread_of (sched m) = Some k"
  shows "\<exists>n. ts_phase (server_run (evs @ Sv_stop # map sched [0..<n]) listening) = Returned"
proof -
  let ?s = "server_step (server_run evs listening) Sv_stop"
  have "server_ok ?s"
    by (rule server_ok_step [OF server_ok_run [OF server_ok_listening]])
  moreover have "ts_stopping ?s"
    by (simp add: server_step_def)
  ultimately have "server_ok ?s \<and> ts_stopping ?s" ..
  from stopping.fair_finishes [OF this, of sched] assms show ?thesis
    by (simp add: server_run_def)
qed

text \<open>Nobody connects any more: \<open>stop\<close> comes while one handler runs and \<open>serve\<close> is in \<open>poll\<close>.\<close>

definition round_robin :: "nat \<Rightarrow> server_event" where
  "round_robin n = [Sv_serve Nothing Again, Sv_tick, Sv_handled, Sv_leave, Sv_notify] ! (n mod 5)"

theorem stopped_server_returns_witness:
  "\<exists>n. ts_phase (server_run (replicate 6 (Sv_serve Ready Accepted) @ Sv_stop # map round_robin [0..<n]) listening) = Returned"
proof (rule stopped_server_returns)
  fix k and n :: nat
  let ?i = "(case k of Acceptor \<Rightarrow> 0 | Clock \<Rightarrow> 1 | Handlers \<Rightarrow> 2 | Leavers \<Rightarrow> 3 | Notifier \<Rightarrow> 4) :: nat"
  have "server_thread_of (round_robin (5 * n + ?i)) = Some k"
    by (cases k) (simp_all add: round_robin_def mod_Suc)
  then show "\<exists>m\<ge>n. server_thread_of (round_robin m) = Some k"
    by (intro exI [of _ "5 * n + ?i"]) simp
qed

text \<open>A failing \<open>accept\<close> ends \<open>serve\<close> although nobody called \<open>stop\<close>.\<close>

lemma accept_failure_ends_serving:
  "ts_phase s = Accepting \<Longrightarrow> ts_phase (server_step s (Sv_serve polled Failed)) = Closing \<and>
     ts_stopping (server_step s (Sv_serve polled Failed)) = ts_stopping s"
  by (simp add: server_step_def serve_step_def)

end
