(* ===== verification/Peer_Service.thy ===== *)
theory Peer_Service
  imports Tcp_Server
begin

text \<open>
  The life of a \<open>PeerServer\<close> (\<open>client/peer/peer_server.cpp\<close>): the TCP server it owns and the thread that
  runs it.  \<open>stop\<close> comes back only when no request is being answered any more, so the table of shared
  files, which the client owns, may be destroyed after it.
\<close>

record peer_service =
  pv_tcp :: tcp_server
  pv_thread :: bool      \<comment> \<open>the thread is joinable\<close>

definition PeerServer_init :: peer_service where
  "PeerServer_init = \<lparr>pv_tcp = listening\<lparr>ts_listening := False\<rparr>, pv_thread = False\<rparr>"

text \<open>\<open>start\<close>; \<open>listens\<close> is whether the address could be bound.  The new thread is about to enter \<open>serve\<close>.\<close>

definition PeerServer_start :: "bool \<Rightarrow> peer_service \<Rightarrow> bool \<times> peer_service" where
  "PeerServer_start listens s =
     (let tcp = (pv_tcp s)\<lparr>ts_listening := listens\<rparr> in
      if \<not> listens then (False, s\<lparr>pv_tcp := tcp\<rparr>)
      else (True, s\<lparr>pv_tcp := tcp\<lparr>ts_phase := Checking\<rparr>, pv_thread := True\<rparr>))"

text \<open>\<open>stop\<close>: \<open>evs\<close> is what the threads do while the caller waits in \<open>join\<close>; \<^const>\<open>None\<close> when \<open>serve\<close> has not
  returned yet.\<close>

definition PeerServer_stop :: "server_event list \<Rightarrow> peer_service \<Rightarrow> peer_service option" where
  "PeerServer_stop evs s =
     (let tcp = server_step (pv_tcp s) Sv_stop in
      if pv_thread s
      then let joined = server_run evs tcp in
        if ts_phase joined = Returned then Some \<lparr>pv_tcp = joined, pv_thread = False\<rparr> else None
      else Some (s\<lparr>pv_tcp := tcp\<rparr>))"

text \<open>What the threads have done since the start.\<close>

definition serving :: "server_event list \<Rightarrow> peer_service \<Rightarrow> peer_service" where
  "serving evs s = (if pv_thread s then s\<lparr>pv_tcp := server_run evs (pv_tcp s)\<rparr> else s)"

lemma started: "PeerServer_start True PeerServer_init = (True, \<lparr>pv_tcp = listening, pv_thread = True\<rparr>)"
  by (simp add: PeerServer_start_def PeerServer_init_def listening_def)

lemma start_refused:
  "PeerServer_start False PeerServer_init = (False, PeerServer_init)"
  by (simp add: PeerServer_start_def PeerServer_init_def)

lemma stop_unstarted: "PeerServer_stop evs PeerServer_init \<noteq> None"
  by (simp add: PeerServer_stop_def PeerServer_init_def Let_def)

lemma stop_is_idle:
  assumes "PeerServer_start True PeerServer_init = (ok, s)" "PeerServer_stop evs (serving before s) = Some s'"
  shows "\<not> ts_listening (pv_tcp s') \<and> \<not> pv_thread s' \<and>
    ts_handling (server_run later (pv_tcp s')) = 0 \<and> ts_leaving (server_run later (pv_tcp s')) = 0"
proof -
  have tcp: "pv_tcp s' = server_run (before @ Sv_stop # evs) listening" "ts_phase (pv_tcp s') = Returned" "\<not> pv_thread s'"
    using assms unfolding started by (auto simp: PeerServer_stop_def serving_def server_run_def Let_def split: if_splits)
  have ok: "server_ok (pv_tcp s')"
    unfolding tcp(1) by (rule server_ok_run [OF server_ok_listening])
  have "server_ok (server_run later (pv_tcp s'))" "ts_phase (server_run later (pv_tcp s')) = Returned"
    using server_ok_run [OF ok] returned_stays [OF ok tcp(2)] by auto
  with ok tcp(2,3) show ?thesis
    by (simp add: server_ok_def)
qed

lemma stop_returns:
  assumes "PeerServer_start True PeerServer_init = (ok, s)" "\<And>k n. \<exists>m\<ge>n. server_thread_of (sched m) = Some k"
  shows "\<exists>n. PeerServer_stop (map sched [0..<n]) (serving before s) \<noteq> None"
proof -
  let ?s = "server_step (server_run before listening) Sv_stop"
  have "server_ok ?s"
    by (rule server_ok_step [OF server_ok_run [OF server_ok_listening]])
  then have "server_ok ?s \<and> ts_stopping ?s"
    by (simp add: server_step_def)
  from stopping.fair_finishes [OF this, of sched] assms(2)
  obtain n where "ts_phase (server_run (map sched [0..<n]) ?s) = Returned"
    by (auto simp: server_run_def)
  then have "PeerServer_stop (map sched [0..<n]) (serving before s) \<noteq> None"
    using assms(1) unfolding started by (auto simp: PeerServer_stop_def serving_def Let_def)
  then show ?thesis ..
qed

text \<open>\<open>stop\<close> may be called again: the destructor does.\<close>

lemma stopping_step: "ts_stopping t \<Longrightarrow> ts_stopping (server_step t ev)"
  by (cases ev; cases "ts_phase t") (simp_all add: server_step_def serve_step_def split: poll_answer.split)

lemma stopping_run: "ts_stopping t \<Longrightarrow> ts_stopping (server_run evs t)"
  unfolding server_run_def by (induction evs arbitrary: t) (simp_all add: stopping_step)

lemma stop_again:
  assumes "PeerServer_stop evs s = Some s'"
  shows "PeerServer_stop evs' s' = Some s'"
proof -
  have "ts_stopping (server_step t Sv_stop)" for t
    by (simp add: server_step_def)
  then have "ts_stopping (pv_tcp s')" "\<not> pv_thread s'"
    using assms stopping_run by (auto simp: PeerServer_stop_def Let_def split: if_splits)
  then show ?thesis
    by (cases s'; cases "pv_tcp s'") (simp add: PeerServer_stop_def server_step_def)
qed

end
