(* ===== verification/Descriptors.thy ===== *)
theory Descriptors
  imports Prelude
begin

text \<open>
  Owners of a descriptor: \<open>Socket\<close> (\<open>common/net/net.cpp\<close>) and \<open>PieceFile\<close>
  (\<open>client/storage/piece_file.cpp\<close>), which hold the number of an open descriptor or \<open>-1\<close>, can be moved and
  close what they hold when they are destroyed or assigned.  The kernel is the set of open
  descriptors with their mode and timeouts; a call of \<open>close\<close> on a number that is not open is counted,
  because in a program of several threads it may close a descriptor of somebody else.
\<close>

record kernel =
  kn_open :: "int set"
  kn_misclosed :: nat
  kn_nonblocking :: "int \<Rightarrow> bool"
  kn_timeout :: "int \<Rightarrow> int"

definition kernel_close :: "int \<Rightarrow> kernel \<Rightarrow> kernel" where
  "kernel_close fd k = (if fd \<in> kn_open k then k\<lparr>kn_open := kn_open k - {fd}\<rparr> else k\<lparr>kn_misclosed := kn_misclosed k + 1\<rparr>)"

text \<open>The variables that are owners, each with the number it holds, and the kernel.\<close>

type_synonym 'v owners = "('v \<Rightarrow> int) \<times> kernel"

section \<open>The two classes\<close>

definition Socket_close :: "int \<Rightarrow> kernel \<Rightarrow> kernel" where
  "Socket_close fd k = (if fd \<ge> 0 then kernel_close fd k else k)"

text \<open>\<open>v = std::move(w)\<close>, where \<open>v\<close> and \<open>w\<close> may be the same.\<close>

definition Socket_move_assign :: "'v \<Rightarrow> 'v \<Rightarrow> 'v owners \<Rightarrow> 'v owners" where
  "Socket_move_assign this other s =
     (let (held, k) = s in
      if this \<noteq> other
      then (held(this := held other, other := - 1), if held this \<ge> 0 then kernel_close (held this) k else k)
      else s)"

definition PieceFile_close :: "int \<Rightarrow> kernel \<Rightarrow> kernel" where
  "PieceFile_close fd k = (if fd \<ge> 0 then kernel_close fd k else k)"

definition PieceFile_move_assign :: "'v \<Rightarrow> 'v \<Rightarrow> 'v owners \<Rightarrow> 'v owners" where
  "PieceFile_move_assign this other s =
     (let (held, k) = s in
      if this \<noteq> other
      then (held(this := held other, other := - 1), if held this \<ge> 0 then kernel_close (held this) k else k)
      else s)"

section \<open>Exactly one owner\<close>

text \<open>Besides the descriptors of others, exactly those are open which a variable holds, and no two
  variables hold the same; no call of \<open>close\<close> has missed.\<close>

definition holds :: "('v \<Rightarrow> int) \<Rightarrow> int \<Rightarrow> bool" where
  "holds held fd \<longleftrightarrow> (\<exists>v. held v = fd)"

definition owned :: "int set \<Rightarrow> 'v owners \<Rightarrow> bool" where
  "owned others s \<longleftrightarrow>
     (\<forall>fd. fd \<in> kn_open (snd s) \<longleftrightarrow> fd \<in> others \<or> 0 \<le> fd \<and> holds (fst s) fd) \<and> kn_misclosed (snd s) = 0 \<and>
     (\<forall>v. 0 \<le> fst s v \<longrightarrow> fst s v \<notin> others) \<and> (\<forall>v w. 0 \<le> fst s v \<longrightarrow> fst s v = fst s w \<longrightarrow> v = w)"

text \<open>What happens to the variables: one is initialised with what a system call returned (a number that
  was not open, or \<open>-1\<close>), one is assigned or move-constructed from another, one is destroyed.\<close>

datatype 'v owner_event = Own_init 'v int | Own_move 'v 'v | Own_drop 'v

definition owner_step ::
  "(int \<Rightarrow> kernel \<Rightarrow> kernel) \<Rightarrow> ('v \<Rightarrow> 'v \<Rightarrow> 'v owners \<Rightarrow> 'v owners) \<Rightarrow> 'v owners \<Rightarrow> 'v owner_event \<Rightarrow> 'v owners" where
  "owner_step close_it assign s ev =
     (let (held, k) = s in
      case ev of
        Own_init v fd \<Rightarrow>
          if held v < 0 \<and> fd \<notin> kn_open k
          then (held(v := fd), if fd \<ge> 0 then k\<lparr>kn_open := insert fd (kn_open k)\<rparr> else k) else s
      | Own_move v w \<Rightarrow> assign v w s
      | Own_drop v \<Rightarrow> (held(v := - 1), close_it (held v) k))"

lemma holds_value [simp]: "holds held (held v)"
  by (auto simp: holds_def)

lemma ownedD:
  assumes "owned others (held, k)" "0 \<le> held v"
  shows "held v \<in> kn_open k" "held v \<notin> others" "held v = held w \<longleftrightarrow> v = w"
  using assms by (auto simp: owned_def)

lemma owned_init:
  assumes "owned others (held, k)" "held v < 0" "fd \<notin> kn_open k"
  shows "owned others (held(v := fd), if 0 \<le> fd then k\<lparr>kn_open := insert fd (kn_open k)\<rparr> else k)"
proof -
  have new: "held w \<noteq> fd" "fd \<notin> others" if "0 \<le> fd" for w
    using assms(1,3) that by (auto simp: owned_def)
  have holds: "holds (held(v := fd)) x \<longleftrightarrow> x = fd \<or> holds held x" if "0 \<le> x" for x
    using assms(2) that unfolding holds_def by (metis fun_upd_apply not_less)
  show ?thesis
    using assms(1) new holds by (auto simp: owned_def)
qed

lemma owned_close:
  assumes "owned others (held, k)"
  shows "owned others (held(v := - 1), if 0 \<le> held v then kernel_close (held v) k else k)"
proof -
  have holds: "holds (held(v := - 1)) x \<longleftrightarrow> x \<noteq> held v \<and> holds held x" if "0 \<le> x" for x
  proof (cases "0 \<le> held v")
    case True
    then show ?thesis
      using ownedD(3) [OF assms True] that unfolding holds_def by (metis fun_upd_apply not_one_le_zero le_minus_one_simps(3))
  qed (use that in \<open>auto simp: holds_def\<close>)
  show ?thesis
  proof (cases "0 \<le> held v")
    case True
    note own = ownedD [OF assms True]
    show ?thesis
      using assms True own holds by (auto simp: owned_def kernel_close_def)
  next
    case False
    with assms holds show ?thesis
      by (auto simp: owned_def)
  qed
qed

text \<open>A move is a close and then a renaming of the holder.\<close>

lemma owned_move:
  assumes "owned others (held, k)" "v \<noteq> w"
  shows "owned others (held(v := held w, w := - 1), if 0 \<le> held v then kernel_close (held v) k else k)"
proof -
  let ?held = "held(v := - 1)" and ?moved = "held(v := held w, w := - 1)"
  have closed: "owned others (?held, if 0 \<le> held v then kernel_close (held v) k else k)"
    by (rule owned_close) (rule assms(1))
  define swap where "swap x = (if x = v then w else if x = w then v else x)" for x
  have moved: "?moved = ?held \<circ> swap" and twice: "swap (swap x) = x" for x
    using assms(2) by (auto simp: swap_def fun_eq_iff)
  have "holds (?held \<circ> swap) fd \<longleftrightarrow> holds ?held fd" for fd
    unfolding holds_def comp_def by (metis twice)
  moreover have "0 \<le> ?held (swap x) \<Longrightarrow> ?held (swap x) = ?held (swap y) \<Longrightarrow> x = y" for x y
    using closed twice unfolding owned_def fst_conv by metis
  ultimately show ?thesis
    using closed unfolding owned_def fst_conv snd_conv moved comp_def by blast
qed

locale owner =
  fixes close_it :: "int \<Rightarrow> kernel \<Rightarrow> kernel"
    and assign :: "'v \<Rightarrow> 'v \<Rightarrow> 'v owners \<Rightarrow> 'v owners"
  assumes drop_owned: "owned others (held, k) \<Longrightarrow> owned others (held(v := - 1), close_it (held v) k)"
    and assign_owned: "owned others s \<Longrightarrow> owned others (assign v w s)"
begin

lemma step_owned: "owned others s \<Longrightarrow> owned others (owner_step close_it assign s ev)"
proof (cases ev)
  case (Own_init v fd)
  assume "owned others s"
  then show ?thesis
    using owned_init [of others "fst s" "snd s" v fd] by (simp add: Own_init owner_step_def case_prod_beta)
next
  case (Own_drop v)
  assume "owned others s"
  then show ?thesis
    by (cases s) (simp add: Own_drop owner_step_def drop_owned)
qed (simp add: owner_step_def assign_owned split: prod.split)

lemma run_owned: "owned others s \<Longrightarrow> owned others (foldl (owner_step close_it assign) s evs)"
  by (induction evs arbitrary: s) (simp_all add: step_owned)

text \<open>Nothing is leaked: when every variable is destroyed, only the descriptors of others are open.\<close>

lemma all_dropped:
  assumes "owned others s" "\<And>v. fst (foldl (owner_step close_it assign) s evs) v < 0"
  shows "kn_open (snd (foldl (owner_step close_it assign) s evs)) = others"
proof -
  let ?s = "foldl (owner_step close_it assign) s evs"
  have "\<not> (0 \<le> fd \<and> holds (fst ?s) fd)" for fd
    using assms(2) by (auto simp: holds_def not_le [symmetric])
  then show ?thesis
    using run_owned [OF assms(1), of evs] unfolding owned_def by blast
qed

end

interpretation sockets: owner Socket_close Socket_move_assign
proof
  show "owned others (held(v := - 1), Socket_close (held v) k)" if "owned others (held, k)" for others held v k
    unfolding Socket_close_def using that by (rule owned_close)
  show "owned others (Socket_move_assign v w s)" if "owned others s" for others v w s
    using that by (cases s; cases "v = w") (simp_all add: Socket_move_assign_def owned_move split del: if_split)
qed

interpretation piece_files: owner PieceFile_close PieceFile_move_assign
proof
  show "owned others (held(v := - 1), PieceFile_close (held v) k)" if "owned others (held, k)" for others held v k
    unfolding PieceFile_close_def using that by (rule owned_close)
  show "owned others (PieceFile_move_assign v w s)" if "owned others s" for others v w s
    using that by (cases s; cases "v = w") (simp_all add: PieceFile_move_assign_def owned_move split del: if_split)
qed

end
