(* ===== verification/Sockets.thy ===== *)
theory Sockets
  imports Endpoint Descriptors
begin

text \<open>
  \<open>Socket\<close> in \<open>common/net/net.cpp\<close> as an owner of a descriptor: opening a connection with a deadline,
  and listening.  Every path either returns the one descriptor it opened or has closed it again; each
  system call's answer is an argument.
\<close>

definition Socket_setTimeout :: "int \<Rightarrow> int \<Rightarrow> kernel \<Rightarrow> kernel" where
  "Socket_setTimeout fd seconds k = k\<lparr>kn_timeout := (kn_timeout k)(fd := seconds)\<rparr>"

section \<open>Waiting for a connection\<close>

datatype poll_answer = Poll_ready | Poll_timeout | Poll_error | Poll_eintr

text \<open>Each turn of the loop: the clock in milliseconds, then what \<open>poll\<close> and \<open>SO_ERROR\<close> say.  \<^const>\<open>None\<close>: the
  loop has not come to an answer yet.\<close>

fun wait_loop :: "int \<Rightarrow> (int \<times> poll_answer \<times> bool) list \<Rightarrow> bool option" where
  "wait_loop deadline [] = None"
| "wait_loop deadline ((now, answer, connected) # turns) =
     (if deadline - now < 0 then Some False
      else case answer of
        Poll_eintr \<Rightarrow> wait_loop deadline turns
      | Poll_timeout \<Rightarrow> Some False
      | Poll_error \<Rightarrow> Some False
      | Poll_ready \<Rightarrow> Some connected)"

definition waitForConnect :: "int \<Rightarrow> int \<Rightarrow> (int \<times> poll_answer \<times> bool) list \<Rightarrow> bool option" where
  "waitForConnect start timeoutSeconds turns = wait_loop (start + timeoutSeconds * 1000) turns"

lemma wait_loop_True:
  "wait_loop deadline turns = Some True \<Longrightarrow> \<exists>now. (now, Poll_ready, True) \<in> set turns \<and> now \<le> deadline"
  by (induction turns) (auto split: if_splits poll_answer.splits, metis not_less)

text \<open>Interrupted calls do not extend the deadline: the first reading after it ends the loop.\<close>

lemma wait_loop_ends:
  "(now, answer, connected) \<in> set turns \<Longrightarrow> deadline < now \<Longrightarrow> wait_loop deadline turns \<noteq> None"
  by (induction turns) (auto split: poll_answer.splits)

section \<open>Connecting\<close>

datatype connect_answer = Connected | In_progress | Refused

record connect_env =
  cn_socket :: int
  cn_getfl :: bool
  cn_setfl :: bool
  cn_connect :: connect_answer
  cn_start :: int
  cn_turns :: "(int \<times> poll_answer \<times> bool) list"
  cn_restore :: bool

definition set_nonblocking :: "int \<Rightarrow> bool \<Rightarrow> kernel \<Rightarrow> kernel" where
  "set_nonblocking fd b k = k\<lparr>kn_nonblocking := (kn_nonblocking k)(fd := b)\<rparr>"

definition opened :: "int \<Rightarrow> kernel \<Rightarrow> kernel" where
  "opened fd k = k\<lparr>kn_open := insert fd (kn_open k), kn_nonblocking := (kn_nonblocking k)(fd := False),
     kn_timeout := (kn_timeout k)(fd := 0)\<rparr>"

text \<open>The socket that is returned (\<open>-1\<close>: an invalid one) and the kernel; a local socket on an early return
  is destroyed.  \<^const>\<open>None\<close>: still waiting.\<close>

definition Socket_connect :: "platform \<Rightarrow> connect_env \<Rightarrow> Endpoint \<Rightarrow> int \<Rightarrow> kernel \<Rightarrow> (int \<times> kernel) option" where
  "Socket_connect P env endpoint timeoutSeconds k =
     (if \<not> toAddress P endpoint \<or> timeoutSeconds < 0 then Some (- 1, k)
      else
        let fd = cn_socket env in
        if fd < 0 then Some (- 1, k)
        else
          let k1 = opened fd k in
          if \<not> cn_getfl env \<or> \<not> cn_setfl env then Some (- 1, Socket_close fd k1)
              else
                let k2 = set_nonblocking fd True k1;
                    finish = (if \<not> cn_restore env then (- 1, Socket_close fd k2)
                              else (fd, Socket_setTimeout fd timeoutSeconds (set_nonblocking fd False k2))) in
                case cn_connect env of
                  Refused \<Rightarrow> Some (- 1, Socket_close fd k2)
                | Connected \<Rightarrow> Some finish
                | In_progress \<Rightarrow>
                    (case waitForConnect (cn_start env) timeoutSeconds (cn_turns env) of
                       None \<Rightarrow> None
                     | Some ok \<Rightarrow> Some (if ok then finish else (- 1, Socket_close fd k2))))"

text \<open>\<open>listen\<close>: the four calls in the order they are made.\<close>

definition Socket_listen :: "platform \<Rightarrow> int \<Rightarrow> bool \<Rightarrow> bool \<Rightarrow> bool \<Rightarrow> Endpoint \<Rightarrow> kernel \<Rightarrow> int \<times> kernel" where
  "Socket_listen P fd reuses binds listens endpoint k =
     (if \<not> toAddress P endpoint then (- 1, k)
      else if fd < 0 then (- 1, k)
      else if \<not> reuses \<or> \<not> binds \<or> \<not> listens then (- 1, Socket_close fd (opened fd k))
      else (fd, opened fd k))"

text \<open>\<open>accept\<close>: whatever the system call answers becomes the new socket's.\<close>

definition Socket_accept :: "int \<Rightarrow> kernel \<Rightarrow> int \<times> kernel" where
  "Socket_accept fd k = (fd, if fd \<ge> 0 then opened fd k else k)"

text \<open>\<open>peer\<close>: what \<open>getpeername\<close> and \<open>inet_ntop\<close> answer; the port is the two bytes of the address, high byte first.\<close>

record peer_answer =
  pa_ok :: bool
  pa_inet :: bool
  pa_text :: "string option"
  pa_port :: "char \<times> char"

definition Socket_peer :: "peer_answer \<Rightarrow> Endpoint option" where
  "Socket_peer answer =
     (if \<not> pa_ok answer \<or> \<not> pa_inet answer then None
      else case pa_text answer of
        None \<Rightarrow> None
      | Some ip \<Rightarrow> Some \<lparr>ep_ip = ip, ep_port = int (of_char (fst (pa_port answer)) * 256 + of_char (snd (pa_port answer)))\<rparr>)"

lemma peer_port: "Socket_peer answer = Some e \<Longrightarrow> 0 \<le> ep_port e \<and> ep_port e < 65536"
proof -
  have "int (of_char c) * 256 + int (of_char d) < 65536" for c d :: char
    using nat_of_char_less_256 [of c] nat_of_char_less_256 [of d] by linarith
  then show "Socket_peer answer = Some e \<Longrightarrow> 0 \<le> ep_port e \<and> ep_port e < 65536"
    by (auto simp: Socket_peer_def split: if_splits option.splits)
qed

lemma connect_owns:
  assumes "Socket_connect P env endpoint timeoutSeconds k = Some (fd, k')" "cn_socket env \<notin> kn_open k"
  shows "(if 0 \<le> fd
    then fd = cn_socket env \<and> kn_open k' = insert fd (kn_open k) \<and> \<not> kn_nonblocking k' fd \<and> kn_timeout k' fd = timeoutSeconds
    else fd = - 1 \<and> kn_open k' = kn_open k) \<and> kn_misclosed k' = kn_misclosed k"
  using assms
  by (auto simp: Socket_connect_def Let_def Socket_setTimeout_def set_nonblocking_def opened_def Socket_close_def kernel_close_def
      split: if_splits option.splits connect_answer.splits)

lemma listen_owns:
  assumes "Socket_listen P fd0 reuses binds listens endpoint k = (fd, k')" "fd0 \<notin> kn_open k"
  shows "(if 0 \<le> fd then fd = fd0 \<and> kn_open k' = insert fd (kn_open k) else fd = - 1 \<and> kn_open k' = kn_open k) \<and> kn_misclosed k' = kn_misclosed k"
  using assms by (auto simp: Socket_listen_def opened_def Socket_close_def kernel_close_def split: if_splits)

section \<open>One owner for each descriptor\<close>

text \<open>No variable owns anything yet; \<open>others\<close> are open descriptors of somebody else.\<close>

definition no_owners :: "int set \<Rightarrow> 'v owners" where
  "no_owners others = (\<lambda>_. - 1, \<lparr>kn_open = others, kn_misclosed = 0, kn_nonblocking = (\<lambda>_. False), kn_timeout = (\<lambda>_. 0)\<rparr>)"

definition sockets_after :: "int set \<Rightarrow> 'v owner_event list \<Rightarrow> 'v owners" where
  "sockets_after others evs = foldl (owner_step Socket_close Socket_move_assign) (no_owners others) evs"

definition piece_files_after :: "int set \<Rightarrow> 'v owner_event list \<Rightarrow> 'v owners" where
  "piece_files_after others evs = foldl (owner_step PieceFile_close PieceFile_move_assign) (no_owners others) evs"

definition one_owner :: "int set \<Rightarrow> 'v owners \<Rightarrow> bool" where
  "one_owner others s \<longleftrightarrow> kn_misclosed (snd s) = 0 \<and> others \<subseteq> kn_open (snd s) \<and>
     (\<forall>fd \<in> kn_open (snd s) - others. \<exists>!v. fst s v = fd) \<and> (\<forall>v. 0 \<le> fst s v \<longrightarrow> fst s v \<in> kn_open (snd s) - others)"

lemma owned_one_owner: "owned others s \<Longrightarrow> one_owner others s"
  unfolding owned_def one_owner_def holds_def by (metis DiffD1 DiffD2 DiffI subsetI)

lemma no_owners_owned: "owned others (no_owners others)"
  by (auto simp: owned_def no_owners_def holds_def)

text \<open>C33: However sockets and piece files are opened, moved (also onto themselves) and destroyed, every descriptor opened for
  one of them has exactly one owner until it is closed, no close hits a number that is not open, no descriptor of
  anybody else is closed, and once all are destroyed none is left open.\<close>

theorem one_owner_per_descriptor:
  "one_owner others (sockets_after others evs) \<and>
    ((\<forall>v. fst (sockets_after others evs) v < 0) \<longrightarrow> kn_open (snd (sockets_after others evs)) = others) \<and>
    one_owner others (piece_files_after others evs) \<and>
    ((\<forall>v. fst (piece_files_after others evs) v < 0) \<longrightarrow> kn_open (snd (piece_files_after others evs)) = others)"
  using sockets.run_owned [OF no_owners_owned] piece_files.run_owned [OF no_owners_owned]
    sockets.all_dropped [OF no_owners_owned] piece_files.all_dropped [OF no_owners_owned]
  unfolding sockets_after_def piece_files_after_def by (blast intro: owned_one_owner)

text \<open>Two sockets, one moved onto itself and then over the other; the first is dropped empty.\<close>

theorem one_owner_per_descriptor_witness:
  "kn_open (snd (sockets_after {0, 1}
     [Own_init False 3, Own_init True 4, Own_move True True, Own_move True False, Own_drop False, Own_drop True])) = {0, 1}"
proof -
  have "\<forall>v. fst (sockets_after {0, 1}
      [Own_init False 3, Own_init True 4, Own_move True True, Own_move True False, Own_drop False, Own_drop True]) v < 0"
    by (simp add: sockets_after_def no_owners_def owner_step_def Socket_move_assign_def Socket_close_def kernel_close_def)
  then show ?thesis
    using one_owner_per_descriptor [of "{0, 1}"] by blast
qed

end
