(* ===== verification/Programs.thy ===== *)
theory Programs
  imports Client Tracker_Service Tcp_Server
begin

text \<open>
  The two \<open>main\<close> functions (\<open>client/main.cpp\<close>, \<open>tracker/main.cpp\<close>): what they make of their arguments and
  files before the loops of the other theories start, and the tracker's console.  An exit code of
  \<^const>\<open>None\<close> means that the program goes on to run.
\<close>

datatype 'a startup = Exits int string | Runs 'a

definition client_main :: "platform \<Rightarrow> entropy \<Rightarrow> file_system \<Rightarrow> string list \<Rightarrow> Client startup" where
  "client_main P r fs argv =
     (case (if length argv = 3 then Endpoint_parse P (argv ! 1) else None,
            if length argv = 3 then ClientConfig_load P fs (argv ! 2) else None) of
        (Some self, Some config) \<Rightarrow> Runs (Client_init r self config)
      | _ \<Rightarrow> Exits 1 (''usage: '' @ argv ! 0 @ '' <peer-ip:port> client.conf'' @ [NL] @
          ''client.conf holds the tracker'' @ [CHR 0x27] @ ''s IP:PORT and public key; torrent_keygen creates it'' @ [NL]))"

text \<open>The tracker's address and key, and the log line about it.\<close>

definition tracker_main :: "platform \<Rightarrow> file_system \<Rightarrow> string list \<Rightarrow> (Endpoint \<times> string \<times> string) startup" where
  "tracker_main P fs argv =
     (case (if length argv = 3 then Endpoint_parse P (argv ! 1) else None) of
        None \<Rightarrow> Exits 1 (''usage: '' @ argv ! 0 @ '' <ip:port> <keys-dir>'' @ [NL])
      | Some address \<Rightarrow>
          (case TrackerIdentity_load fs (argv ! 2) of
             None \<Rightarrow> Exits 1 (''missing tracker identity key in '' @ argv ! 2 @ '' (run torrent_keygen)'' @ [NL])
           | Some key \<Rightarrow> Runs (address, key, log_info (''Loaded tracker identity key from '' @ argv ! 2))))"

text \<open>The next line of the log; \<open>failure\<close> is the system's reason when the address could not be bound.\<close>

definition tracker_listen :: "Endpoint \<Rightarrow> string option \<Rightarrow> string startup" where
  "tracker_listen address failure =
     (case failure of
        Some reason \<Rightarrow> Exits 1 (log_error (''could not listen on '' @ Endpoint_toString address @ '': '' @ reason))
      | None \<Rightarrow> Runs (log_info (''Tracker serving clients on '' @ Endpoint_toString address @ '' (type '' @ [CHR 0x22] @ ''quit'' @
          [CHR 0x22] @ '' to stop)'')))"

text \<open>The console thread: the log lines and whether it stopped the server.\<close>

fun tracker_console :: "string list \<Rightarrow> string list \<times> bool" where
  "tracker_console [] = ([], False)"
| "tracker_console (line # input) =
     (if line = ''quit'' then ([log_info ''Stopping: waiting for open connections to finish''], True)
      else
        let (lines, stopped) = tracker_console input in
        ((if line = [] then [] else [log_info (''Unknown console command '' @ [CHR 0x22] @ line @ [CHR 0x22] @ ''; type quit'')]) @ lines,
         stopped))"

text \<open>The end of \<open>main\<close>: the log line and the exit code once \<open>serve\<close> has returned and the console has no more
  input or was told to quit; \<^const>\<open>None\<close> while the console thread still waits for a line.\<close>

definition tracker_end :: "tcp_server \<Rightarrow> string list \<Rightarrow> bool \<Rightarrow> (string \<times> int) option" where
  "tracker_end server input at_end =
     (if ts_phase server = Returned \<and> (snd (tracker_console input) \<or> at_end)
      then Some (log_info ''Tracker stopped'', 0) else None)"

lemma console_stops: "snd (tracker_console input) \<longleftrightarrow> ''quit'' \<in> set input"
  by (induction input) (auto split: prod.split)

lemma client_main_runs:
  "client_main P r fs argv = Runs c \<Longrightarrow> endpoint_ok P (cl_self c) \<and> length (cc_trackerPublicKey (tc_config (cl_tracker c))) = 32"
  by (auto simp: client_main_def Client_init_def TrackerClient_init_def Let_def ClientConfig_load_def dest: Endpoint_parse_ok
      split: if_splits option.splits list.splits)

end
