(* ===== verification/Unit_Tests.thy ===== *)
theory Unit_Tests
  imports Peer_Properties Command_Line Download_Outcome
begin

text \<open>
  The repository's own unit tests (\<open>src/tests\<close>), evaluated on the model: the assertions of
  \<open>command_line_tests\<close>, \<open>net_tests\<close>, \<open>tracker_state_tests\<close>, \<open>peer_access_tests\<close> and \<open>piece_file_tests\<close>, in
  their order.  The definitions were not made for them; that they hold is a check of the translation.
  Where a test needs a platform it is \<open>toy_platform\<close> or \<open>mixing_platform\<close>.  Left out: the known answers of
  \<open>security_tests\<close>, which are facts about OpenSSL, and the integration tests, which start processes.
\<close>

section \<open>Command lines\<close>

definition line :: "string list \<Rightarrow> string" where
  "line ps = concat ps"

lemma command_line_words:
  "parseCommandWords ''login alice secret'' = [''login'', ''alice'', ''secret'']"
  "parseCommandWords (line [''upload file demo '', [QUOTE2], ''folder/my file.pdf'', [QUOTE2]]) =
     [''upload'', ''file'', ''demo'', ''folder/my file.pdf'']"
  "parseCommandWords (line [''download_file demo '', [QUOTE1], ''my file.pdf'', [QUOTE1], '' /tmp/output'', [BSL], '' file.pdf'']) =
     [''download_file'', ''demo'', ''my file.pdf'', ''/tmp/output file.pdf'']"
  "parseCommandWords (line [''create group '', [QUOTE2, QUOTE2]]) = [''create'', ''group'', '''']"
  by code_simp+

lemma command_line_names:
  "CommandLine_parse ''create user alice pw'' = \<lparr>cl_name = ''create_user'', cl_args = [''alice'', ''pw'']\<rparr>"
  "CommandLine_parse ''create_user alice pw'' = \<lparr>cl_name = ''create_user'', cl_args = [''alice'', ''pw'']\<rparr>"
  "CommandLine_parse ''logout'' = \<lparr>cl_name = ''logout'', cl_args = []\<rparr>"
  "CommandLine_parse ''login alice pw'' = \<lparr>cl_name = ''login'', cl_args = [''alice'', ''pw'']\<rparr>"
  "cl_name (CommandLine_parse ''   '') = []"
  by code_simp+

section \<open>Endpoints, numbers, hex, frames\<close>

lemma net_endpoints:
  "Endpoint_parse toy_platform ''127.0.0.1:5000'' = Some \<lparr>ep_ip = ''127.0.0.1'', ep_port = 5000\<rparr>"
  "Endpoint_toString \<lparr>ep_ip = ''127.0.0.1'', ep_port = 5000\<rparr> = ''127.0.0.1:5000''"
  "list_all (\<lambda>bad. Endpoint_parse toy_platform bad = None)
     [''127.0.0.1:5000junk'', ''127.0.0.1:+5000'', ''127.0.0.1:0'', ''127.0.0.1:65536'', ''localhost:5000'', ''127.0.0.1:5000:7'', '':5000'']"
  by code_simp+

lemma net_numbers:
  "parseU64 ''0'' = Some 0" "parseU64 ''18446744073709551615'' \<noteq> None" "parseU64 ''18446744073709551616'' = None"
  "parseU64 ''1x'' = None" "parseU64 ''-1'' = None" "parseU64 '''' = None"
  by code_simp+

lemma net_hex:
  "toHex [CHR 0x01, CHR 0xAB] = ''01ab''" "fromHex ''01AB'' = Some [CHR 0x01, CHR 0xAB]"
  "fromHex ''0'' = None" "fromHex ''zz'' = None" "isHex ''abc'' 3" "\<not> isHex ''abz'' 3" "\<not> isHex ''abc'' 4"
  "split ''a,,b'' CHR '','' = [''a'', '''', ''b'']" "join [''a'', ''b''] CHR '','' = ''a,b''"
  by code_simp+

lemma net_pieces:
  "pieceCountForSize 0 = 0" "pieceCountForSize 1 = 1" "pieceCountForSize PIECE_SIZE = 1" "pieceCountForSize (PIECE_SIZE + 1) = 2"
  by code_simp+

definition oversized :: string where
  "oversized = replicate (nat MAX_FRAME + 1) CHR ''x''"

lemma net_frames:
  "sendFrame [Io_count 4, Io_count 5] ''hello'' = (True, frame_bytes ''hello'', [])"
  "receiveFrame [Io_count 4, Io_count 5] (frame_bytes ''hello'') = (Some ''hello'', [], [])"
  "receiveFrame [Io_count 4] (frame_bytes '''') = (Some '''', [], [])"
  "fst (receiveFrame [Io_count 4] (be32 (MAX_FRAME + 1))) = None"
  "fst (sendFrame evs oversized) = False"
      apply code_simp
     apply code_simp
    apply code_simp
   apply code_simp
  apply (simp add: sendFrame_def oversized_def MAX_FRAME_def)
  done

section \<open>The tracker's commands\<close>

fun answers :: "TrackerState \<Rightarrow> tracker_input list \<Rightarrow> (string \<times> u64) list" where
  "answers st [] = []"
| "answers st (i # is) =
     (case tracker_step toy_platform i st of (r, st') \<Rightarrow> (cr_response r, cr_session r) # answers st' is)"

definition test_key :: string where
  "test_key = toHex (replicate 32 CHR ''k'')"

definition test_digest :: string where
  "test_digest = ''0123456789abcdef0123456789abcdef01234567''"

lemma tracker_commands:
  "answers TrackerState_init
    [(0, ''create_user alice secret'', demo_context 0), (0, ''login alice incorrect'', demo_context 5),
     (0, ''login alice secret'', demo_context 5), (5, ''create_group demo'', demo_context 0),
     (5, ''create_group alpha'', demo_context 0), (5, ''list_groups'', demo_context 0),
     (5, ''list_groups trailing'', demo_context 0), (5, ''bogus'', demo_context 0), (5, '''', demo_context 0),
     (5, line [''upload_file demo 66696c65 1 0123456789abcdef0123456789abcdef0123456z '', test_digest, '' 127.0.0.1 9000 '', test_key],
      demo_context 0),
     (5, line [''upload_file demo 66696c65 1 '', test_digest, '' '', test_digest, '' 127.0.0.1 9000 abcd''], demo_context 0)] =
   [(''OK user created'', 0), (''ERR invalid password'', 0), (''OK logged in'', 5), (''OK group created'', 5),
    (''OK group created'', 5), (''OK alpha demo'', 5), (''ERR usage: list_groups'', 5), (''ERR unknown command'', 5),
    (''ERR empty command'', 5), (''ERR invalid upload metadata'', 5), (''ERR invalid upload metadata'', 5)]"
  by code_simp

definition test_upload :: "string \<Rightarrow> string \<Rightarrow> string" where
  "test_upload port key = line [''upload_file secret '', toHex ''a.txt'', '' 0 '', test_digest, '' - 127.0.0.1 '', port, '' '', key]"

definition test_download :: string where
  "test_download = ''download_file secret '' @ toHex ''a.txt''"

text \<open>What \<open>download_file\<close> answers: the ticket for the seeder, keyed with its peer key.\<close>

definition test_ticket :: PeerTicket where
  "test_ticket = \<lparr>tk_user = ''owner'', tk_group = ''secret'', tk_file = ''a.txt'', tk_expires = 1000 + LIFETIME_SECONDS\<rparr>"

definition test_access :: SeederAccess where
  "test_access = \<lparr>sa_endpoint = \<lparr>ep_ip = ''127.0.0.1'', ep_port = 9000\<rparr>, sa_ticket = PeerTicket_encode test_ticket,
     sa_key = PeerTicket_key toy_platform test_ticket (replicate 32 CHR ''k'')\<rparr>"

definition acl_setup :: "tracker_input list" where
  "acl_setup =
    [(0, ''create_user owner pw'', demo_context 0), (0, ''create_user outsider pw'', demo_context 0),
     (0, ''login owner pw'', demo_context 5), (0, ''login outsider pw'', demo_context 6)]"

lemma acl_outsider:
  "answers (tracker_after toy_platform acl_setup)
    [(0, ''create_group secret'', demo_context 0), (5, ''create_group secret'', demo_context 0),
     (5, test_upload ''9000'' test_key, demo_context 0), (5, test_download, demo_context 0),
     (6, ''list_files secret'', demo_context 0), (6, test_download, demo_context 0),
     (6, test_upload ''9000'' test_key, demo_context 0), (6, ''join_group secret'', demo_context 0),
     (6, ''join_group secret'', demo_context 0), (6, ''accept_request secret outsider'', demo_context 0),
     (6, ''list_requests secret'', demo_context 0), (5, ''list_requests secret'', demo_context 0),
     (5, ''leave_group secret'', demo_context 0)] =
   [(''ERR login required'', 0), (''OK group created'', 5), (''OK file shared'', 5),
    (line [''META 0 '', test_digest, '' - '', SeederAccess_encode test_access], 5),
    (''ERR not a group member'', 6), (''ERR not a group member'', 6), (''ERR not a group member'', 6),
    (''OK join requested'', 6), (''ERR request already pending'', 6), (''ERR only owner may accept requests'', 6),
    (''ERR only owner may list requests'', 6), (''OK outsider'', 5), (''ERR owner cannot leave group'', 5)]"
  by code_simp

lemma acl_access:
  "SeederAccess_decode toy_platform (SeederAccess_encode test_access) = Some test_access"
  "SeederAccess_expires test_access = tk_expires test_ticket"
  by code_simp+

definition acl_member :: "tracker_input list" where
  "acl_member = acl_setup @
    [(5, ''create_group secret'', demo_context 0), (5, test_upload ''9000'' test_key, demo_context 0),
     (6, ''join_group secret'', demo_context 0), (5, ''accept_request secret outsider'', demo_context 0),
     (6, test_upload ''9001'' (toHex (replicate 32 CHR ''o'')), demo_context 0)]"

text \<open>A removed member gets no more tickets and is no longer a seeder; who logs out shares nothing.\<close>

lemma acl_removed:
  "answers (tracker_after toy_platform acl_member)
    [(6, ''remove_member secret owner'', demo_context 0), (5, ''remove_member secret owner'', demo_context 0),
     (5, ''remove_member secret outsider'', demo_context 0), (5, ''remove_member secret outsider'', demo_context 0),
     (6, test_download, demo_context 0), (5, test_download, demo_context 0),
     (5, ''logout'', demo_context 0), (5, ''logout'', demo_context 0), (0, ''login owner pw'', demo_context 8),
     (8, ''list_files secret'', demo_context 0)] =
   [(''ERR only owner may remove members'', 6), (''ERR owner cannot be removed'', 5), (''OK member removed'', 5),
    (''ERR not a member'', 5), (''ERR not a group member'', 6),
    (line [''META 0 '', test_digest, '' - '', SeederAccess_encode test_access], 5),
    (''OK logged out'', 0), (''ERR not logged in'', 5), (''OK logged in'', 8), (''OK'', 8)]"
  by code_simp

section \<open>The peer server\<close>

text \<open>Here the key has to depend on every byte of the ticket.\<close>

definition mixed :: "string \<Rightarrow> int" where
  "mixed s = foldl (\<lambda>h c. h + of_char c) 0 s"

definition mixing_platform :: platform where
  "mixing_platform = toy_platform\<lparr>
     pf_hmac_sha256 := (\<lambda>k d. let h = mixed (k @ d) in Some ([char_of h, char_of (h div 256)] @ replicate 30 NUL))\<rparr>"

definition peer_key :: string where "peer_key = replicate 32 CHR ''p''"

definition peer_ticket :: "string \<Rightarrow> PeerTicket" where
  "peer_ticket file = \<lparr>tk_user = ''bob'', tk_group = ''demo'', tk_file = file, tk_expires = 1002 + LIFETIME_SECONDS\<rparr>"

definition peer_files :: shared_files where
  "peer_files = SharedFiles_add ''demo'' ''shared.txt'' seed_file []"

text \<open>The server's reply to a request and what the downloader reads in it.\<close>

definition ask :: "string \<Rightarrow> string \<Rightarrow> string \<Rightarrow> u64 \<Rightarrow> string \<times> string option" where
  "ask ticket key operation piece =
     (case makeRequest mixing_platform (Some (\<lambda>_. CHR ''q'')) 1001 ticket key operation piece of
        None \<Rightarrow> ([], None)
      | Some (frame, nonce) \<Rightarrow>
          let reply = respond mixing_platform peer_key seed_env peer_files frame in
          (reply, openReply mixing_platform ticket key nonce reply))"

definition ask_for :: "PeerTicket \<Rightarrow> string \<Rightarrow> u64 \<Rightarrow> string \<times> string option" where
  "ask_for t operation piece = ask (PeerTicket_encode t) (PeerTicket_key mixing_platform t peer_key) operation piece"

lemma peer_valid:
  "snd (ask_for (peer_ticket ''shared.txt'') ''GET'' 0) = Some ''hello''"
  "starts_with (fst (ask_for (peer_ticket ''shared.txt'') ''BITMAP'' 0)) ''30|''"
  "snd (ask_for (peer_ticket ''shared.txt'') ''BITMAP'' 0) = Some [CHR 0x01]"
  "fst (ask_for (peer_ticket ''shared.txt'') ''GET'' 7) = UNAVAILABLE"
  by code_simp+

lemma peer_denied:
  "fst (ask (PeerTicket_encode (peer_ticket ''shared.txt'')) (replicate 32 CHR ''g'') ''GET'' 0) = DENIED"
  "fst (ask (PeerTicket_encode ((peer_ticket ''shared.txt'')\<lparr>tk_user := ''mallory''\<rparr>))
     (PeerTicket_key mixing_platform (peer_ticket ''shared.txt'') peer_key) ''GET'' 0) = DENIED"
  "fst (ask (PeerTicket_encode ((peer_ticket ''shared.txt'')\<lparr>tk_expires := 1002 + LIFETIME_SECONDS + 3600\<rparr>))
     (PeerTicket_key mixing_platform (peer_ticket ''shared.txt'') peer_key) ''GET'' 0) = DENIED"
  "fst (ask_for ((peer_ticket ''shared.txt'')\<lparr>tk_expires := 1001\<rparr>) ''GET'' 0) = DENIED"
  "fst (ask (PeerTicket_encode (peer_ticket ''missing.txt'')) (replicate 32 CHR ''g'') ''GET'' 0) = DENIED"
  "fst (ask_for (peer_ticket ''missing.txt'') ''GET'' 0) = DENIED"
  "respond mixing_platform peer_key seed_env peer_files ''garbage'' = DENIED"
  "respond mixing_platform peer_key seed_env peer_files
     (line [''21|'', PeerTicket_encode (peer_ticket ''shared.txt''), ''|00|00|00'']) = DENIED"
  by code_simp+

section \<open>Piece files\<close>

lemma piece_file_hash:
  assumes "PieceFile_hash P (Some content) False = Some m" "length content < 2 ^ 63"
  shows "unat (fm_size m) = length content" "length (fm_pieceHashes m) = (length content + 524287) div 524288"
    "isSha1Hex (fm_fullHash m)"
  using hashed_metadata [OF assms] by (auto simp: sized_def valid_def unat_pieceCountForSize)

lemma piece_file_sizes:
  assumes "(sz, pieces) \<in> set [(0, 0), (17, 1), (524288, 1), (524288 + 17, 2)]"
    and "PieceFile_hash P (Some (replicate sz CHR ''x'')) False = Some m"
  shows "unat (fm_size m) = sz" "length (fm_pieceHashes m) = pieces" "isSha1Hex (fm_fullHash m)"
  using piece_file_hash [OF assms(2)] assms(1) by auto

text \<open>\<open>/tmp\<close> is no regular file.\<close>

lemma piece_file_directory: "PieceFile_hash P None bad = None"
  by (simp add: PieceFile_hash_def)

text \<open>Pieces written out of order read back in place.\<close>

lemma piece_file_order:
  assumes "PieceFile_openForWriting True True None (524288 + 3) False = Some opened"
    and "PieceFile_write [Io_count 3] opened 1 ''end'' = (ok1, one)"
    and "PieceFile_write [Io_count 524288] one 0 (replicate 524288 CHR ''a'') = (ok2, both)"
  shows "ok1 \<and> ok2 \<and> PieceFile_read [Io_count 3] both 1 3 = Some ''end''"
proof -
  have off: "pieceOffset 0 = 0" "pieceOffset 1 = 524288"
    by (simp_all add: pieceOffset_def PIECE_SIZE_def)
  have opened: "length opened = 524291"
    using assms(1) by (auto simp: PieceFile_openForWriting_def resized_def)
  have three: "length ''end'' = 3"
    by simp
  have one: "ok1" "one = take 524288 opened @ ''end''"
    using write_at_once [of "''end''" 1 opened, unfolded three] assms(2) opened by (auto simp: off write_at_def padded_def)
  have both: "ok2" "both = replicate 524288 CHR ''a'' @ drop 524288 one"
    using write_at_once [of "replicate 524288 CHR ''a''" 0 one] assms(3) by (auto simp: off write_at_def padded_def)
  have "both = replicate 524288 CHR ''a'' @ ''end''"
    using opened by (simp add: one(2) both(2))
  then show ?thesis
    using read_at_once [of 3 1 both] one(1) both(1) by (simp add: off)
qed

end
