(* ===== verification/Spec2Isabelle.thy ===== *)
theory Spec2Isabelle
  imports Findings Resuming Destinations Client_Properties Peer_Service Sockets Programs Unit_Tests
begin

text \<open>
  Torrent-Atlas: a model of the tracker, the client and what they say to each other.

  \<^bold>\<open>The program.\<close>  A \<^emph>\<open>tracker\<close> (\<open>src/tracker\<close>) keeps accounts, groups and the metadata of shared files in
  memory and answers one command per connection.  A \<^emph>\<open>client\<close> (\<open>src/client\<close>) reads commands from a prompt,
  forwards most of them to the tracker, serves pieces of its own files to other clients on a listening
  port and runs downloads in the background.  Both speak frames over TCP (\<open>src/common/net\<close>): to the
  tracker through a signed X25519 handshake and AES-256-GCM, between clients with AES-256-GCM under the
  key of a ticket which the tracker issued.  \<open>torrent_keygen\<close> (\<open>src/tools\<close>) writes the tracker's key and the
  client's configuration.

  \<^bold>\<open>What stands for the world.\<close>  OpenSSL and \<open>inet_pton\<close> are not in the repository: they are the fields of
  the record \<^typ>\<open>platform\<close> (theory \<open>Crypto\<close>), and every definition that calls them takes one.  What a proof
  relies on is a named law of that record (\<open>gcm_correct\<close>, \<open>gcm_authentic\<close>, \<open>gcm_total\<close>, \<open>hmac_total\<close>,
  \<open>memcmp_correct\<close>, \<open>inet_dotted\<close>: decryption undoes encryption and lets nothing else through, the calls
  succeed on inputs of the right lengths, a comparison is equality, an address that is accepted is dotted
  decimal); the witnesses instantiate it with \<open>toy_platform\<close> or \<open>demo_platform\<close>.  Clock readings, random
  bytes and the results of system calls are arguments: a read or a write consumes a list of
  \<^typ>\<open>io_event\<close> values (how many bytes, an interruption, an error), in the order the calls are made, so a
  theorem speaks of every short count, every interruption and every failure.  Where a theorem says that
  something succeeds (C16, C27, C32, C36), the network, the disks and the clocks that let it are predicates over these
  arguments: \<open>serves\<close> (the kernel moves all bytes in the end), \<open>linked\<close> and \<open>bytes_move\<close> (each side gets
  what the other writes), \<open>machines_work\<close> (keys, random bytes, clocks within the window), \<open>honest_answer\<close>.  No definition has fuel:
  the loops of the program recurse over these scripts, over the data, or are steps of a schedule.

  \<^bold>\<open>Shared ground.\<close>
  \<^item> \<open>Prelude\<close>: characters, bytes and buffers.  \<open>Std_Map\<close>: \<open>std::map\<close> and \<open>std::set\<close> as sorted lists,
    with their lookup, insertion and erasure laws.
  \<^item> \<open>Encoding\<close> (\<open>common/encoding\<close>): hex, decimal, \<open>split\<close>, \<open>join\<close>, the words of a stream, and the round
    trips between them.  \<open>Crypto\<close> (\<open>common/crypto\<close>), \<open>File_Metadata\<close>, \<open>Freshness\<close>, \<open>Peer_Ticket\<close>,
    \<open>Password\<close> (\<open>tracker/state/password\<close>): one theory per source file.  Sizes, offsets and time stamps keep
    their 64 bits; \<open>pieces_tile\<close> shows that the pieces cover a file without gap or overlap.
  \<^item> \<open>Endpoint\<close>, \<open>Frames\<close>, \<open>Sockets\<close> (\<open>common/net/net\<close>): addresses; length-prefixed frames over scripts of
    partial sends and receives; what is open after every path of connecting and listening.
    \<open>Descriptors\<close>: the interface of an owner of a descriptor, for \<open>Socket\<close> and \<open>PieceFile\<close>: however they are
    moved and destroyed, every open descriptor has one owner and none is closed twice (C33, in \<open>Sockets\<close>).
    \<open>Delivery\<close>: the scripts of a kernel that moves all bytes in the end, in chunks of any size; with them
    the loops over partial reads and writes succeed.
  \<^item> \<open>Machine\<close> and \<open>Fair_Run\<close>: two interfaces.  \<open>Machine\<close> is a component that answers one input at a time,
    with the theorems on its histories; \<open>Fair_Run\<close> is a system of threads whose steps lower a weight,
    with the theorem that every fair schedule comes to an end.

  \<^bold>\<open>The tracker.\<close>
  \<^item> \<open>Tracker_State\<close>: the records of \<open>tracker_state.hpp\<close> and one definition per handler of
    \<open>tracker_state.cpp\<close>, the table \<open>commands\<close> and \<open>apply_command\<close>.
  \<^item> \<open>Tracker_Invariant\<close>: well-formedness, kept by each handler (C1).  \<open>Tracker_Spec\<close>: the abstract specification
    \<open>effect\<close>, a relation between the words of a line, the caller, the state before, the reply and the state after,
    one rule per kind of transition, and the proof that each handler takes one of them; \<open>Tracker_Properties\<close>
    proves that what it allows is also what happens (C2).  \<open>Tracker_Access\<close>: the coarser machine
    of owners, members and applicants, which the tracker simulates (C3).
  \<^item> \<open>Tracker_Properties\<close> (C1 to C5, C7 to C11): joining needs the owner's consent, only members get tickets, a
    refusal changes nothing, removal takes effect everywhere, sessions and passwords.  Each is about an
    arbitrary history of requests, by the interpretation of \<open>Machine\<close>.
  \<^item> \<open>Secure_Channel\<close>, \<open>Tracker_Service\<close>, \<open>Tracker_Client\<close>, \<open>Client_Tracker\<close>, \<open>Tracker_Exchange\<close>, \<open>Config\<close>,
    with \<open>Session_Properties\<close> (C12 to C18; \<open>Session_Demo\<close> is a concrete call for its witnesses): the handshake of both sides, sealed messages with their
    direction, a request from the client's call to the handler that runs - what a call that
    succeeded did, and when a call succeeds - what the log shows, and the
    files of keys and configuration.
  \<^item> \<open>Tracker_Threads\<close>: a connection as a thread whose steps are its accesses to the state and the log, and
    many of them in any interleaving.  \<open>Concurrency_Properties\<close> (C6): their effect is that of serving the
    connections one after the other, in an order that agrees with the time.

  \<^bold>\<open>Between clients.\<close>
  \<^item> \<open>Shared_Files\<close>, \<open>Piece_File\<close>, \<open>Piece_Writes\<close> (\<open>client/storage\<close>): the table of what is served; reading,
    writing and hashing by pieces.
  \<^item> \<open>Peer_Protocol\<close>, \<open>Peer_Server\<close>, \<open>Peer_Client\<close> (\<open>client/peer\<close>), with \<open>Peer_Properties\<close> (C19 to C21, C23, C24): every request
    that is not genuine gets the same answer, and an honest exchange delivers the seeder's piece.
    \<open>Peer_Exchange\<close>: over a connection that moves the bytes, the exchange does succeed.

  \<^bold>\<open>Downloads.\<close>
  \<^item> \<open>Download\<close>: the state of a download and the methods that run on one thread: resuming, bitmaps, rarity,
    order, ticket renewal, the last check.
  \<^item> \<open>Piece_Transfer\<close>: the worker threads.  A worker is a program counter (\<open>W_loop\<close>, \<open>W_next\<close> and so on); a step of a
    worker is one access to shared state; a schedule is an arbitrary list of events, among them the user's
    \<open>cancel\<close> and whatever the client's other threads do to the shared table and to the session with the tracker.  \<open>Download_run\<close> is \<open>Download::run\<close> along
    a schedule.
  \<^item> \<open>Transfer_Invariant\<close>: a position belongs to one worker, and what is published is on disk and matches
    its hash.  \<open>Transfer_Progress\<close>: the weight of the interpretation of \<open>Fair_Run\<close>.  \<open>Transfer_Outcome\<close>: what is
    known once every worker is done.  \<open>Download_Lemmas\<close> and \<open>Download_Outcome\<close> connect these with the start
    and the end of the run; \<open>Download_Demo\<close> is a concrete download for the witnesses.
  \<^item> \<open>Download_Properties\<close> (C26, C28 to C31): a completed download is the file that was shared; published pieces
    match; every fair schedule finishes; resuming.  \<open>Honest_Download\<close> (C27): one
    honest seeder among the seeders is enough for the download to complete in every fair schedule.
    \<open>Partial_Seeding\<close> (C25): the peer server at work on a file that is still being fetched.
    \<open>Resuming\<close> (C34): an interrupted download and the next one of the same file.
    \<open>Arrival\<close> (C32): the whole way of a file, from the tracker's list through the member's request and
    the download it starts to the same bytes at the destination.  \<open>Renewal\<close> (C22, C36): what a download gets
    when its tickets run out, as a member of the group and as somebody who is none.

  \<^bold>\<open>The client and the processes.\<close>
  \<^item> \<open>Prompt\<close>, \<open>Command_Line\<close>, \<open>Download_Manager\<close>, \<open>Client\<close>, with \<open>Client_Properties\<close> (C35, C37): the lines of the
    prompt and the words of a line, the table of downloads and its destructor, the loop that reads and runs commands, each command
    and what it leaves of the client.  \<open>script_run\<close> is what the loop should do with a list of commands (C35).
    \<open>Destinations\<close> (C38): where the downloads of a client write.
  \<^item> \<open>Tcp_Server\<close> (C39, C40): the accept loop, its connection threads and \<open>stop\<close> as interleaved steps, with the
    mutex, the condition variable, and the time that passes in \<open>poll\<close>; the second interpretation of \<open>Fair_Run\<close>.
    \<open>Peer_Service\<close>: starting and stopping a client's peer server, after which no request is being answered.
  \<^item> \<open>Programs\<close>: the two \<open>main\<close> functions and the tracker's console.

  \<^bold>\<open>Checks of the model.\<close>
  \<^item> \<open>Unit_Tests\<close>: the repository's own unit tests, evaluated on the definitions.
  \<^item> \<open>Findings\<close>: where the code does something else than its comments or documents say; each is a lemma.

  \<^bold>\<open>Atomicity.\<close>  A command of the tracker runs under the tracker's mutex from beginning to end, so it is
  one step; a request is several (the session's user, the command, the log line), see \<open>Tracker_Threads\<close>.  The methods of \<open>SharedFiles\<close> and \<open>DownloadManager\<close> that hold a mutex throughout are one step too;
  \<open>DownloadManager::start\<close> lets go of it while it asks the tracker, and is two (\<open>start_check\<close>, \<open>start_located\<close>; the
  client has one prompt, so no other call of the manager comes between them, and \<open>Client_execute\<close> composes them).
  In a download, fetching a piece and writing it is one step of its worker: between the two nothing
  that another thread reads is touched, and no two workers write the same piece (\<open>claims_run\<close>).

  \<^bold>\<open>Not modelled.\<close>  What readline shows on a terminal.  Time stamps and the console of the log.  The pause
  between two passes over a piece.
  Secrecy against an adversary who computes: the model has no cost of guessing a key, and what it says of
  an attacker is what verification, decryption and comparison let through.  The integration tests and the
  build files.
\<close>

end
